(* ===== verification/TT_Prelude.thy ===== *)
theory TT_Prelude
  imports Main "HOL-Library.Word" "HOL-Library.AList"
begin

text \<open>
  Shared ground of the development: the machine integers of the code, the time arithmetic of
  \<open>std::chrono\<close> as the sources use it, the POSIX socket address that the class
  \<open>SocketAddress\<close> wraps, the associations that stand for \<open>std::unordered_map\<close> and
  \<open>std::map\<close>, and the generic facts on lists and associations used by several components.

  A map whose iteration the code observes is an association list with distinct keys, in the order
  of iteration; \<open>AList.update\<close> is \<open>m[k] = v\<close> and \<open>AList.delete\<close> is \<open>erase(k)\<close>.
\<close>

section \<open>Collections of rules\<close>

named_theorems wire_simps \<open>rewrite rules of the byte readers and writers\<close>

section \<open>Machine integers\<close>

type_synonym u8 = "8 word"

type_synonym u16 = "16 word"

type_synonym u32 = "32 word"

type_synonym u64 = "64 word"

type_synonym bytes = "u8 list"

section \<open>Time\<close>

text \<open>
  A \<open>steady_clock::time_point\<close> is a number of nanoseconds since the clock's epoch, and the
  value-initialised \<open>time_point{}\<close> is 0. A \<open>Millis\<close> is a number of milliseconds.
  \<open>duration_cast\<close> truncates towards zero.
\<close>

type_synonym time_point = int

type_synonym millis = int

text \<open>Integer division of C++, which truncates towards zero.\<close>

definition trunc_div :: "int \<Rightarrow> int \<Rightarrow> int" where
  "trunc_div a b = sgn a * sgn b * (\<bar>a\<bar> div \<bar>b\<bar>)"

definition ns_of_millis :: "millis \<Rightarrow> int" where
  "ns_of_millis ms = 1000000 * ms"

definition duration_cast_millis :: "int \<Rightarrow> millis" where
  "duration_cast_millis d = (if 0 \<le> d then d div 1000000 else - ((- d) div 1000000))"

lemma duration_cast_millis_nonneg: "0 \<le> d \<Longrightarrow> 0 \<le> duration_cast_millis d"
  by (simp add: duration_cast_millis_def)

lemma duration_cast_ns_of_millis [simp]: "duration_cast_millis (ns_of_millis ms) = ms"
  by (simp add: duration_cast_millis_def ns_of_millis_def mult_minus_right [symmetric]
      del: mult_minus_right)

section \<open>Socket addresses\<close>

text \<open>
  The POSIX socket addresses: no address (\<open>AF_UNSPEC\<close>), \<open>sockaddr_in\<close> and
  \<open>sockaddr_in6\<close>, each with its address bytes in network order and its port.
\<close>

datatype sock_addr =
    SA_Unspec
  | SA_V4 (sa_bytes: bytes) (sa_port_field: u16)
  | SA_V6 (sa_bytes: bytes) (sa_port_field: u16)

fun is_ipv4 :: "sock_addr \<Rightarrow> bool" where
  "is_ipv4 (SA_V4 _ _) = True"
| "is_ipv4 _ = False"

fun is_ipv6 :: "sock_addr \<Rightarrow> bool" where
  "is_ipv6 (SA_V6 _ _) = True"
| "is_ipv6 _ = False"

fun sa_addr :: "sock_addr \<Rightarrow> bytes" where
  "sa_addr SA_Unspec = []"
| "sa_addr (SA_V4 b _) = b"
| "sa_addr (SA_V6 b _) = b"

fun sa_port :: "sock_addr \<Rightarrow> u16" where
  "sa_port SA_Unspec = 0"
| "sa_port (SA_V4 _ p) = p"
| "sa_port (SA_V6 _ p) = p"

fun set_port :: "sock_addr \<Rightarrow> u16 \<Rightarrow> sock_addr" where
  "set_port SA_Unspec _ = SA_Unspec"
| "set_port (SA_V4 b _) p = SA_V4 b p"
| "set_port (SA_V6 b _) p = SA_V6 b p"

text \<open>An address whose number of bytes fits its family.\<close>

fun sa_wf :: "sock_addr \<Rightarrow> bool" where
  "sa_wf SA_Unspec = True"
| "sa_wf (SA_V4 b _) = (length b = 4)"
| "sa_wf (SA_V6 b _) = (length b = 16)"

lemma set_port_sa_port [simp]: "set_port a (sa_port a) = a"
  by (cases a) auto

lemma sa_port_set_port [simp]: "a \<noteq> SA_Unspec \<Longrightarrow> sa_port (set_port a p) = p"
  by (cases a) auto

lemma sa_wf_set_port [simp]: "sa_wf (set_port a p) = sa_wf a"
  by (cases a) auto

lemma set_port_idem [simp]: "set_port (set_port a p) q = set_port a q"
  by (cases a) auto

section \<open>Lists and associations\<close>

lemma find_SomeD: "List.find P xs = Some x \<Longrightarrow> x \<in> set xs \<and> P x"
  by (auto simp: find_Some_iff)

lemma count_list_remove1:
  "count_list (remove1 x xs) y = (if x = y then count_list xs y - 1 else count_list xs y)"
proof (induction xs)
  case (Cons a xs)
  then show ?case by (cases "x \<in> set xs") (auto simp: count_list_0_iff)
qed simp

lemma map_of_filter_key:
  "map_of (filter (\<lambda>kv. P (fst kv)) xs) k = (if P k then map_of xs k else None)"
  by (induction xs) auto

text \<open>
  \<open>m[k] = v\<close> on a \<open>std::map\<close>, whose iteration is in the order of the keys; \<open>erase(k)\<close> is
  \<open>AList.delete\<close> here too.
\<close>

fun map_put :: "'k::linorder \<Rightarrow> 'v \<Rightarrow> ('k \<times> 'v) list \<Rightarrow> ('k \<times> 'v) list" where
  "map_put k v [] = [(k, v)]"
| "map_put k v ((k', v') # xs) =
     (if k < k' then (k, v) # (k', v') # xs else if k = k' then (k, v) # xs else (k', v') # map_put k v xs)"

lemma map_of_map_put [simp]: "map_of (map_put k v xs) = (map_of xs)(k \<mapsto> v)"
  by (induction k v xs rule: map_put.induct) auto

lemma set_fst_map_put [simp]: "fst ` set (map_put k v xs) = insert k (fst ` set xs)"
  by (induction k v xs rule: map_put.induct) auto

lemma set_map_put: "set (map_put k v xs) \<subseteq> insert (k, v) (set xs)"
  by (induction k v xs rule: map_put.induct) auto

lemma sorted_map_put: "sorted_wrt (<) (map fst xs) \<Longrightarrow> sorted_wrt (<) (map fst (map_put k v xs))"
proof (induction k v xs rule: map_put.induct)
  case (2 k v k' v' xs)
  have "\<forall>x \<in> fst ` set (map_put k v xs). k' < x" if "k' < k"
    using that 2(2) by simp
  then show ?case using 2 by auto
qed simp

lemma map_put_not_Nil [simp]: "map_put k v xs \<noteq> []"
  by (cases "(k, v, xs)" rule: map_put.cases) auto

lemma delete_fst_set: "fst ` set (AList.delete k xs) = fst ` set xs - {k}"
  by (auto simp: AList.delete_eq)

lemma set_delete_eq: "set (AList.delete k xs) = {x \<in> set xs. fst x \<noteq> k}"
  by (auto simp: AList.delete_eq)

lemma map_of_update_same [simp]: "map_of (AList.update k v xs) k = Some v"
  by (simp add: update_conv')

lemma map_of_update_other [simp]:
  "k \<noteq> k' \<Longrightarrow> map_of (AList.update k v xs) k' = map_of xs k'"
  by (simp add: update_conv')

lemma map_of_delete_same [simp]: "map_of (AList.delete k xs) k = None"
  by (simp add: delete_conv')

lemma map_of_delete_other [simp]:
  "k \<noteq> k' \<Longrightarrow> map_of (AList.delete k xs) k' = map_of xs k'"
  by (simp add: delete_conv')

section \<open>Requests that are answered once\<close>

text \<open>What the events of a run contribute, in order.\<close>

primrec history :: "('e \<Rightarrow> 's \<Rightarrow> 's) \<Rightarrow> ('e \<Rightarrow> 's \<Rightarrow> 'k list) \<Rightarrow> 'e list \<Rightarrow> 's \<Rightarrow> 'k list" where
  "history step f [] s = []"
| "history step f (e # es) s = f e s @ history step f es (step e s)"

text \<open>
  The contract of a component that accepts requests and answers them: a step accepts only requests
  that are not pending and answers only requests that are. Every accepted request is then answered
  once or still pending.
\<close>

locale request_tracker =
  fixes step :: "'e \<Rightarrow> 's \<Rightarrow> 's" and ok :: "'s \<Rightarrow> bool" and pending :: "'s \<Rightarrow> 'k set"
    and accepted :: "'e \<Rightarrow> 's \<Rightarrow> 'k list" and answered :: "'e \<Rightarrow> 's \<Rightarrow> 'k list"
  assumes step_ok: "ok s \<Longrightarrow> ok (step e s)"
    and accepted_new: "ok s \<Longrightarrow> distinct (accepted e s) \<and> set (accepted e s) \<inter> pending s = {}"
    and answered_pending: "ok s \<Longrightarrow> distinct (answered e s) \<and> set (answered e s) \<subseteq> pending s \<union> set (accepted e s)"
    and pending_step: "ok s \<Longrightarrow> pending (step e s) = (pending s \<union> set (accepted e s)) - set (answered e s)"
begin

lemma run_ok: "ok s \<Longrightarrow> ok (fold step es s)"
  by (induction es arbitrary: s) (simp_all add: step_ok)

lemma count_distinct: "distinct xs \<Longrightarrow> count_list xs k = of_bool (k \<in> set xs)"
  by (induction xs) auto

lemma step_balance:
  "ok s \<Longrightarrow> count_list (accepted e s) k + of_bool (k \<in> pending s) =
     count_list (answered e s) k + of_bool (k \<in> pending (step e s))"
  using accepted_new [of s e] answered_pending [of s e] pending_step [of s e] by (auto simp: count_distinct)

lemma answered_once:
  "ok s \<Longrightarrow> count_list (history step accepted es s) k + of_bool (k \<in> pending s) =
     count_list (history step answered es s) k + of_bool (k \<in> pending (fold step es s))"
proof (induction es arbitrary: s)
  case (Cons e es)
  note one = step_balance [OF Cons(2), of e k] and rest = Cons(1) [OF step_ok [OF Cons(2)], of e]
  show ?case using one rest by (simp only: history.simps count_list_append fold_simps)
qed simp

end

end
