(* ===== verification/TT_Fsm.thy ===== *)
theory TT_Fsm
  imports TT_Prelude
begin

text \<open>
  The table-driven state machine of \<open>common/src/fsm.cpp\<close>, \<open>common/src/fsm_validation.cpp\<close>
  and \<open>common/include/vpn/fsm.h\<close>. An entry's condition and actions are function pointers
  \<open>(ctx, data)\<close>, null for \<open>ANYWAY\<close>, \<open>OTHERWISE\<close> and \<open>DO_NOTHING\<close>; in the model they
  are optional functions on the context value, and the first argument is what
  \<open>Fsm::get_state\<close> returns when the condition or the action runs.
\<close>

section \<open>Definitions\<close>

type_synonym fsm_state = u32

type_synonym fsm_event = int

record ('c, 'd) fsm_entry =
  src_state :: fsm_state
  event :: fsm_event
  condition :: "(fsm_state \<Rightarrow> 'c \<Rightarrow> 'd \<Rightarrow> bool) option"
  before_transition :: "(fsm_state \<Rightarrow> 'c \<Rightarrow> 'd \<Rightarrow> 'c) option"
  target_state :: fsm_state
  after_transition :: "(fsm_state \<Rightarrow> 'c \<Rightarrow> 'd \<Rightarrow> 'c) option"

record ('c, 'd) fsm_params =
  initial_state :: fsm_state
  table :: "('c, 'd) fsm_entry list"

record fsm =
  m_current_state :: fsm_state
  m_recursive :: bool

definition ANY_SOURCE_STATE :: fsm_state where
  "ANY_SOURCE_STATE = 4294967295"

definition SAME_TARGET_STATE :: fsm_state where
  "SAME_TARGET_STATE = 4294967294"

text \<open>A null action leaves the context alone.\<close>

fun run_action :: "(fsm_state \<Rightarrow> 'c \<Rightarrow> 'd \<Rightarrow> 'c) option \<Rightarrow> fsm_state \<Rightarrow> 'c \<Rightarrow> 'd \<Rightarrow> 'c" where
  "run_action None st c d = c"
| "run_action (Some f) st c d = f st c d"

fun holds_condition ::
  "(fsm_state \<Rightarrow> 'c \<Rightarrow> 'd \<Rightarrow> bool) option \<Rightarrow> fsm_state \<Rightarrow> 'c \<Rightarrow> 'd \<Rightarrow> bool" where
  "holds_condition None st c d = True"
| "holds_condition (Some p) st c d = p st c d"

definition next_state :: "('c, 'd) fsm_entry \<Rightarrow> fsm_state \<Rightarrow> fsm_state" where
  "next_state e st = (if target_state e \<noteq> SAME_TARGET_STATE then target_state e else st)"

text \<open>The loop of \<open>Fsm::perform_transition\<close> over the table.\<close>

fun run_table ::
  "('c, 'd) fsm_entry list \<Rightarrow> fsm_event \<Rightarrow> 'd \<Rightarrow> fsm \<Rightarrow> 'c \<Rightarrow> fsm \<times> 'c" where
  "run_table [] ev d f c = (f, c)"
| "run_table (e # es) ev d f c =
     (if m_current_state f \<noteq> src_state e \<and> src_state e \<noteq> ANY_SOURCE_STATE then run_table es ev d f c
      else if ev \<noteq> event e then run_table es ev d f c
      else if \<not> holds_condition (condition e) (m_current_state f) c d then run_table es ev d f c
      else
        (let c1 = run_action (before_transition e) (m_current_state f) c d;
             f1 = f\<lparr>m_current_state := next_state e (m_current_state f), m_recursive := False\<rparr>;
             c2 = run_action (after_transition e) (m_current_state f1) c1 d
         in (f1, c2)))"

definition perform_transition ::
  "('c, 'd) fsm_params \<Rightarrow> fsm_event \<Rightarrow> 'd \<Rightarrow> fsm \<times> 'c \<Rightarrow> fsm \<times> 'c" where
  "perform_transition p ev d fc =
     (let (f, c) = fc in
      if m_recursive f then (f, c)
      else
        (let (f', c') = run_table (table p) ev d (f\<lparr>m_recursive := True\<rparr>) c
         in (f'\<lparr>m_recursive := False\<rparr>, c')))"

definition fsm_init :: "('c, 'd) fsm_params \<Rightarrow> fsm" where
  "fsm_init p = \<lparr>m_current_state = initial_state p, m_recursive = False\<rparr>"

definition get_state :: "fsm \<Rightarrow> fsm_state" where
  "get_state f = m_current_state f"

definition fsm_reset :: "('c, 'd) fsm_params \<Rightarrow> fsm \<Rightarrow> fsm" where
  "fsm_reset p f = f\<lparr>m_current_state := initial_state p, m_recursive := False\<rparr>"

text \<open>
  \<open>Fsm::validate_transition_table\<close> of a build with assertions: the map from
  \<open>(src_state, event)\<close> to \<open>EntryValidationInfo::closed\<close> is an association list, in which a
  missing pair reads as the default \<open>false\<close>.
\<close>

fun validate_loop ::
  "((fsm_state \<times> fsm_event) \<times> bool) list \<Rightarrow> ('c, 'd) fsm_entry list \<Rightarrow> bool" where
  "validate_loop vt [] = True"
| "validate_loop vt (e # es) =
     (if src_state e = SAME_TARGET_STATE then False
      else if target_state e = ANY_SOURCE_STATE then False
      else if map_of vt (src_state e, event e) = Some True then False
      else validate_loop (AList.update (src_state e, event e) (condition e = None) vt) es)"

definition validate_transition_table :: "('c, 'd) fsm_entry list \<Rightarrow> bool" where
  "validate_transition_table t = validate_loop [] t"

section \<open>Reference semantics\<close>

text \<open>An entry matches an event in a state; a transition takes the first entry that matches.\<close>

definition entry_matches :: "fsm_state \<Rightarrow> fsm_event \<Rightarrow> 'c \<Rightarrow> 'd \<Rightarrow> ('c, 'd) fsm_entry \<Rightarrow> bool" where
  "entry_matches st ev c d e \<longleftrightarrow>
     (src_state e = st \<or> src_state e = ANY_SOURCE_STATE) \<and> event e = ev \<and>
     holds_condition (condition e) st c d"

definition fire :: "('c, 'd) fsm_entry \<Rightarrow> 'd \<Rightarrow> fsm_state \<Rightarrow> 'c \<Rightarrow> fsm_state \<times> 'c" where
  "fire e d st c =
     (next_state e st,
      run_action (after_transition e) (next_state e st)
        (run_action (before_transition e) st c d) d)"

text \<open>The rows of a table that can match an event in a state, conditions aside.\<close>

definition rows :: "fsm_state \<Rightarrow> fsm_event \<Rightarrow> ('c, 'd) fsm_entry list \<Rightarrow> ('c, 'd) fsm_entry list" where
  "rows st ev t = filter (\<lambda>e. (src_state e = st \<or> src_state e = ANY_SOURCE_STATE) \<and> event e = ev) t"

section \<open>Facts\<close>

lemma run_table_find:
  "run_table t ev d f c =
     (case List.find (entry_matches (m_current_state f) ev c d) t of
        None \<Rightarrow> (f, c)
      | Some e \<Rightarrow>
          (f\<lparr>m_current_state := fst (fire e d (m_current_state f) c), m_recursive := False\<rparr>,
           snd (fire e d (m_current_state f) c)))"
  by (induction t) (auto simp: entry_matches_def fire_def Let_def)

lemma rows_simps [simp]:
  "rows st ev [] = []"
  "rows st ev (e # es) =
     (if (src_state e = st \<or> src_state e = ANY_SOURCE_STATE) \<and> event e = ev then e # rows st ev es else rows st ev es)"
  by (simp_all add: rows_def)

lemma find_rows:
  "List.find (entry_matches st ev c d) t = List.find (entry_matches st ev c d) (rows st ev t)"
  by (induction t) (auto simp: rows_def entry_matches_def)

text \<open>In a table with no conditions the first row for the state and event is the one taken.\<close>

lemma find_rows_unconditional:
  assumes "\<forall>e \<in> set t. condition e = None"
  shows "List.find (entry_matches st ev c d) (rows st ev t) =
    (case rows st ev t of [] \<Rightarrow> None | e # _ \<Rightarrow> Some e)"
proof -
  have "\<forall>e \<in> set (rows st ev t). entry_matches st ev c d e"
    using assms by (auto simp: rows_def entry_matches_def)
  then show ?thesis by (cases "rows st ev t") auto
qed

lemma perform_transition_find:
  assumes "\<not> m_recursive f"
  shows "perform_transition p ev d (f, c) =
     (case List.find (entry_matches (m_current_state f) ev c d) (rows (m_current_state f) ev (table p)) of
        None \<Rightarrow> (f, c)
      | Some e \<Rightarrow>
          (f\<lparr>m_current_state := fst (fire e d (m_current_state f) c)\<rparr>,
           snd (fire e d (m_current_state f) c)))"
proof -
  have "f\<lparr>m_recursive := False\<rparr> = f" using assms by simp
  then show ?thesis using assms
    by (simp add: perform_transition_def run_table_find find_rows [symmetric] split: option.split)
qed

lemma perform_transition_not_recursive:
  "\<not> m_recursive f \<Longrightarrow> \<not> m_recursive (fst (perform_transition p ev d (f, c)))"
  by (auto simp: perform_transition_def split: prod.splits)

text \<open>What a successful validation says of every pair of rows.\<close>

definition closed_before ::
  "((fsm_state \<times> fsm_event) \<times> bool) list \<Rightarrow> ('c, 'd) fsm_entry \<Rightarrow> bool" where
  "closed_before vt e \<longleftrightarrow> map_of vt (src_state e, event e) = Some True"

lemma validate_loop_iff:
  "validate_loop vt t \<longleftrightarrow>
     (\<forall>e \<in> set t. src_state e \<noteq> SAME_TARGET_STATE \<and> target_state e \<noteq> ANY_SOURCE_STATE) \<and>
     (\<forall>e \<in> set t. \<not> closed_before vt e) \<and>
     sorted_wrt (\<lambda>a b. src_state a = src_state b \<and> event a = event b \<longrightarrow> condition a \<noteq> None) t"
proof (induction t arbitrary: vt)
  case Nil
  then show ?case by simp
next
  case (Cons e es)
  let ?same = "\<lambda>x. src_state e = src_state x \<and> event e = event x"
  have closed: "closed_before (AList.update (src_state e, event e) (condition e = None) vt) x \<longleftrightarrow>
      (if ?same x then condition e = None else closed_before vt x)" for x
    by (auto simp: closed_before_def update_conv')
  have same: "?same x \<Longrightarrow> closed_before vt x \<longleftrightarrow> closed_before vt e" for x
    by (simp add: closed_before_def)
  show ?case
    using same unfolding validate_loop.simps Cons.IH closed closed_before_def [symmetric]
    by (simp add: ball_conj_distrib [symmetric]) blast
qed

section \<open>Invariants of a machine\<close>

text \<open>
  The contract between a table and a property of its machine. \<open>pre\<close> is what holds of the state and
  the context when an event is given to the machine; if the row that takes the event establishes
  \<open>inv\<close>, and so does an event that no row takes, the machine establishes \<open>inv\<close>.
\<close>

locale fsm_invariant =
  fixes params :: "('c, 'd) fsm_params"
    and pre :: "fsm_event \<Rightarrow> 'd \<Rightarrow> fsm_state \<Rightarrow> 'c \<Rightarrow> bool"
    and inv :: "fsm_state \<Rightarrow> 'c \<Rightarrow> bool"
  assumes row_establishes:
    "\<lbrakk>List.find (entry_matches st ev c d) (rows st ev (table params)) = Some e; pre ev d st c\<rbrakk>
      \<Longrightarrow> inv (fst (fire e d st c)) (snd (fire e d st c))"
    and idle_keeps:
    "\<lbrakk>List.find (entry_matches st ev c d) (rows st ev (table params)) = None; pre ev d st c\<rbrakk> \<Longrightarrow> inv st c"
begin

lemma transition_establishes:
  assumes "\<not> m_recursive f" and "pre ev d (m_current_state f) c"
  shows "inv (m_current_state (fst (perform_transition params ev d (f, c))))
           (snd (perform_transition params ev d (f, c)))"
  using assms row_establishes idle_keeps
  by (cases "List.find (entry_matches (m_current_state f) ev c d) (rows (m_current_state f) ev (table params))")
     (simp_all add: perform_transition_find)

end

text \<open>
  A property of the context alone that every action of the table keeps: a special case of the
  contract above.
\<close>

locale fsm_frame =
  fixes params :: "('c, 'd) fsm_params" and P :: "'c \<Rightarrow> bool"
  assumes before_keeps: "\<lbrakk>e \<in> set (table params); before_transition e = Some f; P c\<rbrakk> \<Longrightarrow> P (f st c d)"
    and after_keeps: "\<lbrakk>e \<in> set (table params); after_transition e = Some f; P c\<rbrakk> \<Longrightarrow> P (f st c d)"

sublocale fsm_frame \<subseteq> frame: fsm_invariant params "\<lambda>ev d st c. P c" "\<lambda>st c. P c"
proof
  fix st ev c d e
  assume takes: "List.find (entry_matches st ev c d) (rows st ev (table params)) = Some e" and P: "P c"
  then have e: "e \<in> set (table params)" by (auto dest!: find_SomeD simp: rows_def)
  have "P (run_action (before_transition e) st c d)"
    using P before_keeps [OF e] by (cases "before_transition e") auto
  then show "P (snd (fire e d st c))"
    using after_keeps [OF e] by (cases "after_transition e") (auto simp: fire_def)
qed

text \<open>
  C20: a transition is taken by the first row of the table whose source state, event and condition
  match: the context goes through that row's before-action, the state changes to the row's target
  (or stays, for \<open>SAME_TARGET_STATE\<close>), the context goes through its after-action; with no
  matching row nothing changes, and the machine is ready for the next event in either case.
\<close>

theorem perform_transition_first_match:
  assumes "\<not> m_recursive f"
  shows "perform_transition p ev d (f, c) =
     (case List.find (entry_matches (m_current_state f) ev c d) (table p) of
        None \<Rightarrow> (f, c)
      | Some e \<Rightarrow>
          (f\<lparr>m_current_state := next_state e (m_current_state f)\<rparr>,
           run_action (after_transition e) (next_state e (m_current_state f))
             (run_action (before_transition e) (m_current_state f) c d) d))"
  using assms by (simp add: perform_transition_find find_rows [symmetric] fire_def split: option.split)

theorem perform_transition_first_match_witness:
  "perform_transition
     \<lparr>initial_state = 0, table = [\<lparr>src_state = 0, event = 5, condition = Some (\<lambda>_ c _. c > (3::nat)),
        before_transition = None, target_state = 1, after_transition = None\<rparr>,
        \<lparr>src_state = ANY_SOURCE_STATE, event = 5, condition = None,
        before_transition = Some (\<lambda>_ c d. c + d), target_state = 2, after_transition = Some (\<lambda>_ c _. 2 * c)\<rparr>]\<rparr>
     5 10 (\<lparr>m_current_state = 0, m_recursive = False\<rparr>, 1) =
   (\<lparr>m_current_state = 2, m_recursive = False\<rparr>, 22)"
  by (subst perform_transition_first_match)
     (simp_all add: entry_matches_def ANY_SOURCE_STATE_def SAME_TARGET_STATE_def next_state_def)

text \<open>
  the table validation accepts a table exactly when no row has \<open>SAME_TARGET_STATE\<close> as its
  source or \<open>ANY_SOURCE_STATE\<close> as its target, and every row that is followed by another row for
  the same source state and event has a condition, so that no row is dead behind an unconditional
  one.
\<close>

theorem validate_transition_table_iff:
  "validate_transition_table t \<longleftrightarrow>
     (\<forall>e \<in> set t. src_state e \<noteq> SAME_TARGET_STATE \<and> target_state e \<noteq> ANY_SOURCE_STATE) \<and>
     sorted_wrt (\<lambda>a b. src_state a = src_state b \<and> event a = event b \<longrightarrow> condition a \<noteq> None) t"
  by (simp add: validate_transition_table_def validate_loop_iff closed_before_def)

theorem validate_transition_table_iff_witness:
  "\<not> sorted_wrt (\<lambda>a b. src_state a = src_state b \<and> event a = event b \<longrightarrow> condition a \<noteq> None)
     (replicate 2 (\<lparr>src_state = 0, event = 5, condition = None, before_transition = None,
        target_state = 1, after_transition = None\<rparr> :: (nat, nat) fsm_entry))"
  using validate_transition_table_iff [of "replicate 2 (\<lparr>src_state = 0, event = 5, condition = None,
      before_transition = None, target_state = 1, after_transition = None\<rparr> :: (nat, nat) fsm_entry)"]
  by (simp add: validate_transition_table_def numeral_2_eq_2 SAME_TARGET_STATE_def ANY_SOURCE_STATE_def)

end
