(* ===== verification/TT_Vpn_Types.thy ===== *)
theory TT_Vpn_Types
  imports TT_Prelude Complex_Main "HOL-Library.Log_Nat" "HOL-Library.Multiset"
begin

text \<open>
  The data that the client components exchange: errors and their codes (\<open>core/include/vpn/vpn.h\<close>,
  \<open>common/include/vpn/utils.h\<close>), endpoints, relays and locations (\<open>net/include/net/utils.h\<close>),
  the upstream configuration with its defaults, connect requests, the comparison of endpoints
  (\<open>net/src/utils.cpp\<close>), and the routine \<open>swap_remove_if\<close> of \<open>common/include/vpn/utils.h\<close>.

  A null \<open>const char *\<close> is \<open>None\<close>; an owned pointer or handle that the code only tests against
  null is a \<open>bool\<close>, true when it is set.
\<close>

section \<open>Errors\<close>

datatype vpn_error = VpnError (ec: int) (etext: string)

definition VPN_EC_NOERROR :: int where "VPN_EC_NOERROR = 0"

definition VPN_EC_ERROR :: int where "VPN_EC_ERROR = 1"

definition VPN_EC_INVALID_SETTINGS :: int where "VPN_EC_INVALID_SETTINGS = 2"

definition VPN_EC_ADDR_IN_USE :: int where "VPN_EC_ADDR_IN_USE = 3"

definition VPN_EC_INVALID_STATE :: int where "VPN_EC_INVALID_STATE = 4"

definition VPN_EC_AUTH_REQUIRED :: int where "VPN_EC_AUTH_REQUIRED = 5"

definition VPN_EC_LOCATION_UNAVAILABLE :: int where "VPN_EC_LOCATION_UNAVAILABLE = 6"

definition VPN_EC_CERTIFICATE_VERIFICATION_FAILED :: int where
  "VPN_EC_CERTIFICATE_VERIFICATION_FAILED = 7"

definition VPN_EC_CERTIFICATE_NOT_YET_VALID :: int where "VPN_EC_CERTIFICATE_NOT_YET_VALID = 8"

definition VPN_EC_EVENT_LOOP_FAILURE :: int where "VPN_EC_EVENT_LOOP_FAILURE = 9"

definition VPN_EC_INITIAL_CONNECT_FAILED :: int where "VPN_EC_INITIAL_CONNECT_FAILED = 10"

definition VPN_EC_FATAL_CONNECTIVITY_ERROR :: int where "VPN_EC_FATAL_CONNECTIVITY_ERROR = 11"

lemmas ec_defs = VPN_EC_NOERROR_def VPN_EC_ERROR_def VPN_EC_INVALID_SETTINGS_def
  VPN_EC_ADDR_IN_USE_def VPN_EC_INVALID_STATE_def VPN_EC_AUTH_REQUIRED_def
  VPN_EC_LOCATION_UNAVAILABLE_def VPN_EC_CERTIFICATE_VERIFICATION_FAILED_def
  VPN_EC_CERTIFICATE_NOT_YET_VALID_def VPN_EC_EVENT_LOOP_FAILURE_def
  VPN_EC_INITIAL_CONNECT_FAILED_def VPN_EC_FATAL_CONNECTIVITY_ERROR_def

text \<open>The value-initialised \<open>VpnError{}\<close>.\<close>

definition no_error :: vpn_error where
  "no_error = VpnError VPN_EC_NOERROR []"

section \<open>Endpoints and configuration\<close>

datatype vpn_upstream_protocol = VPN_UP_HTTP2 | VPN_UP_HTTP3 | VPN_UP_AUTO

record vpn_endpoint =
  ep_address :: sock_addr
  ep_name :: "string option"
  remote_id :: "string option"
  ep_additional_data :: bytes
  ep_tls_client_random :: bytes
  ep_tls_client_random_mask :: bytes
  has_ipv6 :: bool
  preferred_protocol :: vpn_upstream_protocol

record vpn_relay =
  rl_address :: sock_addr
  rl_additional_data :: bytes
  rl_tls_client_random :: bytes
  rl_tls_client_random_mask :: bytes

record vpn_location =
  location_id :: "string option"
  endpoints :: "vpn_endpoint list"
  relays :: "vpn_relay list"

text \<open>
  The backoff rate is a finite \<open>float\<close>, held as the rational number it denotes.
\<close>

record recovery_settings =
  backoff_rate :: rat
  location_update_period_ms :: u32
  rs_attempts :: u32

record vpn_upstream_config =
  main_protocol :: vpn_upstream_protocol
  location :: vpn_location
  location_ping_timeout_ms :: u32
  timeout_ms :: u32
  health_check_timeout_ms :: u32
  username :: "string option"
  password :: "string option"
  recovery_cfg :: recovery_settings
  anti_dpi :: bool

definition VPN_DEFAULT_ENDPOINT_UPSTREAM_TIMEOUT_MS :: u32 where
  "VPN_DEFAULT_ENDPOINT_UPSTREAM_TIMEOUT_MS = 30 * 1000"

definition VPN_DEFAULT_HEALTH_CHECK_TIMEOUT_MS :: u32 where
  "VPN_DEFAULT_HEALTH_CHECK_TIMEOUT_MS = 7000"

definition VPN_DEFAULT_RECOVERY_LOCATION_UPDATE_PERIOD_MS :: u32 where
  "VPN_DEFAULT_RECOVERY_LOCATION_UPDATE_PERIOD_MS = 10 * 1000"

definition VPN_DEFAULT_INITIAL_RECOVERY_INTERVAL_MS :: millis where
  "VPN_DEFAULT_INITIAL_RECOVERY_INTERVAL_MS = 1 * 1000"

definition VPN_DEFAULT_CONNECT_ATTEMPTS_NUM :: u64 where
  "VPN_DEFAULT_CONNECT_ATTEMPTS_NUM = 5"

definition VPN_DEFAULT_POSTPONEMENT_WINDOW_MS :: millis where
  "VPN_DEFAULT_POSTPONEMENT_WINDOW_MS = 3 * 1000"

text \<open>The single-precision constant \<open>1.3f\<close>.\<close>

definition VPN_DEFAULT_RECOVERY_BACKOFF_RATE :: rat where
  "VPN_DEFAULT_RECOVERY_BACKOFF_RATE = 10905190 / 8388608"

definition VPN_DEFAULT_RECOVERY_ATTEMPTS :: u32 where
  "VPN_DEFAULT_RECOVERY_ATTEMPTS = 30"

definition DEFAULT_LOCATION_PING_TIMEOUT_MS :: u32 where
  "DEFAULT_LOCATION_PING_TIMEOUT_MS = 5000"

lemmas default_defs = VPN_DEFAULT_ENDPOINT_UPSTREAM_TIMEOUT_MS_def
  VPN_DEFAULT_HEALTH_CHECK_TIMEOUT_MS_def VPN_DEFAULT_RECOVERY_LOCATION_UPDATE_PERIOD_MS_def
  VPN_DEFAULT_INITIAL_RECOVERY_INTERVAL_MS_def VPN_DEFAULT_CONNECT_ATTEMPTS_NUM_def
  VPN_DEFAULT_POSTPONEMENT_WINDOW_MS_def VPN_DEFAULT_RECOVERY_BACKOFF_RATE_def
  VPN_DEFAULT_RECOVERY_ATTEMPTS_def DEFAULT_LOCATION_PING_TIMEOUT_MS_def

definition empty_config :: vpn_upstream_config where
  "empty_config = \<lparr>main_protocol = VPN_UP_HTTP2,
     location = \<lparr>location_id = None, endpoints = [], relays = []\<rparr>,
     location_ping_timeout_ms = 0, timeout_ms = 0, health_check_timeout_ms = 0,
     username = None, password = None,
     recovery_cfg = \<lparr>backoff_rate = 0, location_update_period_ms = 0, rs_attempts = 0\<rparr>,
     anti_dpi = False\<rparr>"

text \<open>
  \<open>Vpn::update_upstream_config\<close>: the defaults that replace the zero settings, the health-check
  timeout capped by the timeout, the backoff rate never below one.
\<close>

definition update_upstream_config :: "vpn_upstream_config \<Rightarrow> vpn_upstream_config" where
  "update_upstream_config cfg0 =
     (let cfg1 = (if location_ping_timeout_ms cfg0 = 0
                  then cfg0\<lparr>location_ping_timeout_ms := DEFAULT_LOCATION_PING_TIMEOUT_MS\<rparr> else cfg0);
          cfg2 = (if timeout_ms cfg1 = 0
                  then cfg1\<lparr>timeout_ms := VPN_DEFAULT_ENDPOINT_UPSTREAM_TIMEOUT_MS\<rparr> else cfg1);
          cfg3 = (if health_check_timeout_ms cfg2 = 0
                  then cfg2\<lparr>health_check_timeout_ms := VPN_DEFAULT_HEALTH_CHECK_TIMEOUT_MS\<rparr> else cfg2);
          cfg4 = cfg3\<lparr>health_check_timeout_ms := min (health_check_timeout_ms cfg3) (timeout_ms cfg3)\<rparr>;
          r0 = recovery_cfg cfg4;
          r1 = (if backoff_rate r0 < 1
                then r0\<lparr>backoff_rate := VPN_DEFAULT_RECOVERY_BACKOFF_RATE\<rparr> else r0);
          r2 = (if location_update_period_ms r1 = 0
                then r1\<lparr>location_update_period_ms := VPN_DEFAULT_RECOVERY_LOCATION_UPDATE_PERIOD_MS\<rparr>
                else r1);
          r3 = (if rs_attempts r2 = 0 then r2\<lparr>rs_attempts := VPN_DEFAULT_RECOVERY_ATTEMPTS\<rparr> else r2)
      in cfg4\<lparr>recovery_cfg := r3\<rparr>)"

text \<open>A configuration as the rest of the code relies on it.\<close>

definition config_ok :: "vpn_upstream_config \<Rightarrow> bool" where
  "config_ok cfg \<longleftrightarrow>
     location_ping_timeout_ms cfg \<noteq> 0 \<and> timeout_ms cfg \<noteq> 0 \<and>
     health_check_timeout_ms cfg \<noteq> 0 \<and> health_check_timeout_ms cfg \<le> timeout_ms cfg \<and>
     1 \<le> backoff_rate (recovery_cfg cfg) \<and>
     location_update_period_ms (recovery_cfg cfg) \<noteq> 0 \<and> rs_attempts (recovery_cfg cfg) \<noteq> 0"

section \<open>Single-precision products\<close>

text \<open>
  \<open>Millis * float\<close> is a product in single precision. For a value of at least one, rounding to
  single precision keeps 24 significant bits, ties to even; \<open>std::chrono::round\<close> then rounds to
  the nearest integer, ties to even.
\<close>

definition round_half_even :: "rat \<Rightarrow> int" where
  "round_half_even q =
     (let t = \<lfloor>q\<rfloor>; diff = q - of_int t in
      if diff < 1/2 then t
      else if 1/2 < diff then t + 1
      else if even t then t else t + 1)"

definition round_single :: "rat \<Rightarrow> rat" where
  "round_single q =
     (let e = floorlog 2 (nat \<lfloor>q\<rfloor>)
      in if 24 \<le> e then of_int (round_half_even (q / 2 ^ (e - 24))) * 2 ^ (e - 24)
         else of_int (round_half_even (q * 2 ^ (24 - e))) / 2 ^ (24 - e))"

definition scale_millis :: "millis \<Rightarrow> rat \<Rightarrow> millis" where
  "scale_millis m rate = round_half_even (round_single (round_single (of_int m) * rate))"

section \<open>Endpoint comparison\<close>

text \<open>
  \<open>strcmp\<close> of a null pointer is undefined: \<open>None\<close>. A comparison that the short-circuit
  operators do not reach is not evaluated.
\<close>

fun c_str_equals :: "string option \<Rightarrow> string option \<Rightarrow> bool option" where
  "c_str_equals None None = Some True"
| "c_str_equals (Some a) (Some b) = Some (a = b)"
| "c_str_equals _ _ = None"

definition vpn_endpoint_equals :: "vpn_endpoint \<Rightarrow> vpn_endpoint \<Rightarrow> bool option" where
  "vpn_endpoint_equals lh rh =
     (if ep_address lh \<noteq> ep_address rh then Some False
      else case c_str_equals (ep_name lh) (ep_name rh) of
             None \<Rightarrow> None
           | Some False \<Rightarrow> Some False
           | Some True \<Rightarrow> c_str_equals (remote_id lh) (remote_id rh))"

section \<open>Removal by swapping\<close>

text \<open>
  The loop of \<open>swap_remove_if\<close>: \<open>b\<close> is the position of \<open>begin\<close>, \<open>i\<close> that of the iterator.
  The result is the position returned and the array as the swaps leave it.
\<close>

function swap_loop :: "('a \<Rightarrow> bool) \<Rightarrow> nat \<Rightarrow> nat \<Rightarrow> 'a list \<Rightarrow> nat \<times> 'a list" where
  "swap_loop p b i xs =
     (if length xs \<le> i then (b, xs)
      else if \<not> p (xs ! i) then swap_loop p (b + 1) (i + 1) (xs[b := xs ! i, i := xs ! b])
      else swap_loop p b (i + 1) xs)"
  by pat_completeness auto

termination swap_loop
  by (relation "measure (\<lambda>(p, b, i, xs). length xs - i)") auto

declare swap_loop.simps [simp del]

fun find_if_index :: "('a \<Rightarrow> bool) \<Rightarrow> 'a list \<Rightarrow> nat" where
  "find_if_index p [] = 0"
| "find_if_index p (x # xs) = (if p x then 0 else Suc (find_if_index p xs))"

definition swap_remove_if :: "('a \<Rightarrow> bool) \<Rightarrow> 'a list \<Rightarrow> nat \<times> 'a list" where
  "swap_remove_if p xs =
     (let b = find_if_index p xs in
      if b \<noteq> length xs then swap_loop p b (b + 1) xs else (b, xs))"

section \<open>Connect requests\<close>

datatype vpn_connect_action =
  VPN_CA_DEFAULT | VPN_CA_FORCE_BYPASS | VPN_CA_FORCE_REDIRECT | VPN_CA_REJECT

datatype vpn_mode = VPN_MODE_GENERAL | VPN_MODE_SELECTIVE

datatype vpn_network_state = VPN_NS_CONNECTED | VPN_NS_NOT_CONNECTED

record connect_request_result =
  req_id :: u64
  action :: "vpn_connect_action option"
  appname :: string
  uid :: int

definition NON_ID :: u64 where
  "NON_ID = - 1"

section \<open>Events of a server-side upstream\<close>

datatype tunnel_address = TA_Sock sock_addr | TA_Name string u16

record addr_pair =
  src :: sock_addr
  dst :: tunnel_address

record icmp_echo_request =
  req_peer :: sock_addr
  echo_id :: u16
  req_seqno :: u16
  req_ttl :: u8
  req_data_size :: u16

record icmp_echo_reply =
  rep_peer :: sock_addr
  rep_id :: u16
  rep_seqno :: u16
  rep_type :: u8
  rep_code :: u8

datatype server_event =
    SERVER_EVENT_SESSION_OPENED
  | SERVER_EVENT_SESSION_CLOSED
  | SERVER_EVENT_CONNECTION_OPENED u64
  | SERVER_EVENT_CONNECTION_CLOSED u64
  | SERVER_EVENT_READ u64 bytes
  | SERVER_EVENT_DATA_SENT u64 nat
  | SERVER_EVENT_HEALTH_CHECK_ERROR vpn_error
  | SERVER_EVENT_GET_AVAILABLE_TO_SEND u64
  | SERVER_EVENT_ERROR u64 vpn_error
  | SERVER_EVENT_ECHO_REPLY icmp_echo_reply

section \<open>Faults\<close>

text \<open>
  What the C++ code would do outside its contract: a dereferenced null pointer or empty optional,
  or a failed assertion. The model records the fault and goes on as the code compiled without
  assertions would.
\<close>

datatype fault = NullDeref string | AssertFailed string

section \<open>Facts\<close>

lemma update_upstream_config_location [simp]:
  "location (update_upstream_config cfg) = location cfg"
  by (simp add: update_upstream_config_def Let_def)

lemma default_backoff_ge_1: "1 \<le> VPN_DEFAULT_RECOVERY_BACKOFF_RATE"
  by (simp add: VPN_DEFAULT_RECOVERY_BACKOFF_RATE_def)

lemma min_word_nonzero: "a \<noteq> 0 \<Longrightarrow> b \<noteq> 0 \<Longrightarrow> min a b \<noteq> (0 :: u32)"
  by (simp add: min_def)

lemma config_ok_update: "config_ok (update_upstream_config cfg)"
  unfolding config_ok_def update_upstream_config_def Let_def
  using default_backoff_ge_1 by (auto simp: default_defs min_def)

text \<open>Rounding never falls below an integer that the value reaches.\<close>

lemma round_half_even_ge: "of_int n \<le> q \<Longrightarrow> n \<le> round_half_even q"
proof -
  assume "of_int n \<le> q"
  then have "n \<le> \<lfloor>q\<rfloor>" by (simp add: le_floor_iff)
  then show ?thesis by (simp add: round_half_even_def Let_def)
qed

lemma round_half_even_of_int [simp]: "round_half_even (of_int n) = n"
  by (simp add: round_half_even_def)

lemma round_half_even_le: "q \<le> of_int n \<Longrightarrow> round_half_even q \<le> n"
proof -
  assume q: "q \<le> of_int n"
  show ?thesis
  proof (cases "q = of_int n")
    case True
    then show ?thesis by simp
  next
    case False
    with q have "\<lfloor>q\<rfloor> < n" by (simp add: floor_less_iff)
    then show ?thesis by (auto simp: round_half_even_def Let_def)
  qed
qed

lemma floorlog_bounds:
  assumes "1 \<le> (q :: rat)"
  shows "2 ^ (floorlog 2 (nat \<lfloor>q\<rfloor>) - 1) \<le> q"
proof -
  let ?e = "floorlog 2 (nat \<lfloor>q\<rfloor>)"
  have "0 < nat \<lfloor>q\<rfloor>" using assms by (simp add: le_floor_iff)
  then have "2 ^ (?e - 1) \<le> nat \<lfloor>q\<rfloor>"
    using floorlog_bounds [of "nat \<lfloor>q\<rfloor>" 2] by simp
  then have "2 ^ (?e - 1) \<le> \<lfloor>q\<rfloor>" using \<open>0 < nat \<lfloor>q\<rfloor>\<close>
    by (metis nat_2 nat_int nat_le_eq_zle of_nat_numeral of_nat_power order_less_imp_le zero_less_nat_eq)
  then show ?thesis by (simp add: le_floor_iff)
qed

lemma round_single_ge:
  assumes "of_int m \<le> q" and "1 \<le> q" and "m \<le> 2 ^ 24"
  shows "of_int m \<le> round_single q"
proof -
  let ?e = "floorlog 2 (nat \<lfloor>q\<rfloor>)"
  show ?thesis
  proof (cases "24 < ?e")
    case True
    have split: "?e - 1 = 23 + (?e - 24)" using True by simp
    have "(2 :: rat) ^ (?e - 1) = 2 ^ 23 * 2 ^ (?e - 24)"
      unfolding split by (simp only: power_add)
    then have "of_int (2 ^ 23) \<le> q / 2 ^ (?e - 24)"
      using floorlog_bounds [OF assms(2)] by (simp add: pos_le_divide_eq)
    then have "2 ^ 23 \<le> round_half_even (q / 2 ^ (?e - 24))"
      by (rule round_half_even_ge)
    then have "(2 :: rat) ^ 23 \<le> of_int (round_half_even (q / 2 ^ (?e - 24)))"
      by (metis of_int_le_iff of_int_numeral of_int_power)
    then have "(2 :: rat) ^ 23 * 2 ^ (?e - 24) \<le> round_single q"
      using True by (simp add: round_single_def Let_def)
    moreover have "(2 :: rat) ^ 24 \<le> 2 ^ 23 * 2 ^ (?e - 24)"
      using True power_increasing [of 1 "?e - 24" "2 :: rat"] by simp
    moreover have "of_int m \<le> (2 :: rat) ^ 24"
      using assms(3) by (metis of_int_le_iff of_int_numeral of_int_power)
    ultimately show ?thesis by linarith
  next
    case False
    have "of_int (m * 2 ^ (24 - ?e)) \<le> q * 2 ^ (24 - ?e)"
      using assms(1) by simp
    then have "m * 2 ^ (24 - ?e) \<le> round_half_even (q * 2 ^ (24 - ?e))"
      by (rule round_half_even_ge)
    then have "of_int (m * 2 ^ (24 - ?e)) \<le> (of_int (round_half_even (q * 2 ^ (24 - ?e))) :: rat)"
      by (simp only: of_int_le_iff)
    then show ?thesis using False
      by (auto simp: round_single_def Let_def pos_le_divide_eq)
  qed
qed

lemma scale_millis_ge:
  assumes "1 \<le> m" and "m \<le> 2 ^ 24" and "1 \<le> rate"
  shows "m \<le> scale_millis m rate"
proof -
  have r1: "of_int m \<le> round_single (of_int m)"
    using assms by (intro round_single_ge) auto
  have "of_int m \<le> round_single (of_int m) * rate"
    using r1 assms mult_mono [of "of_int m" "round_single (of_int m)" 1 rate] by simp
  moreover have "1 \<le> round_single (of_int m) * rate"
    using assms(1) calculation by (meson of_int_1_le_iff order_trans)
  ultimately have "of_int m \<le> round_single (round_single (of_int m) * rate)"
    using assms by (intro round_single_ge) auto
  then show ?thesis
    unfolding scale_millis_def by (rule round_half_even_ge)
qed

lemma swap_loop_spec:
  assumes "b < i" and "i \<le> length xs" and "swap_loop p b i xs = (n, ys)"
  shows "take n ys = take b xs @ filter (\<lambda>x. \<not> p x) (drop i xs) \<and> mset ys = mset xs \<and> n \<le> length ys"
  using assms
proof (induction p b i xs arbitrary: n ys rule: swap_loop.induct)
  case (1 p b i xs)
  show ?case
  proof (cases "i < length xs")
    case False
    then show ?thesis using "1.prems" by (simp add: swap_loop.simps)
  next
    case True
    then have drop: "drop i xs = xs ! i # drop (Suc i) xs" by (simp add: Cons_nth_drop_Suc)
    show ?thesis
    proof (cases "p (xs ! i)")
      case p: True
      then show ?thesis using "1.prems" "1.IH"(2) True drop by (simp add: swap_loop.simps [of p b i])
    next
      case p: False
      let ?xs = "xs[b := xs ! i, i := xs ! b]"
      have "swap_loop p (b + 1) (i + 1) ?xs = (n, ys)"
        using "1.prems" True p by (simp add: swap_loop.simps [of p b i])
      then have "take n ys = take (b + 1) ?xs @ filter (\<lambda>x. \<not> p x) (drop (i + 1) ?xs)
          \<and> mset ys = mset ?xs \<and> n \<le> length ys"
        using "1.IH"(1) True p "1.prems" by simp
      moreover have "take (b + 1) ?xs = take b xs @ [xs ! i]"
        using "1.prems"(1) True by (simp add: take_Suc_conv_app_nth)
      moreover have "mset ?xs = mset xs"
        using "1.prems"(1) True by (simp add: mset_swap)
      ultimately show ?thesis using drop p "1.prems"(1) by simp
    qed
  qed
qed

lemma find_if_index_le: "find_if_index p xs \<le> length xs"
  by (induction xs) auto

lemma find_if_index_filter:
  "take (find_if_index p xs) xs @ filter (\<lambda>x. \<not> p x) (drop (find_if_index p xs + 1) xs) = filter (\<lambda>x. \<not> p x) xs"
  by (induction xs) auto

lemma swap_remove_if_spec:
  assumes "swap_remove_if p xs = (n, ys)"
  shows "take n ys = filter (\<lambda>x. \<not> p x) xs" and "mset ys = mset xs" and "n \<le> length ys"
proof -
  let ?b = "find_if_index p xs"
  have "take n ys = filter (\<lambda>x. \<not> p x) xs \<and> mset ys = mset xs \<and> n \<le> length ys"
  proof (cases "?b = length xs")
    case True
    then show ?thesis using assms find_if_index_filter [of p xs]
      by (auto simp: swap_remove_if_def Let_def)
  next
    case False
    then have "?b < length xs" using find_if_index_le [of p xs] by simp
    then show ?thesis
      using assms swap_loop_spec [of ?b "?b + 1" xs p n ys] find_if_index_filter [of p xs]
      by (simp add: swap_remove_if_def Let_def)
  qed
  then show "take n ys = filter (\<lambda>x. \<not> p x) xs" "mset ys = mset xs" "n \<le> length ys" by auto
qed

end
