(* ===== verification/TT_Vpn_Client.thy ===== *)
theory TT_Vpn_Client
  imports TT_Fsm TT_Vpn_Types
begin

text \<open>
  The class \<open>VpnClient\<close> (\<open>core/src/vpn_client.cpp\<close>, \<open>core/include/vpn/internal/vpn_client.h\<close>):
  its own state machine over the states \<open>S_*\<close> and events \<open>E_*\<close>, the tasks it defers to the event
  loop, and its operations. What the client asks of the tunnel, the listeners, the upstreams and the
  connector is a log of effects, and what they answer is the record \<open>client_env\<close>, so every statement
  holds for every answer. Events raised to the client's owner are queued in \<open>raised\<close>: the code calls
  the owner's handler as the last step of a transition, and the owner takes the queue right there.

  An operation that raises an event and goes on afterwards is modelled by two functions, the part up
  to the event and the rest.
\<close>

section \<open>Data\<close>

definition S_DISCONNECTED :: fsm_state where "S_DISCONNECTED = 0"

definition S_CONNECTING :: fsm_state where "S_CONNECTING = 1"

definition S_CONNECTED :: fsm_state where "S_CONNECTED = 2"

definition S_DISCONNECTING :: fsm_state where "S_DISCONNECTING = 3"

definition E_RUN_CONNECT :: fsm_event where "E_RUN_CONNECT = 0"

definition E_DISCONNECT :: fsm_event where "E_DISCONNECT = 1"

definition E_DEFERRED_DISCONNECT :: fsm_event where "E_DEFERRED_DISCONNECT = 2"

definition E_RUN_PREPARATION_FAIL :: fsm_event where "E_RUN_PREPARATION_FAIL = 3"

definition E_SESSION_OPENED :: fsm_event where "E_SESSION_OPENED = 4"

definition E_SESSION_CLOSED :: fsm_event where "E_SESSION_CLOSED = 5"

definition E_SESSION_ERROR :: fsm_event where "E_SESSION_ERROR = 6"

definition E_HEALTH_CHECK_ERROR :: fsm_event where "E_HEALTH_CHECK_ERROR = 7"

lemmas client_consts = S_DISCONNECTED_def S_CONNECTING_def S_CONNECTED_def S_DISCONNECTING_def
  E_RUN_CONNECT_def E_DISCONNECT_def E_DEFERRED_DISCONNECT_def E_RUN_PREPARATION_FAIL_def
  E_SESSION_OPENED_def E_SESSION_CLOSED_def E_SESSION_ERROR_def E_HEALTH_CHECK_ERROR_def
  ANY_SOURCE_STATE_def SAME_TARGET_STATE_def

lemma client_state_neqs [simp]:
  "S_DISCONNECTED \<noteq> S_CONNECTING"
  "S_DISCONNECTED \<noteq> S_CONNECTED"
  "S_DISCONNECTED \<noteq> S_DISCONNECTING"
  "S_DISCONNECTED \<noteq> ANY_SOURCE_STATE"
  "S_DISCONNECTED \<noteq> SAME_TARGET_STATE"
  "S_CONNECTING \<noteq> S_DISCONNECTED"
  "S_CONNECTING \<noteq> S_CONNECTED"
  "S_CONNECTING \<noteq> S_DISCONNECTING"
  "S_CONNECTING \<noteq> ANY_SOURCE_STATE"
  "S_CONNECTING \<noteq> SAME_TARGET_STATE"
  "S_CONNECTED \<noteq> S_DISCONNECTED"
  "S_CONNECTED \<noteq> S_CONNECTING"
  "S_CONNECTED \<noteq> S_DISCONNECTING"
  "S_CONNECTED \<noteq> ANY_SOURCE_STATE"
  "S_CONNECTED \<noteq> SAME_TARGET_STATE"
  "S_DISCONNECTING \<noteq> S_DISCONNECTED"
  "S_DISCONNECTING \<noteq> S_CONNECTING"
  "S_DISCONNECTING \<noteq> S_CONNECTED"
  "S_DISCONNECTING \<noteq> ANY_SOURCE_STATE"
  "S_DISCONNECTING \<noteq> SAME_TARGET_STATE"
  "ANY_SOURCE_STATE \<noteq> S_DISCONNECTED"
  "ANY_SOURCE_STATE \<noteq> S_CONNECTING"
  "ANY_SOURCE_STATE \<noteq> S_CONNECTED"
  "ANY_SOURCE_STATE \<noteq> S_DISCONNECTING"
  "ANY_SOURCE_STATE \<noteq> SAME_TARGET_STATE"
  "SAME_TARGET_STATE \<noteq> S_DISCONNECTED"
  "SAME_TARGET_STATE \<noteq> S_CONNECTING"
  "SAME_TARGET_STATE \<noteq> S_CONNECTED"
  "SAME_TARGET_STATE \<noteq> S_DISCONNECTING"
  "SAME_TARGET_STATE \<noteq> ANY_SOURCE_STATE"
  by (simp_all add: client_consts)

lemma client_event_neqs [simp]:
  "E_RUN_CONNECT \<noteq> E_DISCONNECT"
  "E_RUN_CONNECT \<noteq> E_DEFERRED_DISCONNECT"
  "E_RUN_CONNECT \<noteq> E_RUN_PREPARATION_FAIL"
  "E_RUN_CONNECT \<noteq> E_SESSION_OPENED"
  "E_RUN_CONNECT \<noteq> E_SESSION_CLOSED"
  "E_RUN_CONNECT \<noteq> E_SESSION_ERROR"
  "E_RUN_CONNECT \<noteq> E_HEALTH_CHECK_ERROR"
  "E_DISCONNECT \<noteq> E_RUN_CONNECT"
  "E_DISCONNECT \<noteq> E_DEFERRED_DISCONNECT"
  "E_DISCONNECT \<noteq> E_RUN_PREPARATION_FAIL"
  "E_DISCONNECT \<noteq> E_SESSION_OPENED"
  "E_DISCONNECT \<noteq> E_SESSION_CLOSED"
  "E_DISCONNECT \<noteq> E_SESSION_ERROR"
  "E_DISCONNECT \<noteq> E_HEALTH_CHECK_ERROR"
  "E_DEFERRED_DISCONNECT \<noteq> E_RUN_CONNECT"
  "E_DEFERRED_DISCONNECT \<noteq> E_DISCONNECT"
  "E_DEFERRED_DISCONNECT \<noteq> E_RUN_PREPARATION_FAIL"
  "E_DEFERRED_DISCONNECT \<noteq> E_SESSION_OPENED"
  "E_DEFERRED_DISCONNECT \<noteq> E_SESSION_CLOSED"
  "E_DEFERRED_DISCONNECT \<noteq> E_SESSION_ERROR"
  "E_DEFERRED_DISCONNECT \<noteq> E_HEALTH_CHECK_ERROR"
  "E_RUN_PREPARATION_FAIL \<noteq> E_RUN_CONNECT"
  "E_RUN_PREPARATION_FAIL \<noteq> E_DISCONNECT"
  "E_RUN_PREPARATION_FAIL \<noteq> E_DEFERRED_DISCONNECT"
  "E_RUN_PREPARATION_FAIL \<noteq> E_SESSION_OPENED"
  "E_RUN_PREPARATION_FAIL \<noteq> E_SESSION_CLOSED"
  "E_RUN_PREPARATION_FAIL \<noteq> E_SESSION_ERROR"
  "E_RUN_PREPARATION_FAIL \<noteq> E_HEALTH_CHECK_ERROR"
  "E_SESSION_OPENED \<noteq> E_RUN_CONNECT"
  "E_SESSION_OPENED \<noteq> E_DISCONNECT"
  "E_SESSION_OPENED \<noteq> E_DEFERRED_DISCONNECT"
  "E_SESSION_OPENED \<noteq> E_RUN_PREPARATION_FAIL"
  "E_SESSION_OPENED \<noteq> E_SESSION_CLOSED"
  "E_SESSION_OPENED \<noteq> E_SESSION_ERROR"
  "E_SESSION_OPENED \<noteq> E_HEALTH_CHECK_ERROR"
  "E_SESSION_CLOSED \<noteq> E_RUN_CONNECT"
  "E_SESSION_CLOSED \<noteq> E_DISCONNECT"
  "E_SESSION_CLOSED \<noteq> E_DEFERRED_DISCONNECT"
  "E_SESSION_CLOSED \<noteq> E_RUN_PREPARATION_FAIL"
  "E_SESSION_CLOSED \<noteq> E_SESSION_OPENED"
  "E_SESSION_CLOSED \<noteq> E_SESSION_ERROR"
  "E_SESSION_CLOSED \<noteq> E_HEALTH_CHECK_ERROR"
  "E_SESSION_ERROR \<noteq> E_RUN_CONNECT"
  "E_SESSION_ERROR \<noteq> E_DISCONNECT"
  "E_SESSION_ERROR \<noteq> E_DEFERRED_DISCONNECT"
  "E_SESSION_ERROR \<noteq> E_RUN_PREPARATION_FAIL"
  "E_SESSION_ERROR \<noteq> E_SESSION_OPENED"
  "E_SESSION_ERROR \<noteq> E_SESSION_CLOSED"
  "E_SESSION_ERROR \<noteq> E_HEALTH_CHECK_ERROR"
  "E_HEALTH_CHECK_ERROR \<noteq> E_RUN_CONNECT"
  "E_HEALTH_CHECK_ERROR \<noteq> E_DISCONNECT"
  "E_HEALTH_CHECK_ERROR \<noteq> E_DEFERRED_DISCONNECT"
  "E_HEALTH_CHECK_ERROR \<noteq> E_RUN_PREPARATION_FAIL"
  "E_HEALTH_CHECK_ERROR \<noteq> E_SESSION_OPENED"
  "E_HEALTH_CHECK_ERROR \<noteq> E_SESSION_CLOSED"
  "E_HEALTH_CHECK_ERROR \<noteq> E_SESSION_ERROR"
  by (simp_all add: client_consts)

datatype client_event =
    EVENT_CONNECTED
  | EVENT_DISCONNECTED
  | EVENT_ERROR vpn_error
  | EVENT_DNS_UPSTREAM_UNAVAILABLE

text \<open>The entries of \<open>deferred_tasks\<close>, by the function that the task runs.\<close>

datatype client_task = ConnectorFinalizer | HealthCheckTask | DeferredDisconnect

datatype client_effect =
    ConnectorConnect "millis option"
  | ConnectorDisconnect
  | ConnectorSleep
  | ConnectorWake
  | UpstreamCloseSession
  | UpstreamDeinit
  | UpstreamHealthCheck
  | UpstreamSleep
  | UpstreamWake
  | BypassOpenSession
  | BypassCloseSession
  | BypassDeinit
  | BypassUpdateIpAvailability
  | ListenerDeinit
  | DnsListenerDeinit
  | TunnelResetConnections int
  | TunnelResetDnsListenerConnections
  | TunnelBeforeEndpointDisconnect
  | TunnelAfterEndpointDisconnect
  | TunnelUpstreamEvent server_event
  | TunnelBypassEvent server_event
  | TunnelExclusionsUpdated
  | TunnelNetworkChange
  | TunnelSleep
  | TunnelWake
  | TunnelDeinit
  | TunnelCompleteRequest u64 "vpn_connect_action option"
  | TunnelResetConnection u64
  | ListenerReject u64
  | DomainFilterUpdate vpn_mode string
  | CleanUpBufferFiles

datatype init_result = INIT_SUCCESS | INIT_ADDR_IN_USE | INIT_FAILURE

text \<open>What the environment of the client answers during one operation.\<close>

record client_env =
  connector_result :: vpn_error
  bypass_session_started :: bool
  listener_init :: init_result
  rand_bytes_ok :: bool
  dns_listener_init_ok :: bool
  dns_handler_params_ok :: bool
  dns_resolve_started :: bool

record endpoint_connection_config =
  ecc_main_protocol :: vpn_upstream_protocol
  fallback_enabled :: bool
  ecc_endpoint :: vpn_endpoint
  ecc_timeout :: u32
  ecc_health_check_timeout :: u32
  ecc_username :: "string option"
  ecc_password :: "string option"
  ip_v4_available :: bool
  ip_v6_available :: bool
  ecc_anti_dpi :: bool

record listener_config =
  lc_timeout_ms :: u32
  dns_upstreams :: "string list"

record vpn_client =
  client_fsm :: fsm
  tunnel :: bool
  listener_cfg :: listener_config
  connection_config :: "endpoint_connection_config option"
  kill_switch_on :: bool
  endpoint_upstream :: bool
  bypass_upstream :: bool
  client_listener :: bool
  dns_proxy_listener :: bool
  dns_health_check_id :: bool
  deferred_tasks :: "client_task list"
  endpoint_connector :: bool
  tmp_files_base_path :: bool
  client_pending_error :: "vpn_error option"
  bypass_upstream_session_opened :: bool
  in_disconnect :: bool
  exclusions_mode :: vpn_mode
  quic_connector :: bool
  tcp_socket :: bool
  raised :: "client_event list"
  client_out :: "client_effect list"
  client_faults :: "fault list"

text \<open>The data pointer of a transition: null, a \<open>VpnError *\<close>, or a timeout.\<close>

datatype client_data = CNull | CError vpn_error | CTimeout "millis option"

definition VPN_DEFAULT_TCP_TIMEOUT_MS :: u32 where
  "VPN_DEFAULT_TCP_TIMEOUT_MS = 604800 * 1000"

definition c_emit :: "client_effect \<Rightarrow> vpn_client \<Rightarrow> vpn_client" where
  "c_emit x c = c\<lparr>client_out := client_out c @ [x]\<rparr>"

definition c_raise :: "client_event \<Rightarrow> vpn_client \<Rightarrow> vpn_client" where
  "c_raise e c = c\<lparr>raised := raised c @ [e]\<rparr>"

definition c_fault :: "fault \<Rightarrow> vpn_client \<Rightarrow> vpn_client" where
  "c_fault x c = c\<lparr>client_faults := client_faults c @ [x]\<rparr>"

definition c_tunnel :: "client_effect \<Rightarrow> vpn_client \<Rightarrow> vpn_client" where
  "c_tunnel x c = (if tunnel c then c_emit x c else c_fault (NullDeref ''tunnel'') c)"

definition c_defer :: "client_task \<Rightarrow> vpn_client \<Rightarrow> vpn_client" where
  "c_defer t c = c\<lparr>deferred_tasks := deferred_tasks c @ [t]\<rparr>"

lemmas c_basic = c_emit_def c_raise_def c_fault_def c_tunnel_def c_defer_def

section \<open>Actions of the state machine\<close>

definition run_connect :: "fsm_state \<Rightarrow> vpn_client \<Rightarrow> client_env \<times> client_data \<Rightarrow> vpn_client" where
  "run_connect st c ed =
     (let (env, d) = ed;
          timeout = (case d of CTimeout t \<Rightarrow> t | _ \<Rightarrow> None);
          c1 = (if endpoint_connector c then c_emit (ConnectorConnect timeout) c
                else c_fault (NullDeref ''endpoint_connector'') c);
          e = connector_result env
      in if ec e \<noteq> VPN_EC_NOERROR then c1\<lparr>client_pending_error := Some e\<rparr> else c1)"

definition raise_connected :: "fsm_state \<Rightarrow> vpn_client \<Rightarrow> client_env \<times> client_data \<Rightarrow> vpn_client" where
  "raise_connected st c ed = c_raise EVENT_CONNECTED c"

definition raise_disconnected :: "fsm_state \<Rightarrow> vpn_client \<Rightarrow> client_env \<times> client_data \<Rightarrow> vpn_client" where
  "raise_disconnected st c ed =
     (case client_pending_error c of
        None \<Rightarrow> c_raise EVENT_DISCONNECTED c
      | Some e \<Rightarrow> (c_raise (EVENT_ERROR e) c)\<lparr>client_pending_error := None\<rparr>)"

definition set_pending_error :: "client_data \<Rightarrow> vpn_client \<Rightarrow> vpn_client" where
  "set_pending_error d c =
     (case d of
        CError e \<Rightarrow>
          if client_pending_error c = None \<and> ec e \<noteq> VPN_EC_NOERROR
          then c\<lparr>client_pending_error := Some e\<rparr> else c
      | _ \<Rightarrow> c)"

definition run_disconnect :: "fsm_state \<Rightarrow> vpn_client \<Rightarrow> client_env \<times> client_data \<Rightarrow> vpn_client" where
  "run_disconnect st c ed =
     (let c1 = (if dns_proxy_listener c then c_tunnel TunnelResetDnsListenerConnections c else c);
          c2 = c_tunnel TunnelBeforeEndpointDisconnect c1;
          c3 = set_pending_error (snd ed) c2;
          c4 = c3\<lparr>deferred_tasks := []\<rparr>;
          c5 = (if endpoint_connector c4
                then (c_emit ConnectorDisconnect c4)\<lparr>endpoint_connector := False\<rparr> else c4);
          c6 = (if endpoint_upstream c5 then c_emit UpstreamCloseSession c5 else c5);
          c7 = c_tunnel TunnelAfterEndpointDisconnect c6;
          c8 = (if dns_proxy_listener c7
                then (c_emit DnsListenerDeinit c7)\<lparr>dns_proxy_listener := False\<rparr> else c7)
      in c8\<lparr>tcp_socket := False, quic_connector := False\<rparr>)"

definition submit_disconnect :: "fsm_state \<Rightarrow> vpn_client \<Rightarrow> client_env \<times> client_data \<Rightarrow> vpn_client" where
  "submit_disconnect st c ed = c_defer DeferredDisconnect (set_pending_error (snd ed) c)"

definition client_row ::
  "fsm_state \<Rightarrow> fsm_event \<Rightarrow>
     (fsm_state \<Rightarrow> vpn_client \<Rightarrow> client_env \<times> client_data \<Rightarrow> vpn_client) option \<Rightarrow> fsm_state \<Rightarrow>
     (fsm_state \<Rightarrow> vpn_client \<Rightarrow> client_env \<times> client_data \<Rightarrow> vpn_client) option \<Rightarrow>
     (vpn_client, client_env \<times> client_data) fsm_entry" where
  "client_row s e bef t after =
     \<lparr>src_state = s, event = e, condition = None, before_transition = bef,
      target_state = t, after_transition = after\<rparr>"

definition client_table :: "(vpn_client, client_env \<times> client_data) fsm_entry list" where
  "client_table =
    [client_row S_DISCONNECTED E_RUN_CONNECT (Some run_connect) S_CONNECTING None,
     client_row S_DISCONNECTED E_SESSION_CLOSED None S_DISCONNECTED (Some raise_disconnected),
     client_row S_DISCONNECTED E_DISCONNECT None S_DISCONNECTED None,

     client_row S_CONNECTING E_SESSION_OPENED None S_CONNECTED (Some raise_connected),
     client_row S_CONNECTING E_SESSION_CLOSED None S_DISCONNECTED (Some raise_disconnected),

     client_row S_CONNECTED E_SESSION_CLOSED None S_DISCONNECTED (Some raise_disconnected),
     client_row S_CONNECTED E_SESSION_ERROR (Some submit_disconnect) S_DISCONNECTING None,
     client_row S_CONNECTED E_RUN_PREPARATION_FAIL (Some submit_disconnect) S_DISCONNECTING None,
     client_row S_CONNECTED E_HEALTH_CHECK_ERROR (Some submit_disconnect) S_DISCONNECTING None,

     client_row S_DISCONNECTING E_SESSION_CLOSED None S_DISCONNECTED (Some raise_disconnected),
     client_row S_DISCONNECTING E_DEFERRED_DISCONNECT (Some run_disconnect) S_DISCONNECTED (Some raise_disconnected),

     client_row ANY_SOURCE_STATE E_DISCONNECT (Some run_disconnect) S_DISCONNECTED None]"

definition client_params :: "(vpn_client, client_env \<times> client_data) fsm_params" where
  "client_params = \<lparr>initial_state = S_DISCONNECTED, table = client_table\<rparr>"

definition client_transition :: "fsm_event \<Rightarrow> client_env \<Rightarrow> client_data \<Rightarrow> vpn_client \<Rightarrow> vpn_client" where
  "client_transition ev env d c =
     (let (f, c') = perform_transition client_params ev (env, d) (client_fsm c, c)
      in c'\<lparr>client_fsm := f\<rparr>)"

definition client_state_of :: "vpn_client \<Rightarrow> fsm_state" where
  "client_state_of c = get_state (client_fsm c)"

section \<open>Operations\<close>

definition client_disconnect :: "client_env \<Rightarrow> vpn_client \<Rightarrow> vpn_client" where
  "client_disconnect env c =
     (client_transition E_DISCONNECT env CNull (c\<lparr>in_disconnect := True\<rparr>))\<lparr>in_disconnect := False\<rparr>"

text \<open>\<open>static client_connect\<close>: starts the connector and takes the error out of the client.\<close>

definition start_connector :: "millis option \<Rightarrow> client_env \<Rightarrow> vpn_client \<Rightarrow> vpn_error \<times> vpn_client" where
  "start_connector timeout env c =
     (let c1 = client_transition E_RUN_CONNECT env (CTimeout timeout) c
      in (case client_pending_error c1 of None \<Rightarrow> no_error | Some e \<Rightarrow> e,
          c1\<lparr>client_pending_error := None\<rparr>))"

definition connect_fail :: "vpn_error \<Rightarrow> client_env \<Rightarrow> vpn_client \<Rightarrow> vpn_error \<times> vpn_client" where
  "connect_fail e env c =
     (VpnError (if ec e = 0 then VPN_EC_ERROR else ec e)
        (if etext e = [] then ''Internal error'' else etext e),
      client_disconnect env c)"

definition client_connect ::
  "endpoint_connection_config \<Rightarrow> millis option \<Rightarrow> client_env \<Rightarrow> vpn_client \<Rightarrow> vpn_error \<times> vpn_client" where
  "client_connect cfg timeout env c =
     (if client_state_of c \<noteq> S_DISCONNECTED then (VpnError VPN_EC_ERROR ''Invalid state'', c)
      else
        (let c1 = c\<lparr>connection_config := Some cfg\<rparr>;
             c2 = (if ecc_main_protocol cfg = VPN_UP_AUTO then c_fault (NullDeref ''main_upstream'') c1
                   else c1\<lparr>endpoint_connector := True\<rparr>);
             (e, c3) = start_connector timeout env c2
         in if ec e \<noteq> VPN_EC_NOERROR then connect_fail e env c3
            else
              (let c4 = (if bypass_upstream c3 then c_emit BypassOpenSession c3
                         else c_fault (NullDeref ''bypass_upstream'') c3)
               in if \<not> bypass_session_started env
                  then connect_fail (VpnError (ec e) ''Failed to start upstream for direct connections'') env c4
                  else (e, c4))))"

definition start_dns_proxy_listener :: "client_env \<Rightarrow> vpn_client \<Rightarrow> vpn_error \<times> vpn_client" where
  "start_dns_proxy_listener env c =
     (if \<not> rand_bytes_ok env
      then (VpnError VPN_EC_ERROR ''Failed to generate DNS proxy listener password'', c)
      else if \<not> dns_listener_init_ok env
      then (VpnError VPN_EC_INVALID_SETTINGS ''Failed to initialize DNS proxy listener'',
            c\<lparr>dns_proxy_listener := True\<rparr>)
      else if \<not> dns_handler_params_ok env
      then (VpnError VPN_EC_ERROR ''Failed to initialize the DNS handler'', c\<lparr>dns_proxy_listener := True\<rparr>)
      else (no_error, c\<lparr>dns_proxy_listener := True\<rparr>))"

definition do_dns_upstream_health_check :: "client_env \<Rightarrow> vpn_client \<Rightarrow> bool \<times> vpn_client" where
  "do_dns_upstream_health_check env c =
     (dns_resolve_started env, c\<lparr>dns_health_check_id := dns_resolve_started env\<rparr>)"

definition listen_fail :: "vpn_error \<Rightarrow> client_env \<Rightarrow> vpn_client \<Rightarrow> vpn_error \<times> vpn_client" where
  "listen_fail e env c = (e, client_transition E_RUN_PREPARATION_FAIL env CNull c)"

definition listen_dns :: "client_env \<Rightarrow> vpn_client \<Rightarrow> vpn_error \<times> vpn_client" where
  "listen_dns env c =
     (if client_state_of c = S_CONNECTED \<and> dns_upstreams (listener_cfg c) \<noteq> [] \<and> \<not> dns_proxy_listener c
      then (let (e, c1) = start_dns_proxy_listener env c in
            if ec e \<noteq> VPN_EC_NOERROR then listen_fail e env c1
            else (let (ok, c2) = do_dns_upstream_health_check env c1 in
                  if \<not> ok
                  then listen_fail (VpnError (ec e) ''Failed to start DNS upstream health check'') env c2
                  else (no_error, c2)))
      else if \<not> dns_handler_params_ok env
      then listen_fail (VpnError VPN_EC_ERROR ''Failed to initialize the DNS handler'') env c
      else (no_error, c))"

definition client_listen :: "listener_config \<Rightarrow> client_env \<Rightarrow> vpn_client \<Rightarrow> vpn_error \<times> vpn_client" where
  "client_listen cfg env c =
     (let cfg1 = (if lc_timeout_ms cfg = 0 then cfg\<lparr>lc_timeout_ms := VPN_DEFAULT_TCP_TIMEOUT_MS\<rparr> else cfg);
          c1 = c\<lparr>client_listener := True, listener_cfg := cfg1\<rparr>
      in case listener_init env of
           INIT_ADDR_IN_USE \<Rightarrow>
             listen_fail (VpnError VPN_EC_ADDR_IN_USE
               ''Failed to initialize client listener: address in use'') env c1
         | INIT_FAILURE \<Rightarrow> listen_fail (VpnError VPN_EC_ERROR ''Failed to initialize client listener'') env c1
         | INIT_SUCCESS \<Rightarrow>
             (let c2 = (if tmp_files_base_path c1 then c_emit CleanUpBufferFiles c1 else c1);
                  c3 = (if client_state_of c2 = S_CONNECTED then c_tunnel TunnelExclusionsUpdated c2 else c2)
              in listen_dns env c3))"

definition client_finalize_disconnect :: "vpn_client \<Rightarrow> vpn_client" where
  "client_finalize_disconnect c =
     (let c1 = (if dns_proxy_listener c then (c_emit DnsListenerDeinit c)\<lparr>dns_proxy_listener := False\<rparr> else c);
          c2 = (if endpoint_upstream c1 then (c_emit UpstreamDeinit c1)\<lparr>endpoint_upstream := False\<rparr> else c1);
          c3 = (if bypass_upstream c2
                then (c_emit BypassCloseSession c2)\<lparr>bypass_upstream_session_opened := False\<rparr> else c2);
          c4 = (if client_listener c3 then (c_emit ListenerDeinit c3)\<lparr>client_listener := False\<rparr> else c3);
          c5 = (if tunnel c4 then (c_emit TunnelDeinit c4)\<lparr>tunnel := False\<rparr> else c4);
          c6 = c5\<lparr>endpoint_connector := False\<rparr>;
          c7 = (if tmp_files_base_path c6 then c_emit CleanUpBufferFiles c6 else c6)
      in c7\<lparr>deferred_tasks := [], client_fsm := fsm_reset client_params (client_fsm c7)\<rparr>)"

definition client_deinit :: "vpn_client \<Rightarrow> vpn_client" where
  "client_deinit c =
     (let c1 = c\<lparr>quic_connector := False, tcp_socket := False\<rparr>
      in if bypass_upstream c1 then (c_emit BypassDeinit c1)\<lparr>bypass_upstream := False\<rparr> else c1)"

definition client_update_exclusions :: "vpn_mode \<Rightarrow> string \<Rightarrow> vpn_client \<Rightarrow> vpn_client" where
  "client_update_exclusions mode exclusions c =
     (let c1 = c_emit (DomainFilterUpdate mode exclusions) (c\<lparr>exclusions_mode := mode\<rparr>)
      in if client_state_of c1 = S_CONNECTED then c_tunnel TunnelExclusionsUpdated c1 else c1)"

definition client_reset_connections :: "int \<Rightarrow> vpn_client \<Rightarrow> vpn_client" where
  "client_reset_connections n c =
     (if client_state_of c = S_CONNECTED then c_tunnel (TunnelResetConnections n) c else c)"

text \<open>\<open>submit_health_check\<close> with no delay.\<close>

definition client_do_health_check :: "vpn_client \<Rightarrow> vpn_client" where
  "client_do_health_check c = c_defer HealthCheckTask c"

definition drop_non_app_initiated_dns_queries :: "vpn_client \<Rightarrow> bool" where
  "drop_non_app_initiated_dns_queries c \<longleftrightarrow> kill_switch_on c \<and> client_state_of c \<noteq> S_CONNECTED"

definition may_send_icmp_request :: "vpn_client \<Rightarrow> bool" where
  "may_send_icmp_request c \<longleftrightarrow> client_state_of c = S_CONNECTED"

definition client_on_network_change :: "vpn_client \<Rightarrow> vpn_client" where
  "client_on_network_change c = (if tunnel c then c_emit TunnelNetworkChange c else c)"

definition client_update_bypass_ip_availability :: "vpn_client \<Rightarrow> vpn_client" where
  "client_update_bypass_ip_availability c =
     (if bypass_upstream c then c_emit BypassUpdateIpAvailability c
      else c_fault (NullDeref ''bypass_upstream'') c)"

text \<open>\<open>handle_sleep\<close> and \<open>handle_wake\<close> differ in the effects they have on the same branches.\<close>

definition client_power_event ::
  "client_effect \<Rightarrow> client_effect \<Rightarrow> client_effect \<Rightarrow> vpn_client \<Rightarrow> vpn_client" where
  "client_power_event on_connector on_upstream on_tunnel c =
     (if client_state_of c = S_CONNECTING \<and> \<not> endpoint_upstream c
      then (if endpoint_connector c then c_emit on_connector c else c)
      else if client_state_of c = S_CONNECTING \<or> client_state_of c = S_CONNECTED
      then c_tunnel on_tunnel
             (if endpoint_upstream c then c_emit on_upstream c
              else c_fault (NullDeref ''endpoint_upstream'') c)
      else c)"

definition client_handle_sleep :: "vpn_client \<Rightarrow> vpn_client" where
  "client_handle_sleep = client_power_event ConnectorSleep UpstreamSleep TunnelSleep"

definition client_handle_wake :: "vpn_client \<Rightarrow> vpn_client" where
  "client_handle_wake = client_power_event ConnectorWake UpstreamWake TunnelWake"

definition client_complete_connect_request :: "u64 \<Rightarrow> vpn_connect_action option \<Rightarrow> vpn_client \<Rightarrow> vpn_client" where
  "client_complete_connect_request i act = c_tunnel (TunnelCompleteRequest i act)"

definition client_reject_connect_request :: "u64 \<Rightarrow> vpn_client \<Rightarrow> vpn_client" where
  "client_reject_connect_request i c =
     (if client_listener c then c_emit (ListenerReject i) c else c_fault (NullDeref ''client_listener'') c)"

definition client_reset_connection :: "u64 \<Rightarrow> vpn_client \<Rightarrow> vpn_client" where
  "client_reset_connection i = c_tunnel (TunnelResetConnection i)"

section \<open>Handlers and deferred tasks\<close>

datatype connector_outcome = ConnectorError vpn_error | ConnectorUpstream

definition endpoint_connector_handler :: "connector_outcome \<Rightarrow> client_env \<Rightarrow> vpn_client \<Rightarrow> vpn_client" where
  "endpoint_connector_handler res env c =
     (let c1 = c\<lparr>client_pending_error := None\<rparr>;
          c2 = (case res of
                  ConnectorError e \<Rightarrow> c1\<lparr>client_pending_error := Some e\<rparr>
                | ConnectorUpstream \<Rightarrow>
                    (let c' = c1\<lparr>endpoint_upstream := True\<rparr> in
                     if dns_upstreams (listener_cfg c') \<noteq> [] \<and> \<not> dns_proxy_listener c'
                     then (let (e, c'') = start_dns_proxy_listener env c' in
                           if ec e \<noteq> VPN_EC_NOERROR then c''\<lparr>client_pending_error := Some e\<rparr> else c'')
                     else c'))
      in c_defer ConnectorFinalizer c2)"

text \<open>
  \<open>endpoint_connector_finalizer\<close>, after its task has been released: up to the transition that
  raises an event, with a flag that tells whether it goes on afterwards, and the rest.
\<close>

definition endpoint_connector_finalizer :: "client_env \<Rightarrow> vpn_client \<Rightarrow> bool \<times> vpn_client" where
  "endpoint_connector_finalizer env c =
     (let c1 = c\<lparr>endpoint_connector := False\<rparr> in
      if client_pending_error c1 \<noteq> None then (False, client_transition E_SESSION_CLOSED env CNull c1)
      else (True, client_transition E_SESSION_OPENED env CNull
                    (c_tunnel (TunnelUpstreamEvent SERVER_EVENT_SESSION_OPENED) c1)))"

definition endpoint_connector_finalizer_rest :: "client_env \<Rightarrow> vpn_client \<Rightarrow> vpn_client" where
  "endpoint_connector_finalizer_rest env c =
     (if client_listener c
      then (let c1 = c_tunnel TunnelExclusionsUpdated c in
            if dns_proxy_listener c1
            then (let (ok, c2) = do_dns_upstream_health_check env c1
                  in if \<not> ok then c_raise EVENT_DNS_UPSTREAM_UNAVAILABLE c2 else c2)
            else c1)
      else c)"

definition is_disconnected_event :: "server_event \<Rightarrow> bool" where
  "is_disconnected_event w =
     (case w of SERVER_EVENT_SESSION_CLOSED \<Rightarrow> True | SERVER_EVENT_ERROR i _ \<Rightarrow> i = NON_ID | _ \<Rightarrow> False)"

definition vpn_upstream_handler :: "server_event \<Rightarrow> client_env \<Rightarrow> vpn_client \<Rightarrow> vpn_client" where
  "vpn_upstream_handler w env c =
     (let c1 = (if endpoint_connector c then c_fault (AssertFailed ''endpoint_connector == nullptr'') c else c);
          c2 = (if is_disconnected_event w then c_tunnel TunnelBeforeEndpointDisconnect c1 else c1);
          c3 = c_tunnel (TunnelUpstreamEvent w) c2
      in case w of
           SERVER_EVENT_SESSION_OPENED \<Rightarrow> c_fault (AssertFailed ''0'') c3
         | SERVER_EVENT_SESSION_CLOSED \<Rightarrow> client_transition E_SESSION_CLOSED env CNull c3
         | SERVER_EVENT_HEALTH_CHECK_ERROR e \<Rightarrow> client_transition E_HEALTH_CHECK_ERROR env (CError e) c3
         | SERVER_EVENT_ERROR i e \<Rightarrow>
             if i \<noteq> NON_ID then c3 else client_transition E_SESSION_ERROR env (CError e) c3
         | _ \<Rightarrow> c3)"

definition vpn_upstream_handler_rest :: "server_event \<Rightarrow> vpn_client \<Rightarrow> vpn_client" where
  "vpn_upstream_handler_rest w c =
     (if is_disconnected_event w then c_tunnel TunnelAfterEndpointDisconnect c else c)"

definition direct_upstream_handler :: "server_event \<Rightarrow> vpn_client \<Rightarrow> vpn_client" where
  "direct_upstream_handler w c =
     (let c1 = (case w of
                  SERVER_EVENT_SESSION_OPENED \<Rightarrow> c\<lparr>bypass_upstream_session_opened := True\<rparr>
                | SERVER_EVENT_SESSION_CLOSED \<Rightarrow> c\<lparr>bypass_upstream_session_opened := False\<rparr>
                | _ \<Rightarrow> c)
      in c_tunnel (TunnelBypassEvent w) c1)"

definition dns_resolver_handler :: "bool \<Rightarrow> vpn_client \<Rightarrow> vpn_client" where
  "dns_resolver_handler success c =
     (let c1 = c\<lparr>dns_health_check_id := False\<rparr> in
      if success then c1
      else if client_state_of c1 \<noteq> S_CONNECTED then c1
      else if in_disconnect c1 then c1
      else c_raise EVENT_DNS_UPSTREAM_UNAVAILABLE c1)"

definition run_health_check_task :: "vpn_client \<Rightarrow> vpn_client" where
  "run_health_check_task c =
     (if client_state_of c \<noteq> S_CONNECTED then c
      else if endpoint_upstream c then c_emit UpstreamHealthCheck c
      else c_fault (NullDeref ''endpoint_upstream'') c)"

definition run_deferred_disconnect :: "client_env \<Rightarrow> vpn_client \<Rightarrow> vpn_client" where
  "run_deferred_disconnect env c = client_transition E_DEFERRED_DISCONNECT env CNull c"

section \<open>Transitions\<close>

text \<open>The client's machine in a state where no transition is running.\<close>

definition client_ready :: "vpn_client \<Rightarrow> bool" where
  "client_ready c \<longleftrightarrow> \<not> m_recursive (client_fsm c)"

lemma client_row_sel [simp]:
  "src_state (client_row s e b t a) = s" "event (client_row s e b t a) = e"
  "condition (client_row s e b t a) = None" "before_transition (client_row s e b t a) = b"
  "target_state (client_row s e b t a) = t" "after_transition (client_row s e b t a) = a"
  by (simp_all add: client_row_def)

lemma client_transition_find:
  assumes "client_ready c"
  shows "client_transition ev env d c =
     (case rows (client_state_of c) ev client_table of
        [] \<Rightarrow> c
      | e # _ \<Rightarrow> (snd (fire e (env, d) (client_state_of c) c))
          \<lparr>client_fsm := \<lparr>m_current_state = fst (fire e (env, d) (client_state_of c) c), m_recursive = False\<rparr>\<rparr>)"
proof -
  obtain st where f: "client_fsm c = \<lparr>m_current_state = st, m_recursive = False\<rparr>"
    using assms by (cases "client_fsm c") (simp add: client_ready_def)
  have "\<forall>e \<in> set client_table. condition e = None"
    by (simp add: client_table_def)
  then show ?thesis
    using f by (simp add: client_transition_def perform_transition_find client_params_def client_state_of_def
        get_state_def find_rows_unconditional split: list.split)
qed

lemma client_fire_simps [simp]:
  "fire (client_row s e b t a) d st c =
     (if t = SAME_TARGET_STATE then st else t,
      run_action a (if t = SAME_TARGET_STATE then st else t) (run_action b st c d) d)"
  by (simp add: fire_def next_state_def)

lemma client_transition_disconnect:
  assumes "client_ready c"
  shows "client_transition E_DISCONNECT env d c =
     (if client_state_of c = S_DISCONNECTED
      then c\<lparr>client_fsm := \<lparr>m_current_state = S_DISCONNECTED, m_recursive = False\<rparr>\<rparr>
      else (run_disconnect (client_state_of c) c (env, d))
        \<lparr>client_fsm := \<lparr>m_current_state = S_DISCONNECTED, m_recursive = False\<rparr>\<rparr>)"
  by (simp add: client_transition_find [OF assms] client_table_def)

lemma client_transition_run_connect:
  assumes "client_ready c" and "client_state_of c = S_DISCONNECTED"
  shows "client_transition E_RUN_CONNECT env d c =
     (run_connect S_DISCONNECTED c (env, d))
        \<lparr>client_fsm := \<lparr>m_current_state = S_CONNECTING, m_recursive = False\<rparr>\<rparr>"
  using assms(2) by (simp add: client_transition_find [OF assms(1)] client_table_def)

lemma client_transition_session_opened:
  assumes "client_ready c"
  shows "client_transition E_SESSION_OPENED env d c =
     (if client_state_of c = S_CONNECTING
      then (c_raise EVENT_CONNECTED c)\<lparr>client_fsm := \<lparr>m_current_state = S_CONNECTED, m_recursive = False\<rparr>\<rparr>
      else c)"
  by (simp add: client_transition_find [OF assms] client_table_def raise_connected_def)

text \<open>The states of the machine.\<close>

definition client_states :: "fsm_state set" where
  "client_states = {S_DISCONNECTED, S_CONNECTING, S_CONNECTED, S_DISCONNECTING}"

lemma client_transition_session_closed:
  assumes "client_ready c" and "client_state_of c \<in> client_states"
  shows "client_transition E_SESSION_CLOSED env d c =
     (raise_disconnected S_DISCONNECTED c (env, d))
        \<lparr>client_fsm := \<lparr>m_current_state = S_DISCONNECTED, m_recursive = False\<rparr>\<rparr>"
  using assms(2)
  by (auto simp add: client_transition_find [OF assms(1)] client_table_def client_states_def)

lemma client_transition_session_failed:
  assumes "client_ready c" and "ev \<in> {E_SESSION_ERROR, E_RUN_PREPARATION_FAIL, E_HEALTH_CHECK_ERROR}"
  shows "client_transition ev env d c =
     (if client_state_of c = S_CONNECTED
      then (submit_disconnect S_CONNECTED c (env, d))
        \<lparr>client_fsm := \<lparr>m_current_state = S_DISCONNECTING, m_recursive = False\<rparr>\<rparr>
      else c)"
  using assms(2) by (auto simp add: client_transition_find [OF assms(1)] client_table_def)

lemma client_transition_deferred:
  assumes "client_ready c"
  shows "client_transition E_DEFERRED_DISCONNECT env d c =
     (if client_state_of c = S_DISCONNECTING
      then (raise_disconnected S_DISCONNECTED (run_disconnect S_DISCONNECTING c (env, d)) (env, d))
        \<lparr>client_fsm := \<lparr>m_current_state = S_DISCONNECTED, m_recursive = False\<rparr>\<rparr>
      else c)"
  by (simp add: client_transition_find [OF assms] client_table_def)

section \<open>Frames\<close>

text \<open>The fields that the primitive effects and the actions leave alone.\<close>

lemma c_emit_frame [simp]:
  "client_fsm (c_emit x c) = client_fsm c"
  "tunnel (c_emit x c) = tunnel c"
  "listener_cfg (c_emit x c) = listener_cfg c"
  "connection_config (c_emit x c) = connection_config c"
  "kill_switch_on (c_emit x c) = kill_switch_on c"
  "endpoint_upstream (c_emit x c) = endpoint_upstream c"
  "bypass_upstream (c_emit x c) = bypass_upstream c"
  "client_listener (c_emit x c) = client_listener c"
  "dns_proxy_listener (c_emit x c) = dns_proxy_listener c"
  "dns_health_check_id (c_emit x c) = dns_health_check_id c"
  "deferred_tasks (c_emit x c) = deferred_tasks c"
  "endpoint_connector (c_emit x c) = endpoint_connector c"
  "tmp_files_base_path (c_emit x c) = tmp_files_base_path c"
  "client_pending_error (c_emit x c) = client_pending_error c"
  "bypass_upstream_session_opened (c_emit x c) = bypass_upstream_session_opened c"
  "in_disconnect (c_emit x c) = in_disconnect c"
  "exclusions_mode (c_emit x c) = exclusions_mode c"
  "quic_connector (c_emit x c) = quic_connector c"
  "tcp_socket (c_emit x c) = tcp_socket c"
  "raised (c_emit x c) = raised c"
  "client_faults (c_emit x c) = client_faults c"
  by (simp_all add: c_emit_def)

lemma c_raise_frame [simp]:
  "client_fsm (c_raise x c) = client_fsm c"
  "tunnel (c_raise x c) = tunnel c"
  "listener_cfg (c_raise x c) = listener_cfg c"
  "connection_config (c_raise x c) = connection_config c"
  "kill_switch_on (c_raise x c) = kill_switch_on c"
  "endpoint_upstream (c_raise x c) = endpoint_upstream c"
  "bypass_upstream (c_raise x c) = bypass_upstream c"
  "client_listener (c_raise x c) = client_listener c"
  "dns_proxy_listener (c_raise x c) = dns_proxy_listener c"
  "dns_health_check_id (c_raise x c) = dns_health_check_id c"
  "deferred_tasks (c_raise x c) = deferred_tasks c"
  "endpoint_connector (c_raise x c) = endpoint_connector c"
  "tmp_files_base_path (c_raise x c) = tmp_files_base_path c"
  "client_pending_error (c_raise x c) = client_pending_error c"
  "bypass_upstream_session_opened (c_raise x c) = bypass_upstream_session_opened c"
  "in_disconnect (c_raise x c) = in_disconnect c"
  "exclusions_mode (c_raise x c) = exclusions_mode c"
  "quic_connector (c_raise x c) = quic_connector c"
  "tcp_socket (c_raise x c) = tcp_socket c"
  "client_out (c_raise x c) = client_out c"
  "client_faults (c_raise x c) = client_faults c"
  by (simp_all add: c_raise_def)

lemma c_fault_frame [simp]:
  "client_fsm (c_fault x c) = client_fsm c"
  "tunnel (c_fault x c) = tunnel c"
  "listener_cfg (c_fault x c) = listener_cfg c"
  "connection_config (c_fault x c) = connection_config c"
  "kill_switch_on (c_fault x c) = kill_switch_on c"
  "endpoint_upstream (c_fault x c) = endpoint_upstream c"
  "bypass_upstream (c_fault x c) = bypass_upstream c"
  "client_listener (c_fault x c) = client_listener c"
  "dns_proxy_listener (c_fault x c) = dns_proxy_listener c"
  "dns_health_check_id (c_fault x c) = dns_health_check_id c"
  "deferred_tasks (c_fault x c) = deferred_tasks c"
  "endpoint_connector (c_fault x c) = endpoint_connector c"
  "tmp_files_base_path (c_fault x c) = tmp_files_base_path c"
  "client_pending_error (c_fault x c) = client_pending_error c"
  "bypass_upstream_session_opened (c_fault x c) = bypass_upstream_session_opened c"
  "in_disconnect (c_fault x c) = in_disconnect c"
  "exclusions_mode (c_fault x c) = exclusions_mode c"
  "quic_connector (c_fault x c) = quic_connector c"
  "tcp_socket (c_fault x c) = tcp_socket c"
  "raised (c_fault x c) = raised c"
  "client_out (c_fault x c) = client_out c"
  by (simp_all add: c_fault_def)

lemma c_tunnel_frame [simp]:
  "client_fsm (c_tunnel x c) = client_fsm c"
  "tunnel (c_tunnel x c) = tunnel c"
  "listener_cfg (c_tunnel x c) = listener_cfg c"
  "connection_config (c_tunnel x c) = connection_config c"
  "kill_switch_on (c_tunnel x c) = kill_switch_on c"
  "endpoint_upstream (c_tunnel x c) = endpoint_upstream c"
  "bypass_upstream (c_tunnel x c) = bypass_upstream c"
  "client_listener (c_tunnel x c) = client_listener c"
  "dns_proxy_listener (c_tunnel x c) = dns_proxy_listener c"
  "dns_health_check_id (c_tunnel x c) = dns_health_check_id c"
  "deferred_tasks (c_tunnel x c) = deferred_tasks c"
  "endpoint_connector (c_tunnel x c) = endpoint_connector c"
  "tmp_files_base_path (c_tunnel x c) = tmp_files_base_path c"
  "client_pending_error (c_tunnel x c) = client_pending_error c"
  "bypass_upstream_session_opened (c_tunnel x c) = bypass_upstream_session_opened c"
  "in_disconnect (c_tunnel x c) = in_disconnect c"
  "exclusions_mode (c_tunnel x c) = exclusions_mode c"
  "quic_connector (c_tunnel x c) = quic_connector c"
  "tcp_socket (c_tunnel x c) = tcp_socket c"
  "raised (c_tunnel x c) = raised c"
  by (simp_all add: c_tunnel_def)

lemma c_defer_frame [simp]:
  "client_fsm (c_defer x c) = client_fsm c"
  "tunnel (c_defer x c) = tunnel c"
  "listener_cfg (c_defer x c) = listener_cfg c"
  "connection_config (c_defer x c) = connection_config c"
  "kill_switch_on (c_defer x c) = kill_switch_on c"
  "endpoint_upstream (c_defer x c) = endpoint_upstream c"
  "bypass_upstream (c_defer x c) = bypass_upstream c"
  "client_listener (c_defer x c) = client_listener c"
  "dns_proxy_listener (c_defer x c) = dns_proxy_listener c"
  "dns_health_check_id (c_defer x c) = dns_health_check_id c"
  "endpoint_connector (c_defer x c) = endpoint_connector c"
  "tmp_files_base_path (c_defer x c) = tmp_files_base_path c"
  "client_pending_error (c_defer x c) = client_pending_error c"
  "bypass_upstream_session_opened (c_defer x c) = bypass_upstream_session_opened c"
  "in_disconnect (c_defer x c) = in_disconnect c"
  "exclusions_mode (c_defer x c) = exclusions_mode c"
  "quic_connector (c_defer x c) = quic_connector c"
  "tcp_socket (c_defer x c) = tcp_socket c"
  "raised (c_defer x c) = raised c"
  "client_out (c_defer x c) = client_out c"
  "client_faults (c_defer x c) = client_faults c"
  by (simp_all add: c_defer_def)

lemma set_pending_error_frame [simp]:
  "client_fsm (set_pending_error d c) = client_fsm c"
  "tunnel (set_pending_error d c) = tunnel c"
  "listener_cfg (set_pending_error d c) = listener_cfg c"
  "connection_config (set_pending_error d c) = connection_config c"
  "kill_switch_on (set_pending_error d c) = kill_switch_on c"
  "endpoint_upstream (set_pending_error d c) = endpoint_upstream c"
  "bypass_upstream (set_pending_error d c) = bypass_upstream c"
  "client_listener (set_pending_error d c) = client_listener c"
  "dns_proxy_listener (set_pending_error d c) = dns_proxy_listener c"
  "dns_health_check_id (set_pending_error d c) = dns_health_check_id c"
  "deferred_tasks (set_pending_error d c) = deferred_tasks c"
  "endpoint_connector (set_pending_error d c) = endpoint_connector c"
  "tmp_files_base_path (set_pending_error d c) = tmp_files_base_path c"
  "bypass_upstream_session_opened (set_pending_error d c) = bypass_upstream_session_opened c"
  "in_disconnect (set_pending_error d c) = in_disconnect c"
  "exclusions_mode (set_pending_error d c) = exclusions_mode c"
  "quic_connector (set_pending_error d c) = quic_connector c"
  "tcp_socket (set_pending_error d c) = tcp_socket c"
  "raised (set_pending_error d c) = raised c"
  "client_out (set_pending_error d c) = client_out c"
  "client_faults (set_pending_error d c) = client_faults c"
  by (simp_all add: set_pending_error_def split: client_data.split)

lemma raise_disconnected_frame [simp]:
  "client_fsm (raise_disconnected st c ed) = client_fsm c"
  "tunnel (raise_disconnected st c ed) = tunnel c"
  "listener_cfg (raise_disconnected st c ed) = listener_cfg c"
  "connection_config (raise_disconnected st c ed) = connection_config c"
  "kill_switch_on (raise_disconnected st c ed) = kill_switch_on c"
  "endpoint_upstream (raise_disconnected st c ed) = endpoint_upstream c"
  "bypass_upstream (raise_disconnected st c ed) = bypass_upstream c"
  "client_listener (raise_disconnected st c ed) = client_listener c"
  "dns_proxy_listener (raise_disconnected st c ed) = dns_proxy_listener c"
  "dns_health_check_id (raise_disconnected st c ed) = dns_health_check_id c"
  "deferred_tasks (raise_disconnected st c ed) = deferred_tasks c"
  "endpoint_connector (raise_disconnected st c ed) = endpoint_connector c"
  "tmp_files_base_path (raise_disconnected st c ed) = tmp_files_base_path c"
  "bypass_upstream_session_opened (raise_disconnected st c ed) = bypass_upstream_session_opened c"
  "in_disconnect (raise_disconnected st c ed) = in_disconnect c"
  "exclusions_mode (raise_disconnected st c ed) = exclusions_mode c"
  "quic_connector (raise_disconnected st c ed) = quic_connector c"
  "tcp_socket (raise_disconnected st c ed) = tcp_socket c"
  "client_out (raise_disconnected st c ed) = client_out c"
  "client_faults (raise_disconnected st c ed) = client_faults c"
  by (simp_all add: raise_disconnected_def split: option.split)

lemma run_disconnect_frame [simp]:
  "client_fsm (run_disconnect st c ed) = client_fsm c"
  "tunnel (run_disconnect st c ed) = tunnel c"
  "listener_cfg (run_disconnect st c ed) = listener_cfg c"
  "connection_config (run_disconnect st c ed) = connection_config c"
  "kill_switch_on (run_disconnect st c ed) = kill_switch_on c"
  "endpoint_upstream (run_disconnect st c ed) = endpoint_upstream c"
  "bypass_upstream (run_disconnect st c ed) = bypass_upstream c"
  "client_listener (run_disconnect st c ed) = client_listener c"
  "dns_health_check_id (run_disconnect st c ed) = dns_health_check_id c"
  "tmp_files_base_path (run_disconnect st c ed) = tmp_files_base_path c"
  "bypass_upstream_session_opened (run_disconnect st c ed) = bypass_upstream_session_opened c"
  "in_disconnect (run_disconnect st c ed) = in_disconnect c"
  "exclusions_mode (run_disconnect st c ed) = exclusions_mode c"
  "raised (run_disconnect st c ed) = raised c"
  by (simp_all add: run_disconnect_def Let_def)

lemma run_connect_frame [simp]:
  "client_fsm (run_connect st c ed) = client_fsm c"
  "tunnel (run_connect st c ed) = tunnel c"
  "listener_cfg (run_connect st c ed) = listener_cfg c"
  "connection_config (run_connect st c ed) = connection_config c"
  "kill_switch_on (run_connect st c ed) = kill_switch_on c"
  "endpoint_upstream (run_connect st c ed) = endpoint_upstream c"
  "bypass_upstream (run_connect st c ed) = bypass_upstream c"
  "client_listener (run_connect st c ed) = client_listener c"
  "dns_proxy_listener (run_connect st c ed) = dns_proxy_listener c"
  "dns_health_check_id (run_connect st c ed) = dns_health_check_id c"
  "deferred_tasks (run_connect st c ed) = deferred_tasks c"
  "endpoint_connector (run_connect st c ed) = endpoint_connector c"
  "tmp_files_base_path (run_connect st c ed) = tmp_files_base_path c"
  "bypass_upstream_session_opened (run_connect st c ed) = bypass_upstream_session_opened c"
  "in_disconnect (run_connect st c ed) = in_disconnect c"
  "exclusions_mode (run_connect st c ed) = exclusions_mode c"
  "quic_connector (run_connect st c ed) = quic_connector c"
  "tcp_socket (run_connect st c ed) = tcp_socket c"
  "raised (run_connect st c ed) = raised c"
  by (simp_all add: run_connect_def Let_def split: prod.split)

lemma run_disconnect_sel [simp]:
  "deferred_tasks (run_disconnect st c ed) = []"
  "endpoint_connector (run_disconnect st c ed) = False"
  "dns_proxy_listener (run_disconnect st c ed) = False"
  "tcp_socket (run_disconnect st c ed) = False"
  "quic_connector (run_disconnect st c ed) = False"
  by (simp_all add: run_disconnect_def Let_def)

lemma c_defer_tasks [simp]: "deferred_tasks (c_defer t c) = deferred_tasks c @ [t]"
  by (simp add: c_defer_def)

lemma c_raise_raised [simp]: "raised (c_raise e c) = raised c @ [e]"
  by (simp add: c_raise_def)

section \<open>Invariant\<close>

text \<open>
  The connector exists exactly while the client is connecting; a queued connector finalizer finds
  an upstream unless it has an error to report, and is queued once; a connected client has an upstream; a disconnecting
  client has its disconnection queued.
\<close>

definition client_inv :: "vpn_client \<Rightarrow> bool" where
  "client_inv c \<longleftrightarrow>
     client_ready c \<and> client_state_of c \<in> client_states \<and>
     (endpoint_connector c \<longleftrightarrow> client_state_of c = S_CONNECTING) \<and>
     (ConnectorFinalizer \<in> set (deferred_tasks c) \<longrightarrow>
        client_state_of c = S_CONNECTING \<and> (client_pending_error c = None \<longrightarrow> endpoint_upstream c)) \<and>
     count_list (deferred_tasks c) ConnectorFinalizer \<le> 1 \<and>
     (client_state_of c = S_CONNECTED \<longrightarrow> endpoint_upstream c) \<and>
     (client_state_of c = S_DISCONNECTING \<longrightarrow> DeferredDisconnect \<in> set (deferred_tasks c))"

lemmas client_inv_defs = client_inv_def client_ready_def client_state_of_def get_state_def client_states_def

lemma client_disconnect_eq:
  assumes "client_ready c"
  shows "client_disconnect env c =
     (if client_state_of c = S_DISCONNECTED
      then c\<lparr>client_fsm := \<lparr>m_current_state = S_DISCONNECTED, m_recursive = False\<rparr>, in_disconnect := False\<rparr>
      else (run_disconnect (client_state_of c) (c\<lparr>in_disconnect := True\<rparr>) (env, CNull))
        \<lparr>client_fsm := \<lparr>m_current_state = S_DISCONNECTED, m_recursive = False\<rparr>, in_disconnect := False\<rparr>)"
proof -
  have "client_ready (c\<lparr>in_disconnect := True\<rparr>)" using assms by (simp add: client_ready_def)
  then show ?thesis
    by (simp add: client_disconnect_def client_transition_disconnect client_state_of_def)
qed

lemma client_disconnect_state:
  assumes "client_ready c"
  shows "client_state_of (client_disconnect env c) = S_DISCONNECTED" and "client_ready (client_disconnect env c)"
    and "raised (client_disconnect env c) = raised c"
    and "kill_switch_on (client_disconnect env c) = kill_switch_on c"
  using assms by (auto simp: client_disconnect_eq client_state_of_def get_state_def client_ready_def)

lemma client_disconnect_inv:
  assumes "client_inv c"
  shows "client_inv (client_disconnect env c)"
proof -
  have r: "client_ready c" using assms by (simp add: client_inv_def)
  show ?thesis
    using assms unfolding client_disconnect_eq [OF r]
    by (auto simp: client_inv_defs)
qed

lemma client_inv_ready: "client_inv c \<Longrightarrow> client_ready c"
  by (simp add: client_inv_def)

lemma client_inv_connected_upstream:
  "client_inv c \<Longrightarrow> client_state_of c = S_CONNECTED \<Longrightarrow> endpoint_upstream c"
  by (simp add: client_inv_def)

text \<open>The fields the invariant reads: updates of any other field keep it.\<close>

lemma client_inv_cong:
  assumes "client_fsm c' = client_fsm c" and "endpoint_connector c' = endpoint_connector c"
    and "deferred_tasks c' = deferred_tasks c" and "client_pending_error c' = client_pending_error c"
    and "endpoint_upstream c' = endpoint_upstream c"
  shows "client_inv c' = client_inv c"
  using assms by (simp add: client_inv_defs)

lemma start_dns_proxy_listener_frame:
  assumes "start_dns_proxy_listener env c = (e, c')"
  shows "client_fsm c' = client_fsm c" and "endpoint_connector c' = endpoint_connector c"
    and "deferred_tasks c' = deferred_tasks c" and "client_pending_error c' = client_pending_error c"
    and "endpoint_upstream c' = endpoint_upstream c" and "raised c' = raised c"
    and "kill_switch_on c' = kill_switch_on c"
  using assms by (auto simp: start_dns_proxy_listener_def split: if_splits)

lemma client_connect_cases:
  assumes inv: "client_inv c" and conn: "client_connect cfg t env c = (e, c')"
    and proto: "ecc_main_protocol cfg \<noteq> VPN_UP_AUTO"
  shows "client_inv c'" and "raised c' = raised c" and "kill_switch_on c' = kill_switch_on c"
    and "ec e = VPN_EC_NOERROR \<Longrightarrow> client_state_of c' = S_CONNECTING"
    and "ec e \<noteq> VPN_EC_NOERROR \<Longrightarrow> client_state_of c' = client_state_of c"
proof -
  define c2 where "c2 = c\<lparr>connection_config := Some cfg, endpoint_connector := True\<rparr>"
  define c3 where "c3 = (run_connect S_DISCONNECTED c2 (env, CTimeout t))
      \<lparr>client_fsm := \<lparr>m_current_state = S_CONNECTING, m_recursive = False\<rparr>, client_pending_error := None\<rparr>"
  define c4 where "c4 = (if bypass_upstream c3 then c_emit BypassOpenSession c3
                         else c_fault (NullDeref ''bypass_upstream'') c3)"
  let ?good = "client_inv c' \<and> raised c' = raised c \<and> kill_switch_on c' = kill_switch_on c \<and>
     (ec e = VPN_EC_NOERROR \<longrightarrow> client_state_of c' = S_CONNECTING) \<and>
     (ec e \<noteq> VPN_EC_NOERROR \<longrightarrow> client_state_of c' = client_state_of c)"
  have ?good
  proof (cases "client_state_of c = S_DISCONNECTED")
    case False
    then show ?thesis using conn inv by (auto simp: client_connect_def ec_defs)
  next
    case True
    have ready: "client_ready c2" "client_state_of c2 = S_DISCONNECTED"
      using inv True by (simp_all add: c2_def client_inv_defs)
    have fin: "ConnectorFinalizer \<notin> set (deferred_tasks c)"
      using inv True by (auto simp: client_inv_def)
    have inv3: "client_inv c3" "client_state_of c3 = S_CONNECTING" "raised c3 = raised c"
      "kill_switch_on c3 = kill_switch_on c"
      using fin by (auto simp: c3_def c2_def client_inv_defs)
    then have inv4: "client_inv c4" "client_state_of c4 = S_CONNECTING" "raised c4 = raised c"
      "kill_switch_on c4 = kill_switch_on c"
      by (simp_all add: c4_def client_inv_defs)
    have start: "\<exists>e0. start_connector t env c2 = (e0, c3)"
      using ready by (simp add: start_connector_def client_transition_run_connect c3_def)
    then obtain e0 where e0: "start_connector t env c2 = (e0, c3)" ..
    have "client_connect cfg t env c =
        (if ec e0 \<noteq> VPN_EC_NOERROR then connect_fail e0 env c3
         else if \<not> bypass_session_started env
         then connect_fail (VpnError (ec e0) ''Failed to start upstream for direct connections'') env c4
         else (e0, c4))"
      using proto True e0 unfolding c2_def c4_def by (simp add: client_connect_def Let_def)
    moreover have "client_inv (client_disconnect env c3)" "client_inv (client_disconnect env c4)"
      using inv3 inv4 client_disconnect_inv by blast+
    moreover note client_disconnect_state [OF client_inv_ready [OF inv3(1)], of env]
      client_disconnect_state [OF client_inv_ready [OF inv4(1)], of env]
    ultimately show ?thesis
      using conn True inv3 inv4 by (simp add: connect_fail_def ec_defs split: if_splits)
  qed
  then show "client_inv c'" "raised c' = raised c" "kill_switch_on c' = kill_switch_on c"
    "ec e = VPN_EC_NOERROR \<Longrightarrow> client_state_of c' = S_CONNECTING"
    "ec e \<noteq> VPN_EC_NOERROR \<Longrightarrow> client_state_of c' = client_state_of c" by blast+
qed

lemma submit_disconnect_frame [simp]:
  "client_fsm (submit_disconnect st c ed) = client_fsm c"
  "endpoint_connector (submit_disconnect st c ed) = endpoint_connector c"
  "endpoint_upstream (submit_disconnect st c ed) = endpoint_upstream c"
  "raised (submit_disconnect st c ed) = raised c"
  "kill_switch_on (submit_disconnect st c ed) = kill_switch_on c"
  "deferred_tasks (submit_disconnect st c ed) = deferred_tasks c @ [DeferredDisconnect]"
  by (simp_all add: submit_disconnect_def)

lemma session_failed_inv:
  assumes "client_inv c" and "ev \<in> {E_SESSION_ERROR, E_RUN_PREPARATION_FAIL, E_HEALTH_CHECK_ERROR}"
  shows "client_inv (client_transition ev env d c)"
    and "raised (client_transition ev env d c) = raised c"
    and "kill_switch_on (client_transition ev env d c) = kill_switch_on c"
    and "client_state_of (client_transition ev env d c) = S_DISCONNECTED \<longleftrightarrow> client_state_of c = S_DISCONNECTED"
  using assms(1) unfolding client_transition_session_failed [OF client_inv_ready [OF assms(1)] assms(2)]
  by (auto simp: client_inv_defs)

lemma deferred_disconnect_inv:
  assumes "client_inv c"
  shows "client_inv (run_deferred_disconnect env (c\<lparr>deferred_tasks := remove1 DeferredDisconnect (deferred_tasks c)\<rparr>))"
proof -
  let ?c = "c\<lparr>deferred_tasks := remove1 DeferredDisconnect (deferred_tasks c)\<rparr>"
  have "client_ready ?c" using assms by (simp add: client_inv_defs)
  moreover have "ConnectorFinalizer \<in> set (remove1 DeferredDisconnect (deferred_tasks c)) \<longleftrightarrow>
      ConnectorFinalizer \<in> set (deferred_tasks c)" by simp
  ultimately show ?thesis
    using assms unfolding run_deferred_disconnect_def client_transition_deferred [OF \<open>client_ready ?c\<close>]
    by (auto simp: client_inv_defs count_list_remove1)
qed

lemma connector_handler_frame:
  "client_fsm (endpoint_connector_handler res env c) = client_fsm c"
  "endpoint_connector (endpoint_connector_handler res env c) = endpoint_connector c"
  "raised (endpoint_connector_handler res env c) = raised c"
  "kill_switch_on (endpoint_connector_handler res env c) = kill_switch_on c"
  "deferred_tasks (endpoint_connector_handler res env c) = deferred_tasks c @ [ConnectorFinalizer]"
  "client_pending_error (endpoint_connector_handler res env c) = None \<Longrightarrow>
     endpoint_upstream (endpoint_connector_handler res env c)"
  by (cases res; simp add: endpoint_connector_handler_def start_dns_proxy_listener_def Let_def ec_defs no_error_def)+

lemma connector_handler_inv:
  assumes "client_inv c" and "endpoint_connector c" and "ConnectorFinalizer \<notin> set (deferred_tasks c)"
  shows "client_inv (endpoint_connector_handler res env c)"
  using assms connector_handler_frame(6) [of res env c]
  by (auto simp: client_inv_defs connector_handler_frame(1-5) count_list_0_iff)

lemma finalizer_inv:
  assumes "client_inv c" and "ConnectorFinalizer \<in> set (deferred_tasks c)"
    and "endpoint_connector_finalizer env (c\<lparr>deferred_tasks := remove1 ConnectorFinalizer (deferred_tasks c)\<rparr>) = (goes_on, c')"
  shows "client_inv c'" and "kill_switch_on c' = kill_switch_on c"
    and "client_state_of c' = (if client_pending_error c = None then S_CONNECTED else S_DISCONNECTED)"
    and "raised c' = raised c @ [case client_pending_error c of None \<Rightarrow> EVENT_CONNECTED | Some e \<Rightarrow> EVENT_ERROR e]"
proof -
  define c1 where "c1 = c\<lparr>deferred_tasks := remove1 ConnectorFinalizer (deferred_tasks c), endpoint_connector := False\<rparr>"
  define c2 where "c2 = c_tunnel (TunnelUpstreamEvent SERVER_EVENT_SESSION_OPENED) c1"
  have once: "ConnectorFinalizer \<notin> set (remove1 ConnectorFinalizer (deferred_tasks c))"
    using assms(1) count_list_remove1 [of ConnectorFinalizer "deferred_tasks c" ConnectorFinalizer]
    by (simp add: client_inv_def flip: count_list_0_iff)
  have st: "client_state_of c = S_CONNECTING" and up: "client_pending_error c = None \<Longrightarrow> endpoint_upstream c"
    using assms by (auto simp: client_inv_def)
  have r: "client_ready c1" "client_state_of c1 = S_CONNECTING" "client_ready c2" "client_state_of c2 = S_CONNECTING"
    using assms(1) st by (simp_all add: c1_def c2_def client_inv_defs)
  then have mem: "client_state_of c1 \<in> client_states" by (simp add: client_states_def)
  have c': "c' = (if client_pending_error c \<noteq> None
      then (raise_disconnected S_DISCONNECTED c1 (env, CNull))\<lparr>client_fsm := \<lparr>m_current_state = S_DISCONNECTED, m_recursive = False\<rparr>\<rparr>
      else (c_raise EVENT_CONNECTED c2)\<lparr>client_fsm := \<lparr>m_current_state = S_CONNECTED, m_recursive = False\<rparr>\<rparr>)"
    using assms(3) r
    by (auto simp: endpoint_connector_finalizer_def c1_def [symmetric] c2_def [symmetric]
        client_transition_session_closed [OF r(1) mem] client_transition_session_opened Let_def
        split: if_splits) (simp_all add: c1_def)
  show "client_inv c'" "kill_switch_on c' = kill_switch_on c"
    "client_state_of c' = (if client_pending_error c = None then S_CONNECTED else S_DISCONNECTED)"
    "raised c' = raised c @ [case client_pending_error c of None \<Rightarrow> EVENT_CONNECTED | Some e \<Rightarrow> EVENT_ERROR e]"
    using assms(1) once st up unfolding c' c2_def c1_def
    by (auto simp: client_inv_defs raise_disconnected_def count_list_remove1 split: option.split)
qed

section \<open>Calls that leave the session of the client alone\<close>

text \<open>
  Most calls into the client change neither its machine nor its connection: they have effects on
  the tunnel or the listener, or queue a health check.
\<close>

definition session_neutral :: "(vpn_client \<Rightarrow> vpn_client) \<Rightarrow> bool" where
  "session_neutral f \<longleftrightarrow>
     (\<forall>c. (client_inv c \<longrightarrow> client_inv (f c)) \<and> client_fsm (f c) = client_fsm c \<and>
          raised (f c) = raised c \<and> kill_switch_on (f c) = kill_switch_on c)"

lemma session_neutralD:
  assumes "session_neutral f"
  shows "client_inv c \<Longrightarrow> client_inv (f c)" and "client_fsm (f c) = client_fsm c"
    and "raised (f c) = raised c" and "kill_switch_on (f c) = kill_switch_on c"
    and "client_state_of (f c) = client_state_of c"
  using assms by (auto simp: session_neutral_def client_state_of_def)

lemma session_neutral_effects [simp, intro]:
  "session_neutral (c_tunnel x)" "session_neutral (c_emit x)" "session_neutral (c_fault y)"
  by (auto simp: session_neutral_def client_inv_defs)

lemma session_neutral_calls [simp, intro]:
  "session_neutral (client_complete_connect_request i a)"
  "session_neutral (client_reset_connection i)"
  "session_neutral (client_reject_connect_request i)"
  "session_neutral client_update_bypass_ip_availability"
  "session_neutral client_on_network_change"
  "session_neutral (client_reset_connections n)"
  "session_neutral client_handle_sleep"
  "session_neutral client_handle_wake"
  by (auto simp: session_neutral_def client_inv_defs client_complete_connect_request_def
      client_reset_connection_def client_reject_connect_request_def
      client_update_bypass_ip_availability_def client_on_network_change_def
      client_reset_connections_def client_handle_sleep_def client_handle_wake_def client_power_event_def)

lemma session_neutral_health_check [simp, intro]: "session_neutral client_do_health_check"
  by (auto simp: session_neutral_def client_inv_defs client_do_health_check_def)

lemma session_neutral_update_exclusions [simp, intro]: "session_neutral (client_update_exclusions m e)"
  by (auto simp: session_neutral_def client_inv_defs client_update_exclusions_def Let_def)

lemma session_neutral_fold:
  assumes "\<And>x. session_neutral (f x)"
  shows "session_neutral (fold f xs)"
  using assms by (induction xs) (auto simp: session_neutral_def)

text \<open>Listening fails into the disconnection of a connected client and is neutral otherwise.\<close>

lemma client_listen_keeps:
  assumes "client_inv c" and "client_listen cfg env c = (e, c')"
  shows "client_inv c'" and "raised c' = raised c" and "kill_switch_on c' = kill_switch_on c"
    and "client_state_of c' = S_DISCONNECTED \<longleftrightarrow> client_state_of c = S_DISCONNECTED"
proof -
  define P where "P x \<longleftrightarrow> client_inv x \<and> raised x = raised c \<and> kill_switch_on x = kill_switch_on c \<and>
    (client_state_of x = S_DISCONNECTED \<longleftrightarrow> client_state_of c = S_DISCONNECTED)" for x
  have fail: "P (snd (listen_fail err env x))" if "P x" for err x
    using that session_failed_inv [of x E_RUN_PREPARATION_FAIL env CNull]
    by (simp add: P_def listen_fail_def)
  have dns: "P (snd (start_dns_proxy_listener env x))" if "P x" for x
    using that by (auto simp: P_def start_dns_proxy_listener_def client_inv_defs)
  have chk: "P (snd (do_dns_upstream_health_check env x))" if "P x" for x
    using that by (auto simp: P_def do_dns_upstream_health_check_def client_inv_defs)
  have ld: "P (snd (listen_dns env x))" if "P x" for x
    using that by (simp add: listen_dns_def case_prod_beta fail dns chk)
  define c1 where "c1 = c\<lparr>client_listener := True, listener_cfg :=
    (if lc_timeout_ms cfg = 0 then cfg\<lparr>lc_timeout_ms := VPN_DEFAULT_TCP_TIMEOUT_MS\<rparr> else cfg)\<rparr>"
  have P1: "P c1" using assms(1) by (simp add: P_def c1_def client_inv_defs)
  define c2 where "c2 = (if tmp_files_base_path c1 then c_emit CleanUpBufferFiles c1 else c1)"
  define c3 where "c3 = (if client_state_of c2 = S_CONNECTED then c_tunnel TunnelExclusionsUpdated c2 else c2)"
  have neutral: "P (f x)" if "session_neutral f" and "P x" for f x
    using session_neutralD [OF that(1), of x] that(2) by (simp add: P_def)
  have "P c2" using P1 neutral [of "c_emit CleanUpBufferFiles"] by (simp add: c2_def)
  then have P3: "P c3" using neutral [of "c_tunnel TunnelExclusionsUpdated"] by (simp add: c3_def)
  have "client_listen cfg env c =
      (case listener_init env of
         INIT_ADDR_IN_USE \<Rightarrow> listen_fail (VpnError VPN_EC_ADDR_IN_USE
             ''Failed to initialize client listener: address in use'') env c1
       | INIT_FAILURE \<Rightarrow> listen_fail (VpnError VPN_EC_ERROR ''Failed to initialize client listener'') env c1
       | INIT_SUCCESS \<Rightarrow> listen_dns env c3)"
    unfolding c3_def c2_def c1_def by (simp only: client_listen_def Let_def)
  then have "P (snd (client_listen cfg env c))"
    by (simp add: fail P1 ld P3 split: init_result.split)
  then have "P c'" using assms(2) by simp
  then show "client_inv c'" "raised c' = raised c" "kill_switch_on c' = kill_switch_on c"
    "client_state_of c' = S_DISCONNECTED \<longleftrightarrow> client_state_of c = S_DISCONNECTED"
    by (simp_all add: P_def)
qed

end
