(* ===== verification/TT_Vpn_Fsm.thy ===== *)
theory TT_Vpn_Fsm
  imports TT_Vpn_Client
begin

text \<open>
  The session state machine of the VPN (\<open>core/src/vpn_fsm.cpp\<close>, \<open>core/src/vpn_fsm.h\<close>) over the
  structure \<open>Vpn\<close> of \<open>core/src/vpn_manager.h\<close>: the conditions and actions of its transition table,
  the table itself, and the helpers of \<open>core/src/vpn_manager.cpp\<close> that the actions call.

  The clock, the answers of the client's environment and the tunnel's answers about a request are
  the record \<open>vpn_env\<close>. The event loop's queue of the closures submitted by the VPN is the list
  \<open>tasks\<close>, one constructor of \<open>vpn_task\<close> per closure of the sources. The events raised to the
  application and the calls to the pinger are the log \<open>out\<close>.
\<close>

section \<open>Data\<close>

definition VPN_SS_DISCONNECTED :: fsm_state where "VPN_SS_DISCONNECTED = 0"

definition VPN_SS_CONNECTING :: fsm_state where "VPN_SS_CONNECTING = 1"

definition VPN_SS_CONNECTED :: fsm_state where "VPN_SS_CONNECTED = 2"

definition VPN_SS_WAITING_RECOVERY :: fsm_state where "VPN_SS_WAITING_RECOVERY = 3"

definition VPN_SS_RECOVERING :: fsm_state where "VPN_SS_RECOVERING = 4"

definition VPN_SS_WAITING_FOR_NETWORK :: fsm_state where "VPN_SS_WAITING_FOR_NETWORK = 5"

definition CE_DO_CONNECT :: fsm_event where "CE_DO_CONNECT = 0"

definition CE_RETRY_CONNECT :: fsm_event where "CE_RETRY_CONNECT = 1"

definition CE_PING_READY :: fsm_event where "CE_PING_READY = 2"

definition CE_PING_FAIL :: fsm_event where "CE_PING_FAIL = 3"

definition CE_CLIENT_READY :: fsm_event where "CE_CLIENT_READY = 4"

definition CE_CLIENT_DISCONNECTED :: fsm_event where "CE_CLIENT_DISCONNECTED = 5"

definition CE_DO_RECOVERY :: fsm_event where "CE_DO_RECOVERY = 6"

definition CE_SHUTDOWN :: fsm_event where "CE_SHUTDOWN = 7"

definition CE_NETWORK_CHANGE :: fsm_event where "CE_NETWORK_CHANGE = 8"

definition CE_START_LISTENING :: fsm_event where "CE_START_LISTENING = 9"

definition CE_ABANDON_ENDPOINT :: fsm_event where "CE_ABANDON_ENDPOINT = 10"

definition CE_COMPLETE_REQUEST :: fsm_event where "CE_COMPLETE_REQUEST = 11"

lemmas vpn_consts = VPN_SS_DISCONNECTED_def VPN_SS_CONNECTING_def VPN_SS_CONNECTED_def
  VPN_SS_WAITING_RECOVERY_def VPN_SS_RECOVERING_def VPN_SS_WAITING_FOR_NETWORK_def
  CE_DO_CONNECT_def CE_RETRY_CONNECT_def CE_PING_READY_def CE_PING_FAIL_def CE_CLIENT_READY_def
  CE_CLIENT_DISCONNECTED_def CE_DO_RECOVERY_def CE_SHUTDOWN_def CE_NETWORK_CHANGE_def
  CE_START_LISTENING_def CE_ABANDON_ENDPOINT_def CE_COMPLETE_REQUEST_def
  ANY_SOURCE_STATE_def SAME_TARGET_STATE_def

lemma vpn_state_neqs [simp]:
  "VPN_SS_DISCONNECTED \<noteq> VPN_SS_CONNECTING"
  "VPN_SS_DISCONNECTED \<noteq> VPN_SS_CONNECTED"
  "VPN_SS_DISCONNECTED \<noteq> VPN_SS_WAITING_RECOVERY"
  "VPN_SS_DISCONNECTED \<noteq> VPN_SS_RECOVERING"
  "VPN_SS_DISCONNECTED \<noteq> VPN_SS_WAITING_FOR_NETWORK"
  "VPN_SS_CONNECTING \<noteq> VPN_SS_DISCONNECTED"
  "VPN_SS_CONNECTING \<noteq> VPN_SS_CONNECTED"
  "VPN_SS_CONNECTING \<noteq> VPN_SS_WAITING_RECOVERY"
  "VPN_SS_CONNECTING \<noteq> VPN_SS_RECOVERING"
  "VPN_SS_CONNECTING \<noteq> VPN_SS_WAITING_FOR_NETWORK"
  "VPN_SS_CONNECTED \<noteq> VPN_SS_DISCONNECTED"
  "VPN_SS_CONNECTED \<noteq> VPN_SS_CONNECTING"
  "VPN_SS_CONNECTED \<noteq> VPN_SS_WAITING_RECOVERY"
  "VPN_SS_CONNECTED \<noteq> VPN_SS_RECOVERING"
  "VPN_SS_CONNECTED \<noteq> VPN_SS_WAITING_FOR_NETWORK"
  "VPN_SS_WAITING_RECOVERY \<noteq> VPN_SS_DISCONNECTED"
  "VPN_SS_WAITING_RECOVERY \<noteq> VPN_SS_CONNECTING"
  "VPN_SS_WAITING_RECOVERY \<noteq> VPN_SS_CONNECTED"
  "VPN_SS_WAITING_RECOVERY \<noteq> VPN_SS_RECOVERING"
  "VPN_SS_WAITING_RECOVERY \<noteq> VPN_SS_WAITING_FOR_NETWORK"
  "VPN_SS_RECOVERING \<noteq> VPN_SS_DISCONNECTED"
  "VPN_SS_RECOVERING \<noteq> VPN_SS_CONNECTING"
  "VPN_SS_RECOVERING \<noteq> VPN_SS_CONNECTED"
  "VPN_SS_RECOVERING \<noteq> VPN_SS_WAITING_RECOVERY"
  "VPN_SS_RECOVERING \<noteq> VPN_SS_WAITING_FOR_NETWORK"
  "VPN_SS_WAITING_FOR_NETWORK \<noteq> VPN_SS_DISCONNECTED"
  "VPN_SS_WAITING_FOR_NETWORK \<noteq> VPN_SS_CONNECTING"
  "VPN_SS_WAITING_FOR_NETWORK \<noteq> VPN_SS_CONNECTED"
  "VPN_SS_WAITING_FOR_NETWORK \<noteq> VPN_SS_WAITING_RECOVERY"
  "VPN_SS_WAITING_FOR_NETWORK \<noteq> VPN_SS_RECOVERING"
  by (simp_all add: vpn_consts)

lemma vpn_state_special [simp]:
  "VPN_SS_DISCONNECTED \<noteq> ANY_SOURCE_STATE" "ANY_SOURCE_STATE \<noteq> VPN_SS_DISCONNECTED"
  "VPN_SS_DISCONNECTED \<noteq> SAME_TARGET_STATE" "SAME_TARGET_STATE \<noteq> VPN_SS_DISCONNECTED"
  "VPN_SS_CONNECTING \<noteq> ANY_SOURCE_STATE" "ANY_SOURCE_STATE \<noteq> VPN_SS_CONNECTING"
  "VPN_SS_CONNECTING \<noteq> SAME_TARGET_STATE" "SAME_TARGET_STATE \<noteq> VPN_SS_CONNECTING"
  "VPN_SS_CONNECTED \<noteq> ANY_SOURCE_STATE" "ANY_SOURCE_STATE \<noteq> VPN_SS_CONNECTED"
  "VPN_SS_CONNECTED \<noteq> SAME_TARGET_STATE" "SAME_TARGET_STATE \<noteq> VPN_SS_CONNECTED"
  "VPN_SS_WAITING_RECOVERY \<noteq> ANY_SOURCE_STATE" "ANY_SOURCE_STATE \<noteq> VPN_SS_WAITING_RECOVERY"
  "VPN_SS_WAITING_RECOVERY \<noteq> SAME_TARGET_STATE" "SAME_TARGET_STATE \<noteq> VPN_SS_WAITING_RECOVERY"
  "VPN_SS_RECOVERING \<noteq> ANY_SOURCE_STATE" "ANY_SOURCE_STATE \<noteq> VPN_SS_RECOVERING"
  "VPN_SS_RECOVERING \<noteq> SAME_TARGET_STATE" "SAME_TARGET_STATE \<noteq> VPN_SS_RECOVERING"
  "VPN_SS_WAITING_FOR_NETWORK \<noteq> ANY_SOURCE_STATE" "ANY_SOURCE_STATE \<noteq> VPN_SS_WAITING_FOR_NETWORK"
  "VPN_SS_WAITING_FOR_NETWORK \<noteq> SAME_TARGET_STATE" "SAME_TARGET_STATE \<noteq> VPN_SS_WAITING_FOR_NETWORK"
  by (simp_all add: vpn_consts)

lemma vpn_event_neqs [simp]:
  "CE_DO_CONNECT \<noteq> CE_RETRY_CONNECT"
  "CE_DO_CONNECT \<noteq> CE_PING_READY"
  "CE_DO_CONNECT \<noteq> CE_PING_FAIL"
  "CE_DO_CONNECT \<noteq> CE_CLIENT_READY"
  "CE_DO_CONNECT \<noteq> CE_CLIENT_DISCONNECTED"
  "CE_DO_CONNECT \<noteq> CE_DO_RECOVERY"
  "CE_DO_CONNECT \<noteq> CE_SHUTDOWN"
  "CE_DO_CONNECT \<noteq> CE_NETWORK_CHANGE"
  "CE_DO_CONNECT \<noteq> CE_START_LISTENING"
  "CE_DO_CONNECT \<noteq> CE_ABANDON_ENDPOINT"
  "CE_DO_CONNECT \<noteq> CE_COMPLETE_REQUEST"
  "CE_RETRY_CONNECT \<noteq> CE_DO_CONNECT"
  "CE_RETRY_CONNECT \<noteq> CE_PING_READY"
  "CE_RETRY_CONNECT \<noteq> CE_PING_FAIL"
  "CE_RETRY_CONNECT \<noteq> CE_CLIENT_READY"
  "CE_RETRY_CONNECT \<noteq> CE_CLIENT_DISCONNECTED"
  "CE_RETRY_CONNECT \<noteq> CE_DO_RECOVERY"
  "CE_RETRY_CONNECT \<noteq> CE_SHUTDOWN"
  "CE_RETRY_CONNECT \<noteq> CE_NETWORK_CHANGE"
  "CE_RETRY_CONNECT \<noteq> CE_START_LISTENING"
  "CE_RETRY_CONNECT \<noteq> CE_ABANDON_ENDPOINT"
  "CE_RETRY_CONNECT \<noteq> CE_COMPLETE_REQUEST"
  "CE_PING_READY \<noteq> CE_DO_CONNECT"
  "CE_PING_READY \<noteq> CE_RETRY_CONNECT"
  "CE_PING_READY \<noteq> CE_PING_FAIL"
  "CE_PING_READY \<noteq> CE_CLIENT_READY"
  "CE_PING_READY \<noteq> CE_CLIENT_DISCONNECTED"
  "CE_PING_READY \<noteq> CE_DO_RECOVERY"
  "CE_PING_READY \<noteq> CE_SHUTDOWN"
  "CE_PING_READY \<noteq> CE_NETWORK_CHANGE"
  "CE_PING_READY \<noteq> CE_START_LISTENING"
  "CE_PING_READY \<noteq> CE_ABANDON_ENDPOINT"
  "CE_PING_READY \<noteq> CE_COMPLETE_REQUEST"
  "CE_PING_FAIL \<noteq> CE_DO_CONNECT"
  "CE_PING_FAIL \<noteq> CE_RETRY_CONNECT"
  "CE_PING_FAIL \<noteq> CE_PING_READY"
  "CE_PING_FAIL \<noteq> CE_CLIENT_READY"
  "CE_PING_FAIL \<noteq> CE_CLIENT_DISCONNECTED"
  "CE_PING_FAIL \<noteq> CE_DO_RECOVERY"
  "CE_PING_FAIL \<noteq> CE_SHUTDOWN"
  "CE_PING_FAIL \<noteq> CE_NETWORK_CHANGE"
  "CE_PING_FAIL \<noteq> CE_START_LISTENING"
  "CE_PING_FAIL \<noteq> CE_ABANDON_ENDPOINT"
  "CE_PING_FAIL \<noteq> CE_COMPLETE_REQUEST"
  "CE_CLIENT_READY \<noteq> CE_DO_CONNECT"
  "CE_CLIENT_READY \<noteq> CE_RETRY_CONNECT"
  "CE_CLIENT_READY \<noteq> CE_PING_READY"
  "CE_CLIENT_READY \<noteq> CE_PING_FAIL"
  "CE_CLIENT_READY \<noteq> CE_CLIENT_DISCONNECTED"
  "CE_CLIENT_READY \<noteq> CE_DO_RECOVERY"
  "CE_CLIENT_READY \<noteq> CE_SHUTDOWN"
  "CE_CLIENT_READY \<noteq> CE_NETWORK_CHANGE"
  "CE_CLIENT_READY \<noteq> CE_START_LISTENING"
  "CE_CLIENT_READY \<noteq> CE_ABANDON_ENDPOINT"
  "CE_CLIENT_READY \<noteq> CE_COMPLETE_REQUEST"
  "CE_CLIENT_DISCONNECTED \<noteq> CE_DO_CONNECT"
  "CE_CLIENT_DISCONNECTED \<noteq> CE_RETRY_CONNECT"
  "CE_CLIENT_DISCONNECTED \<noteq> CE_PING_READY"
  "CE_CLIENT_DISCONNECTED \<noteq> CE_PING_FAIL"
  "CE_CLIENT_DISCONNECTED \<noteq> CE_CLIENT_READY"
  "CE_CLIENT_DISCONNECTED \<noteq> CE_DO_RECOVERY"
  "CE_CLIENT_DISCONNECTED \<noteq> CE_SHUTDOWN"
  "CE_CLIENT_DISCONNECTED \<noteq> CE_NETWORK_CHANGE"
  "CE_CLIENT_DISCONNECTED \<noteq> CE_START_LISTENING"
  "CE_CLIENT_DISCONNECTED \<noteq> CE_ABANDON_ENDPOINT"
  "CE_CLIENT_DISCONNECTED \<noteq> CE_COMPLETE_REQUEST"
  "CE_DO_RECOVERY \<noteq> CE_DO_CONNECT"
  "CE_DO_RECOVERY \<noteq> CE_RETRY_CONNECT"
  "CE_DO_RECOVERY \<noteq> CE_PING_READY"
  "CE_DO_RECOVERY \<noteq> CE_PING_FAIL"
  "CE_DO_RECOVERY \<noteq> CE_CLIENT_READY"
  "CE_DO_RECOVERY \<noteq> CE_CLIENT_DISCONNECTED"
  "CE_DO_RECOVERY \<noteq> CE_SHUTDOWN"
  "CE_DO_RECOVERY \<noteq> CE_NETWORK_CHANGE"
  "CE_DO_RECOVERY \<noteq> CE_START_LISTENING"
  "CE_DO_RECOVERY \<noteq> CE_ABANDON_ENDPOINT"
  "CE_DO_RECOVERY \<noteq> CE_COMPLETE_REQUEST"
  "CE_SHUTDOWN \<noteq> CE_DO_CONNECT"
  "CE_SHUTDOWN \<noteq> CE_RETRY_CONNECT"
  "CE_SHUTDOWN \<noteq> CE_PING_READY"
  "CE_SHUTDOWN \<noteq> CE_PING_FAIL"
  "CE_SHUTDOWN \<noteq> CE_CLIENT_READY"
  "CE_SHUTDOWN \<noteq> CE_CLIENT_DISCONNECTED"
  "CE_SHUTDOWN \<noteq> CE_DO_RECOVERY"
  "CE_SHUTDOWN \<noteq> CE_NETWORK_CHANGE"
  "CE_SHUTDOWN \<noteq> CE_START_LISTENING"
  "CE_SHUTDOWN \<noteq> CE_ABANDON_ENDPOINT"
  "CE_SHUTDOWN \<noteq> CE_COMPLETE_REQUEST"
  "CE_NETWORK_CHANGE \<noteq> CE_DO_CONNECT"
  "CE_NETWORK_CHANGE \<noteq> CE_RETRY_CONNECT"
  "CE_NETWORK_CHANGE \<noteq> CE_PING_READY"
  "CE_NETWORK_CHANGE \<noteq> CE_PING_FAIL"
  "CE_NETWORK_CHANGE \<noteq> CE_CLIENT_READY"
  "CE_NETWORK_CHANGE \<noteq> CE_CLIENT_DISCONNECTED"
  "CE_NETWORK_CHANGE \<noteq> CE_DO_RECOVERY"
  "CE_NETWORK_CHANGE \<noteq> CE_SHUTDOWN"
  "CE_NETWORK_CHANGE \<noteq> CE_START_LISTENING"
  "CE_NETWORK_CHANGE \<noteq> CE_ABANDON_ENDPOINT"
  "CE_NETWORK_CHANGE \<noteq> CE_COMPLETE_REQUEST"
  "CE_START_LISTENING \<noteq> CE_DO_CONNECT"
  "CE_START_LISTENING \<noteq> CE_RETRY_CONNECT"
  "CE_START_LISTENING \<noteq> CE_PING_READY"
  "CE_START_LISTENING \<noteq> CE_PING_FAIL"
  "CE_START_LISTENING \<noteq> CE_CLIENT_READY"
  "CE_START_LISTENING \<noteq> CE_CLIENT_DISCONNECTED"
  "CE_START_LISTENING \<noteq> CE_DO_RECOVERY"
  "CE_START_LISTENING \<noteq> CE_SHUTDOWN"
  "CE_START_LISTENING \<noteq> CE_NETWORK_CHANGE"
  "CE_START_LISTENING \<noteq> CE_ABANDON_ENDPOINT"
  "CE_START_LISTENING \<noteq> CE_COMPLETE_REQUEST"
  "CE_ABANDON_ENDPOINT \<noteq> CE_DO_CONNECT"
  "CE_ABANDON_ENDPOINT \<noteq> CE_RETRY_CONNECT"
  "CE_ABANDON_ENDPOINT \<noteq> CE_PING_READY"
  "CE_ABANDON_ENDPOINT \<noteq> CE_PING_FAIL"
  "CE_ABANDON_ENDPOINT \<noteq> CE_CLIENT_READY"
  "CE_ABANDON_ENDPOINT \<noteq> CE_CLIENT_DISCONNECTED"
  "CE_ABANDON_ENDPOINT \<noteq> CE_DO_RECOVERY"
  "CE_ABANDON_ENDPOINT \<noteq> CE_SHUTDOWN"
  "CE_ABANDON_ENDPOINT \<noteq> CE_NETWORK_CHANGE"
  "CE_ABANDON_ENDPOINT \<noteq> CE_START_LISTENING"
  "CE_ABANDON_ENDPOINT \<noteq> CE_COMPLETE_REQUEST"
  "CE_COMPLETE_REQUEST \<noteq> CE_DO_CONNECT"
  "CE_COMPLETE_REQUEST \<noteq> CE_RETRY_CONNECT"
  "CE_COMPLETE_REQUEST \<noteq> CE_PING_READY"
  "CE_COMPLETE_REQUEST \<noteq> CE_PING_FAIL"
  "CE_COMPLETE_REQUEST \<noteq> CE_CLIENT_READY"
  "CE_COMPLETE_REQUEST \<noteq> CE_CLIENT_DISCONNECTED"
  "CE_COMPLETE_REQUEST \<noteq> CE_DO_RECOVERY"
  "CE_COMPLETE_REQUEST \<noteq> CE_SHUTDOWN"
  "CE_COMPLETE_REQUEST \<noteq> CE_NETWORK_CHANGE"
  "CE_COMPLETE_REQUEST \<noteq> CE_START_LISTENING"
  "CE_COMPLETE_REQUEST \<noteq> CE_ABANDON_ENDPOINT"
  by (simp_all add: vpn_consts)

datatype client_connection_state = CLIS_DISCONNECTED | CLIS_CONNECTING | CLIS_CONNECTED

record recovery_time =
  start_ts :: time_point
  attempt_start_ts :: time_point
  between_attempts :: millis
  to_next :: millis

record recovery_info =
  rtime :: recovery_time
  rattempts :: u32
  rtask :: bool

definition fresh_time :: recovery_time where
  "fresh_time = \<lparr>start_ts = 0, attempt_start_ts = 0,
     between_attempts = VPN_DEFAULT_INITIAL_RECOVERY_INTERVAL_MS, to_next = 0\<rparr>"

definition fresh_recovery :: recovery_info where
  "fresh_recovery = \<lparr>rtime = fresh_time, rattempts = 0, rtask = False\<rparr>"

datatype connect_retry_info = ConnectSeveralAttempts (attempts_left: u64) | ConnectFallIntoRecovery

text \<open>The pinger: no object, an object that will report its result, an object that has reported.\<close>

datatype pinger_state = PingerNone | PingerRunning | PingerReported

datatype loop_state = LoopNull | LoopStopped | LoopRunning

datatype vpn_task =
    TaskFailedRecovery
  | TaskClientDisconnected
  | TaskRetryConnect
  | TaskListenFailed vpn_error
  | TaskConnect vpn_upstream_config connect_retry_info
  | TaskForceReconnect
  | TaskForceDisconnect bool
  | TaskStartListening listener_config
  | TaskShutdown
  | TaskCompleteRequest connect_request_result
  | TaskUpdateExclusions vpn_mode string
  | TaskResetConnections int
  | TaskNetworkChange vpn_network_state
  | TaskRequestStats
  | TaskSleep
  | TaskSleepCompletion
  | TaskWake
  | TaskAbandonEndpoint vpn_endpoint

datatype state_info =
    WaitingRecoveryInfo vpn_error u32
  | ConnectedInfo "(vpn_endpoint \<times> vpn_relay option) option"
  | ErrorInfo vpn_error

datatype vpn_effect =
    StateChanged "string option" fsm_state state_info
  | PingerStart u32 u32 "vpn_relay option"
  | PingerStop
  | StatsReport "vpn_error option"
  | DnsUpstreamUnavailable
  | SleepCompleted

record vpn =
  vpn_fsm :: fsm
  pending_error :: "vpn_error option"
  executor_joinable :: bool
  ev_loop :: loop_state
  stopping :: bool
  tasks :: "vpn_task list"
  recovery :: recovery_info
  upstream_config :: vpn_upstream_config
  selected_endpoint :: "(vpn_endpoint \<times> vpn_relay option) option"
  network_changed_before_recovery :: bool
  connected_once :: bool
  pinger :: pinger_state
  ping_failure_induces_location_unavailable :: bool
  client_state :: client_connection_state
  client :: vpn_client
  connect_retry_info :: connect_retry_info
  bypassed_connection_ids :: "u64 list"
  postponed_requests :: "connect_request_result list"
  postponement_window_timer :: bool
  update_exclusions_task :: bool
  out :: "vpn_effect list"
  faults :: "fault list"

record vpn_env =
  now :: time_point
  cenv :: client_env
  should_complete_immediately :: "u64 \<Rightarrow> bool"
  finalize_connect_action :: "connect_request_result \<Rightarrow> vpn_connect_action option"
  loop_created :: bool
  loop_started :: bool

text \<open>The data pointer of a transition.\<close>

datatype vpn_data =
    VNull
  | VErr vpn_error
  | VNet vpn_network_state
  | VListen listener_config
  | VReq connect_request_result

type_synonym vpn_input = "vpn_env \<times> vpn_data"

text \<open>
  A data pointer read as a \<open>VpnError *\<close>. Of a \<open>VpnNetworkState\<close> the code reads the first \<open>int\<close>,
  the enumerator. No listening arguments or request reach such a reading.
\<close>

definition as_error :: "vpn_data \<Rightarrow> vpn_error option" where
  "as_error d =
     (case d of
        VErr e \<Rightarrow> Some e
      | VNet VPN_NS_CONNECTED \<Rightarrow> Some (VpnError 0 [])
      | VNet VPN_NS_NOT_CONNECTED \<Rightarrow> Some (VpnError 1 [])
      | _ \<Rightarrow> None)"

section \<open>Helpers of the VPN object\<close>

definition v_emit :: "vpn_effect \<Rightarrow> vpn \<Rightarrow> vpn" where
  "v_emit x v = v\<lparr>out := out v @ [x]\<rparr>"

definition v_fault :: "fault \<Rightarrow> vpn \<Rightarrow> vpn" where
  "v_fault x v = v\<lparr>faults := faults v @ [x]\<rparr>"

definition v_client :: "(vpn_client \<Rightarrow> vpn_client) \<Rightarrow> vpn \<Rightarrow> vpn" where
  "v_client f v = v\<lparr>client := f (client v)\<rparr>"

definition submit :: "vpn_task \<Rightarrow> vpn \<Rightarrow> vpn" where
  "submit t v =
     (if ev_loop v = LoopNull then v_fault (NullDeref ''ev_loop'') v
      else v\<lparr>tasks := tasks v @ [t]\<rparr>)"

definition disconnect_client :: "vpn_env \<Rightarrow> vpn \<Rightarrow> vpn" where
  "disconnect_client env v =
     (case client_state v of
        CLIS_DISCONNECTED \<Rightarrow> v
      | _ \<Rightarrow> (v_client (client_disconnect (cenv env)) v)\<lparr>client_state := CLIS_DISCONNECTED\<rparr>)"

definition stop_pinging :: "vpn \<Rightarrow> vpn" where
  "stop_pinging v =
     (if pinger v \<noteq> PingerNone then (v_emit PingerStop v)\<lparr>pinger := PingerNone\<rparr> else v)
       \<lparr>ping_failure_induces_location_unavailable := False\<rparr>"

definition disconnect :: "vpn_env \<Rightarrow> vpn \<Rightarrow> vpn" where
  "disconnect env v = disconnect_client env (stop_pinging v)"

definition complete_postponed_requests :: "vpn \<Rightarrow> vpn" where
  "complete_postponed_requests v =
     (v_client (fold (\<lambda>r. client_complete_connect_request (req_id r) (action r)) (postponed_requests v)) v)
       \<lparr>postponed_requests := []\<rparr>"

definition reset_bypassed_connections :: "vpn \<Rightarrow> vpn" where
  "reset_bypassed_connections v =
     (v_client (fold client_reset_connection (bypassed_connection_ids v)) v)
       \<lparr>bypassed_connection_ids := []\<rparr>"

definition make_client_upstream_config :: "vpn \<Rightarrow> endpoint_connection_config option" where
  "make_client_upstream_config v =
     (case selected_endpoint v of
        None \<Rightarrow> None
      | Some (ep, relay) \<Rightarrow>
          (let endpoint = (case relay of
                             None \<Rightarrow> ep
                           | Some r \<Rightarrow> ep\<lparr>ep_address := rl_address r, ep_additional_data := rl_additional_data r\<rparr>)
           in Some \<lparr>ecc_main_protocol = (if quic_connector (client v) then VPN_UP_HTTP3 else VPN_UP_HTTP2),
                fallback_enabled = False,
                ecc_endpoint = endpoint,
                ecc_timeout = timeout_ms (upstream_config v),
                ecc_health_check_timeout = health_check_timeout_ms (upstream_config v),
                ecc_username = username (upstream_config v),
                ecc_password = password (upstream_config v),
                ip_v4_available = True,
                ip_v6_available = has_ipv6 endpoint,
                ecc_anti_dpi = anti_dpi (upstream_config v)\<rparr>))"

section \<open>Recovery\<close>

text \<open>
  \<open>initiate_recovery\<close>: a task that fails the recovery when the attempts are used up; otherwise the
  next attempt is scheduled after what is left of the interval, the interval grows by the backoff
  rate, and the times start afresh once the recovery has lasted for the location update period.
\<close>

definition recovery_elapsed :: "time_point \<Rightarrow> recovery_time \<Rightarrow> millis" where
  "recovery_elapsed t rt =
     (if start_ts rt \<noteq> 0 then max (duration_cast_millis (t - attempt_start_ts rt)) 0 else 0)"

definition recovery_time_to_next :: "time_point \<Rightarrow> recovery_time \<Rightarrow> millis" where
  "recovery_time_to_next t rt =
     (let elapsed = recovery_elapsed t rt
      in if elapsed \<le> between_attempts rt then between_attempts rt - elapsed else 0)"

definition next_recovery_time :: "time_point \<Rightarrow> recovery_settings \<Rightarrow> recovery_time \<Rightarrow> recovery_time" where
  "next_recovery_time t cfg rt =
     (let time_to_next = recovery_time_to_next t rt;
          rt1 = (if start_ts rt \<noteq> 0 then rt else rt\<lparr>start_ts := t\<rparr>);
          rt2 = rt1\<lparr>between_attempts := scale_millis (between_attempts rt1) (backoff_rate cfg)\<rparr>;
          next_attempt_ts = t + ns_of_millis time_to_next;
          rt3 = (if ns_of_millis (uint (location_update_period_ms cfg)) \<le> next_attempt_ts - start_ts rt2
                 then fresh_time else rt2)
      in rt3\<lparr>to_next := time_to_next\<rparr>)"

definition initiate_recovery :: "vpn_env \<Rightarrow> vpn \<Rightarrow> vpn" where
  "initiate_recovery env v =
     (if rs_attempts (recovery_cfg (upstream_config v)) \<le> rattempts (recovery v)
      then submit TaskFailedRecovery v
      else
        (let v1 = (if start_ts (rtime (recovery v)) \<noteq> 0 then v else v\<lparr>postponement_window_timer := True\<rparr>)
         in v1\<lparr>recovery := \<lparr>
              rtime = next_recovery_time (now env) (recovery_cfg (upstream_config v)) (rtime (recovery v)),
              rattempts = rattempts (recovery v) + 1,
              rtask = True\<rparr>\<rparr>))"

section \<open>Conditions\<close>

definition is_fatal_error_code :: "int \<Rightarrow> bool" where
  "is_fatal_error_code code \<longleftrightarrow>
     code = VPN_EC_AUTH_REQUIRED \<or> code = VPN_EC_LOCATION_UNAVAILABLE \<or>
     code = VPN_EC_CERTIFICATE_VERIFICATION_FAILED \<or> code = VPN_EC_CERTIFICATE_NOT_YET_VALID"

definition error_code_of :: "vpn_error option \<Rightarrow> int" where
  "error_code_of e = (case e of None \<Rightarrow> VPN_EC_NOERROR | Some x \<Rightarrow> ec x)"

definition is_fatal_error :: "fsm_state \<Rightarrow> vpn \<Rightarrow> vpn_input \<Rightarrow> bool" where
  "is_fatal_error st v x \<longleftrightarrow>
     (case as_error (snd x) of None \<Rightarrow> False | Some e \<Rightarrow> is_fatal_error_code (ec e)) \<or>
     is_fatal_error_code (error_code_of (pending_error v))"

definition need_to_ping_on_recovery :: "fsm_state \<Rightarrow> vpn \<Rightarrow> vpn_input \<Rightarrow> bool" where
  "need_to_ping_on_recovery st v x \<longleftrightarrow>
     selected_endpoint v = None \<or> network_changed_before_recovery v \<or>
     ns_of_millis (uint (location_update_period_ms (recovery_cfg (upstream_config v))))
       \<le> now (fst x) - start_ts (rtime (recovery v))"

definition fall_into_recovery :: "fsm_state \<Rightarrow> vpn \<Rightarrow> vpn_input \<Rightarrow> bool" where
  "fall_into_recovery st v x \<longleftrightarrow> connect_retry_info v = ConnectFallIntoRecovery"

definition no_connect_attempts :: "fsm_state \<Rightarrow> vpn \<Rightarrow> vpn_input \<Rightarrow> bool" where
  "no_connect_attempts st v x \<longleftrightarrow> connect_retry_info v = ConnectSeveralAttempts 0"

definition network_lost :: "fsm_state \<Rightarrow> vpn \<Rightarrow> vpn_input \<Rightarrow> bool" where
  "network_lost st v x \<longleftrightarrow> snd x = VNet VPN_NS_NOT_CONNECTED"

definition was_connected_once :: "fsm_state \<Rightarrow> vpn \<Rightarrow> vpn_input \<Rightarrow> bool" where
  "was_connected_once st v x \<longleftrightarrow> connected_once v"

definition can_complete :: "fsm_state \<Rightarrow> vpn \<Rightarrow> vpn_input \<Rightarrow> bool" where
  "can_complete st v x \<longleftrightarrow>
     (case snd x of
        VReq r \<Rightarrow>
          action r = Some VPN_CA_FORCE_BYPASS \<or>
          st = VPN_SS_CONNECTED \<or> st = VPN_SS_CONNECTING \<or> st = VPN_SS_DISCONNECTED \<or>
          st = VPN_SS_WAITING_FOR_NETWORK \<or> should_complete_immediately (fst x) (req_id r)
      | _ \<Rightarrow> False)"

definition is_kill_switch_on :: "fsm_state \<Rightarrow> vpn \<Rightarrow> vpn_input \<Rightarrow> bool" where
  "is_kill_switch_on st v x \<longleftrightarrow> kill_switch_on (client v)"

definition should_postpone :: "fsm_state \<Rightarrow> vpn \<Rightarrow> vpn_input \<Rightarrow> bool" where
  "should_postpone st v x \<longleftrightarrow> postponement_window_timer v"

section \<open>Actions\<close>

definition run_client_connect :: "millis option \<Rightarrow> vpn_env \<Rightarrow> vpn \<Rightarrow> vpn" where
  "run_client_connect timeout env v =
     (case make_client_upstream_config v of
        None \<Rightarrow> v_fault (NullDeref ''selected_endpoint'') v
      | Some cfg \<Rightarrow>
          (let (e, c) = client_connect cfg timeout (cenv env) (client v);
               v1 = v\<lparr>client := c\<rparr>
           in if ec e = VPN_EC_NOERROR
              then v1\<lparr>client_state := CLIS_CONNECTING, pending_error := None\<rparr>
              else submit TaskClientDisconnected (v1\<lparr>pending_error := Some e\<rparr>)))"

definition run_ping :: "fsm_state \<Rightarrow> vpn \<Rightarrow> vpn_input \<Rightarrow> vpn" where
  "run_ping st v x =
     (let v1 = stop_pinging v;
          cfg = upstream_config v1;
          quic_max_idle_timeout = 2 * (timeout_ms cfg + health_check_timeout_ms cfg);
          relay_parallel = (case selected_endpoint v1 of
                              Some (_, Some r) \<Rightarrow> if start_ts (rtime (recovery v1)) \<noteq> 0 then Some r else None
                            | _ \<Rightarrow> None);
          v2 = (v_emit (PingerStart (location_ping_timeout_ms cfg) quic_max_idle_timeout relay_parallel) v1)
                 \<lparr>pinger := PingerRunning, pending_error := None, selected_endpoint := None\<rparr>
      in if rtask (recovery v2)
         then v2\<lparr>recovery := (recovery v2)\<lparr>rtask := False,
                  rtime := (rtime (recovery v2))\<lparr>attempt_start_ts := now (fst x)\<rparr>\<rparr>\<rparr>
         else v2)"

definition connect_client :: "fsm_state \<Rightarrow> vpn \<Rightarrow> vpn_input \<Rightarrow> vpn" where
  "connect_client st v x = run_client_connect None (fst x) v"

definition take_error :: "vpn_data \<Rightarrow> vpn \<Rightarrow> vpn_error option" where
  "take_error d v =
     (case as_error d of
        Some e \<Rightarrow> if pending_error v = None \<and> ec e \<noteq> VPN_EC_NOERROR then Some e else None
      | None \<Rightarrow> None)"

definition complete_connect :: "fsm_state \<Rightarrow> vpn \<Rightarrow> vpn_input \<Rightarrow> vpn" where
  "complete_connect st v x =
     (let v1 = (case take_error (snd x) v of
                  Some e \<Rightarrow> (disconnect (fst x) v)\<lparr>pending_error := Some e\<rparr>
                | None \<Rightarrow> v);
          v2 = (if pending_error v1 \<noteq> None \<and> \<not> is_fatal_error st v1 x \<and> no_connect_attempts st v1 x
                then v1\<lparr>pending_error := Some (VpnError VPN_EC_INITIAL_CONNECT_FAILED
                       ''Number of connection attempts exceeded'')\<rparr>
                else v1);
          v3 = v2\<lparr>recovery := fresh_recovery\<rparr>
      in if pending_error v3 = None then v_client client_do_health_check v3 else v3)"

definition fail_connect_with_no_attempts :: "fsm_state \<Rightarrow> vpn \<Rightarrow> vpn_input \<Rightarrow> vpn" where
  "fail_connect_with_no_attempts st v x =
     complete_connect st v (fst x, VErr (VpnError VPN_EC_INITIAL_CONNECT_FAILED
       ''Number of connection attempts exceeded''))"

definition retry_connect :: "fsm_state \<Rightarrow> vpn \<Rightarrow> vpn_input \<Rightarrow> vpn" where
  "retry_connect st v x =
     (let v1 = (case connect_retry_info v of
                  ConnectSeveralAttempts n \<Rightarrow> v\<lparr>connect_retry_info := ConnectSeveralAttempts (n - 1)\<rparr>
                | ConnectFallIntoRecovery \<Rightarrow> v_fault (AssertFailed ''retry_connect'') v)
      in submit TaskRetryConnect (disconnect (fst x) v1))"

definition prepare_for_recovery :: "fsm_state \<Rightarrow> vpn \<Rightarrow> vpn_input \<Rightarrow> vpn" where
  "prepare_for_recovery st v x =
     (let v1 = initiate_recovery (fst x) (disconnect (fst x) v)
      in case take_error (snd x) v1 of Some e \<Rightarrow> v1\<lparr>pending_error := Some e\<rparr> | None \<Rightarrow> v1)"

definition prepare_for_recovery_nc :: "fsm_state \<Rightarrow> vpn \<Rightarrow> vpn_input \<Rightarrow> vpn" where
  "prepare_for_recovery_nc st v x = prepare_for_recovery st v (fst x, VNull)"

definition reconnect_client :: "fsm_state \<Rightarrow> vpn \<Rightarrow> vpn_input \<Rightarrow> vpn" where
  "reconnect_client st v x =
     run_client_connect
       (Some (min (between_attempts (rtime (recovery v))) (uint (timeout_ms (upstream_config v)))))
       (fst x) (disconnect_client (fst x) v)"

definition finalize_recovery :: "fsm_state \<Rightarrow> vpn \<Rightarrow> vpn_input \<Rightarrow> vpn" where
  "finalize_recovery st v x =
     (let v1 = v_client client_update_bypass_ip_availability v;
          v2 = stop_pinging (v1\<lparr>recovery := fresh_recovery\<rparr>);
          v3 = v2\<lparr>postponement_window_timer := False\<rparr>
      in reset_bypassed_connections (complete_postponed_requests v3))"

definition do_disconnect :: "fsm_state \<Rightarrow> vpn \<Rightarrow> vpn_input \<Rightarrow> vpn" where
  "do_disconnect st v x = disconnect (fst x) (v\<lparr>recovery := fresh_recovery\<rparr>)"

definition start_listening :: "fsm_state \<Rightarrow> vpn \<Rightarrow> vpn_input \<Rightarrow> vpn" where
  "start_listening st v x =
     (case snd x of
        VListen cfg \<Rightarrow>
          (let (e, c) = client_listen cfg (cenv (fst x)) (client v);
               v1 = v\<lparr>client := c\<rparr>
           in if ec e \<noteq> VPN_EC_NOERROR then submit (TaskListenFailed e) v1 else v1)
      | _ \<Rightarrow> v_fault (NullDeref ''StartListeningArgs'') v)"

definition on_wrong_connect_state :: "fsm_state \<Rightarrow> vpn \<Rightarrow> vpn_input \<Rightarrow> vpn" where
  "on_wrong_connect_state st v x =
     (disconnect (fst x) v)\<lparr>pending_error := Some (VpnError VPN_EC_INVALID_STATE ''Invalid state for connecting'')\<rparr>"

definition on_wrong_listen_state :: "fsm_state \<Rightarrow> vpn \<Rightarrow> vpn_input \<Rightarrow> vpn" where
  "on_wrong_listen_state st v x = v"

definition raise_state :: "fsm_state \<Rightarrow> vpn \<Rightarrow> vpn_input \<Rightarrow> vpn" where
  "raise_state st v x =
     (let loc = location_id (location (upstream_config v));
          err = (case pending_error v of None \<Rightarrow> no_error | Some e \<Rightarrow> e)
      in if st = VPN_SS_WAITING_RECOVERY
         then v_emit (StateChanged loc st (WaitingRecoveryInfo err (word_of_int (to_next (rtime (recovery v))))))
                (v\<lparr>pending_error := None\<rparr>)
         else if st = VPN_SS_CONNECTED
         then (let v1 = v\<lparr>connected_once := True\<rparr>;
                   v2 = (if endpoint_upstream (client v1) then v1
                         else v_fault (NullDeref ''endpoint_upstream'') v1);
                   v3 = (if selected_endpoint v2 = None then v_fault (NullDeref ''selected_endpoint'') v2 else v2)
               in v_emit (StateChanged loc st (ConnectedInfo (selected_endpoint v3))) v3)
         else
           (let v1 = (if st \<noteq> VPN_SS_WAITING_FOR_NETWORK then v\<lparr>network_changed_before_recovery := False\<rparr> else v)
            in v_emit (StateChanged loc st (ErrorInfo err)) (v1\<lparr>pending_error := None\<rparr>)))"

definition on_request :: "(connect_request_result \<Rightarrow> vpn \<Rightarrow> vpn) \<Rightarrow> fsm_state \<Rightarrow> vpn \<Rightarrow> vpn_input \<Rightarrow> vpn" where
  "on_request f st v x =
     (case snd x of VReq r \<Rightarrow> f r v | _ \<Rightarrow> v_fault (NullDeref ''ConnectRequestResult'') v)"

definition complete_request :: "fsm_state \<Rightarrow> vpn \<Rightarrow> vpn_input \<Rightarrow> vpn" where
  "complete_request = on_request (\<lambda>r. v_client (client_complete_connect_request (req_id r) (action r)))"

definition reject_request :: "fsm_state \<Rightarrow> vpn \<Rightarrow> vpn_input \<Rightarrow> vpn" where
  "reject_request = on_request (\<lambda>r. v_client (client_reject_connect_request (req_id r)))"

definition bypass_until_connected :: "fsm_state \<Rightarrow> vpn \<Rightarrow> vpn_input \<Rightarrow> vpn" where
  "bypass_until_connected =
     on_request (\<lambda>r v. v_client (client_complete_connect_request (req_id r) (Some VPN_CA_FORCE_BYPASS))
       (v\<lparr>bypassed_connection_ids := bypassed_connection_ids v @ [req_id r]\<rparr>))"

definition postpone_request :: "fsm_state \<Rightarrow> vpn \<Rightarrow> vpn_input \<Rightarrow> vpn" where
  "postpone_request = on_request (\<lambda>r v. v\<lparr>postponed_requests := postponed_requests v @ [r]\<rparr>)"

text \<open>\<open>postponement_window_timer_cb\<close>, which the timer runs outside the table.\<close>

definition expire_postponed :: "connect_request_result \<Rightarrow> vpn \<Rightarrow> vpn" where
  "expire_postponed r v =
     (if kill_switch_on (client v)
      then v_client (client_reject_connect_request (req_id r)) v
      else (v_client (client_complete_connect_request (req_id r) (Some VPN_CA_FORCE_BYPASS)) v)
             \<lparr>bypassed_connection_ids := bypassed_connection_ids v @ [req_id r]\<rparr>)"

definition postponement_window_timer_cb :: "vpn \<Rightarrow> vpn" where
  "postponement_window_timer_cb v =
     (fold expire_postponed (postponed_requests v) (v\<lparr>postponement_window_timer := False\<rparr>))
       \<lparr>postponed_requests := []\<rparr>"

section \<open>Transition table\<close>

type_synonym vpn_entry = "(vpn, vpn_input) fsm_entry"

definition vpn_row ::
  "fsm_state \<Rightarrow> fsm_event \<Rightarrow> (fsm_state \<Rightarrow> vpn \<Rightarrow> vpn_input \<Rightarrow> bool) option \<Rightarrow>
     (fsm_state \<Rightarrow> vpn \<Rightarrow> vpn_input \<Rightarrow> vpn) option \<Rightarrow> fsm_state \<Rightarrow>
     (fsm_state \<Rightarrow> vpn \<Rightarrow> vpn_input \<Rightarrow> vpn) option \<Rightarrow> vpn_entry" where
  "vpn_row s e cond bef t after =
     \<lparr>src_state = s, event = e, condition = cond, before_transition = bef,
      target_state = t, after_transition = after\<rparr>"

definition vpn_table :: "vpn_entry list" where
  "vpn_table =
    [vpn_row VPN_SS_DISCONNECTED CE_DO_CONNECT None (Some run_ping) VPN_SS_CONNECTING (Some raise_state),
     vpn_row VPN_SS_DISCONNECTED CE_CLIENT_DISCONNECTED None None SAME_TARGET_STATE None,
     vpn_row VPN_SS_DISCONNECTED CE_SHUTDOWN None (Some do_disconnect) SAME_TARGET_STATE None,
     vpn_row VPN_SS_DISCONNECTED CE_START_LISTENING None (Some on_wrong_listen_state) SAME_TARGET_STATE None,
     vpn_row VPN_SS_DISCONNECTED CE_NETWORK_CHANGE None None SAME_TARGET_STATE None,

     vpn_row VPN_SS_CONNECTING CE_RETRY_CONNECT None (Some run_ping) SAME_TARGET_STATE None,
     vpn_row VPN_SS_CONNECTING CE_PING_READY None (Some connect_client) SAME_TARGET_STATE None,
     vpn_row VPN_SS_CONNECTING CE_PING_FAIL (Some is_fatal_error) (Some complete_connect) VPN_SS_DISCONNECTED (Some raise_state),
     vpn_row VPN_SS_CONNECTING CE_PING_FAIL (Some fall_into_recovery) (Some prepare_for_recovery) VPN_SS_WAITING_RECOVERY (Some raise_state),
     vpn_row VPN_SS_CONNECTING CE_PING_FAIL (Some no_connect_attempts) (Some complete_connect) VPN_SS_DISCONNECTED (Some raise_state),
     vpn_row VPN_SS_CONNECTING CE_PING_FAIL None (Some retry_connect) SAME_TARGET_STATE None,
     vpn_row VPN_SS_CONNECTING CE_CLIENT_READY None (Some complete_connect) VPN_SS_CONNECTED (Some raise_state),
     vpn_row VPN_SS_CONNECTING CE_CLIENT_DISCONNECTED (Some is_fatal_error) (Some complete_connect) VPN_SS_DISCONNECTED (Some raise_state),
     vpn_row VPN_SS_CONNECTING CE_CLIENT_DISCONNECTED (Some fall_into_recovery) (Some prepare_for_recovery) VPN_SS_WAITING_RECOVERY (Some raise_state),
     vpn_row VPN_SS_CONNECTING CE_CLIENT_DISCONNECTED (Some no_connect_attempts) (Some complete_connect) VPN_SS_DISCONNECTED (Some raise_state),
     vpn_row VPN_SS_CONNECTING CE_CLIENT_DISCONNECTED None (Some retry_connect) SAME_TARGET_STATE None,
     vpn_row VPN_SS_CONNECTING CE_ABANDON_ENDPOINT (Some is_fatal_error) (Some complete_connect) VPN_SS_DISCONNECTED (Some raise_state),
     vpn_row VPN_SS_CONNECTING CE_ABANDON_ENDPOINT None (Some retry_connect) SAME_TARGET_STATE None,
     vpn_row VPN_SS_CONNECTING CE_NETWORK_CHANGE (Some no_connect_attempts) (Some fail_connect_with_no_attempts) VPN_SS_DISCONNECTED (Some raise_state),
     vpn_row VPN_SS_CONNECTING CE_NETWORK_CHANGE (Some network_lost) (Some do_disconnect) VPN_SS_WAITING_FOR_NETWORK (Some raise_state),
     vpn_row VPN_SS_CONNECTING CE_NETWORK_CHANGE (Some fall_into_recovery) (Some prepare_for_recovery) VPN_SS_WAITING_RECOVERY (Some raise_state),
     vpn_row VPN_SS_CONNECTING CE_NETWORK_CHANGE None (Some retry_connect) SAME_TARGET_STATE None,

     vpn_row VPN_SS_CONNECTED CE_NETWORK_CHANGE (Some network_lost) (Some do_disconnect) VPN_SS_WAITING_FOR_NETWORK (Some raise_state),
     vpn_row VPN_SS_CONNECTED CE_NETWORK_CHANGE None (Some prepare_for_recovery_nc) VPN_SS_WAITING_RECOVERY (Some raise_state),
     vpn_row VPN_SS_CONNECTED CE_ABANDON_ENDPOINT (Some is_fatal_error) (Some do_disconnect) VPN_SS_DISCONNECTED (Some raise_state),
     vpn_row VPN_SS_CONNECTED CE_ABANDON_ENDPOINT None (Some prepare_for_recovery) VPN_SS_WAITING_RECOVERY (Some raise_state),

     vpn_row VPN_SS_WAITING_RECOVERY CE_NETWORK_CHANGE (Some network_lost) (Some do_disconnect) VPN_SS_WAITING_FOR_NETWORK (Some raise_state),
     vpn_row VPN_SS_WAITING_RECOVERY CE_NETWORK_CHANGE None (Some run_ping) VPN_SS_RECOVERING (Some raise_state),
     vpn_row VPN_SS_WAITING_RECOVERY CE_DO_RECOVERY (Some need_to_ping_on_recovery) (Some run_ping) VPN_SS_RECOVERING (Some raise_state),
     vpn_row VPN_SS_WAITING_RECOVERY CE_DO_RECOVERY None (Some connect_client) VPN_SS_RECOVERING (Some raise_state),
     vpn_row VPN_SS_WAITING_RECOVERY CE_CLIENT_DISCONNECTED (Some is_fatal_error) (Some do_disconnect) VPN_SS_DISCONNECTED (Some raise_state),
     vpn_row VPN_SS_WAITING_RECOVERY CE_CLIENT_DISCONNECTED None None SAME_TARGET_STATE None,
     vpn_row VPN_SS_WAITING_RECOVERY CE_ABANDON_ENDPOINT (Some is_fatal_error) (Some do_disconnect) VPN_SS_DISCONNECTED (Some raise_state),

     vpn_row VPN_SS_RECOVERING CE_NETWORK_CHANGE (Some network_lost) (Some do_disconnect) VPN_SS_WAITING_FOR_NETWORK (Some raise_state),
     vpn_row VPN_SS_RECOVERING CE_NETWORK_CHANGE None (Some prepare_for_recovery_nc) VPN_SS_WAITING_RECOVERY (Some raise_state),
     vpn_row VPN_SS_RECOVERING CE_PING_READY None (Some reconnect_client) SAME_TARGET_STATE None,
     vpn_row VPN_SS_RECOVERING CE_PING_FAIL (Some is_fatal_error) (Some do_disconnect) VPN_SS_DISCONNECTED (Some raise_state),
     vpn_row VPN_SS_RECOVERING CE_PING_FAIL None (Some prepare_for_recovery) VPN_SS_WAITING_RECOVERY (Some raise_state),
     vpn_row VPN_SS_RECOVERING CE_CLIENT_READY None (Some finalize_recovery) VPN_SS_CONNECTED (Some raise_state),
     vpn_row VPN_SS_RECOVERING CE_ABANDON_ENDPOINT (Some is_fatal_error) (Some do_disconnect) VPN_SS_DISCONNECTED (Some raise_state),
     vpn_row VPN_SS_RECOVERING CE_ABANDON_ENDPOINT None (Some prepare_for_recovery) VPN_SS_WAITING_RECOVERY (Some raise_state),

     vpn_row VPN_SS_WAITING_FOR_NETWORK CE_NETWORK_CHANGE (Some network_lost) None SAME_TARGET_STATE None,
     vpn_row VPN_SS_WAITING_FOR_NETWORK CE_NETWORK_CHANGE (Some was_connected_once) (Some prepare_for_recovery_nc) VPN_SS_WAITING_RECOVERY (Some raise_state),
     vpn_row VPN_SS_WAITING_FOR_NETWORK CE_NETWORK_CHANGE (Some no_connect_attempts) (Some fail_connect_with_no_attempts) VPN_SS_DISCONNECTED (Some raise_state),
     vpn_row VPN_SS_WAITING_FOR_NETWORK CE_NETWORK_CHANGE None (Some retry_connect) VPN_SS_CONNECTING (Some raise_state),

     vpn_row ANY_SOURCE_STATE CE_CLIENT_DISCONNECTED (Some is_fatal_error) (Some do_disconnect) VPN_SS_DISCONNECTED (Some raise_state),
     vpn_row ANY_SOURCE_STATE CE_CLIENT_DISCONNECTED None (Some prepare_for_recovery) VPN_SS_WAITING_RECOVERY (Some raise_state),
     vpn_row ANY_SOURCE_STATE CE_SHUTDOWN None (Some do_disconnect) VPN_SS_DISCONNECTED (Some raise_state),
     vpn_row ANY_SOURCE_STATE CE_DO_CONNECT None (Some on_wrong_connect_state) VPN_SS_DISCONNECTED (Some raise_state),
     vpn_row ANY_SOURCE_STATE CE_START_LISTENING None (Some start_listening) SAME_TARGET_STATE None,

     vpn_row ANY_SOURCE_STATE CE_COMPLETE_REQUEST (Some can_complete) (Some complete_request) SAME_TARGET_STATE None,
     vpn_row ANY_SOURCE_STATE CE_COMPLETE_REQUEST (Some should_postpone) (Some postpone_request) SAME_TARGET_STATE None,
     vpn_row ANY_SOURCE_STATE CE_COMPLETE_REQUEST (Some is_kill_switch_on) (Some reject_request) SAME_TARGET_STATE None,
     vpn_row ANY_SOURCE_STATE CE_COMPLETE_REQUEST None (Some bypass_until_connected) SAME_TARGET_STATE None]"

definition vpn_params :: "(vpn, vpn_input) fsm_params" where
  "vpn_params = \<lparr>initial_state = VPN_SS_DISCONNECTED, table = vpn_table\<rparr>"

definition vpn_transition :: "fsm_event \<Rightarrow> vpn_env \<Rightarrow> vpn_data \<Rightarrow> vpn \<Rightarrow> vpn" where
  "vpn_transition ev env d v =
     (let (f, v') = perform_transition vpn_params ev (env, d) (vpn_fsm v, v)
      in v'\<lparr>vpn_fsm := f\<rparr>)"

definition session_state :: "vpn \<Rightarrow> fsm_state" where
  "session_state v = get_state (vpn_fsm v)"

section \<open>Frames\<close>

text \<open>The fields that each helper and action leaves alone, and what it makes of the others.\<close>

lemma v_emit_frame [simp]:
  "vpn_fsm (v_emit x v) = vpn_fsm v"
  "pending_error (v_emit x v) = pending_error v"
  "executor_joinable (v_emit x v) = executor_joinable v"
  "ev_loop (v_emit x v) = ev_loop v"
  "stopping (v_emit x v) = stopping v"
  "tasks (v_emit x v) = tasks v"
  "recovery (v_emit x v) = recovery v"
  "upstream_config (v_emit x v) = upstream_config v"
  "selected_endpoint (v_emit x v) = selected_endpoint v"
  "network_changed_before_recovery (v_emit x v) = network_changed_before_recovery v"
  "connected_once (v_emit x v) = connected_once v"
  "pinger (v_emit x v) = pinger v"
  "ping_failure_induces_location_unavailable (v_emit x v) = ping_failure_induces_location_unavailable v"
  "client_state (v_emit x v) = client_state v"
  "client (v_emit x v) = client v"
  "connect_retry_info (v_emit x v) = connect_retry_info v"
  "bypassed_connection_ids (v_emit x v) = bypassed_connection_ids v"
  "postponed_requests (v_emit x v) = postponed_requests v"
  "postponement_window_timer (v_emit x v) = postponement_window_timer v"
  "update_exclusions_task (v_emit x v) = update_exclusions_task v"
  "faults (v_emit x v) = faults v"
  by (simp_all add: v_emit_def)

lemma v_fault_frame [simp]:
  "vpn_fsm (v_fault x v) = vpn_fsm v"
  "pending_error (v_fault x v) = pending_error v"
  "executor_joinable (v_fault x v) = executor_joinable v"
  "ev_loop (v_fault x v) = ev_loop v"
  "stopping (v_fault x v) = stopping v"
  "tasks (v_fault x v) = tasks v"
  "recovery (v_fault x v) = recovery v"
  "upstream_config (v_fault x v) = upstream_config v"
  "selected_endpoint (v_fault x v) = selected_endpoint v"
  "network_changed_before_recovery (v_fault x v) = network_changed_before_recovery v"
  "connected_once (v_fault x v) = connected_once v"
  "pinger (v_fault x v) = pinger v"
  "ping_failure_induces_location_unavailable (v_fault x v) = ping_failure_induces_location_unavailable v"
  "client_state (v_fault x v) = client_state v"
  "client (v_fault x v) = client v"
  "connect_retry_info (v_fault x v) = connect_retry_info v"
  "bypassed_connection_ids (v_fault x v) = bypassed_connection_ids v"
  "postponed_requests (v_fault x v) = postponed_requests v"
  "postponement_window_timer (v_fault x v) = postponement_window_timer v"
  "update_exclusions_task (v_fault x v) = update_exclusions_task v"
  "out (v_fault x v) = out v"
  by (simp_all add: v_fault_def)

lemma v_client_frame [simp]:
  "vpn_fsm (v_client f v) = vpn_fsm v"
  "pending_error (v_client f v) = pending_error v"
  "executor_joinable (v_client f v) = executor_joinable v"
  "ev_loop (v_client f v) = ev_loop v"
  "stopping (v_client f v) = stopping v"
  "tasks (v_client f v) = tasks v"
  "recovery (v_client f v) = recovery v"
  "upstream_config (v_client f v) = upstream_config v"
  "selected_endpoint (v_client f v) = selected_endpoint v"
  "network_changed_before_recovery (v_client f v) = network_changed_before_recovery v"
  "connected_once (v_client f v) = connected_once v"
  "pinger (v_client f v) = pinger v"
  "ping_failure_induces_location_unavailable (v_client f v) = ping_failure_induces_location_unavailable v"
  "client_state (v_client f v) = client_state v"
  "connect_retry_info (v_client f v) = connect_retry_info v"
  "bypassed_connection_ids (v_client f v) = bypassed_connection_ids v"
  "postponed_requests (v_client f v) = postponed_requests v"
  "postponement_window_timer (v_client f v) = postponement_window_timer v"
  "update_exclusions_task (v_client f v) = update_exclusions_task v"
  "out (v_client f v) = out v"
  "faults (v_client f v) = faults v"
  by (simp_all add: v_client_def)

lemma v_client_client [simp]: "client (v_client f v) = f (client v)"
  by (simp add: v_client_def)

lemma submit_frame [simp]:
  "vpn_fsm (submit t v) = vpn_fsm v"
  "pending_error (submit t v) = pending_error v"
  "executor_joinable (submit t v) = executor_joinable v"
  "ev_loop (submit t v) = ev_loop v"
  "stopping (submit t v) = stopping v"
  "recovery (submit t v) = recovery v"
  "upstream_config (submit t v) = upstream_config v"
  "selected_endpoint (submit t v) = selected_endpoint v"
  "network_changed_before_recovery (submit t v) = network_changed_before_recovery v"
  "connected_once (submit t v) = connected_once v"
  "pinger (submit t v) = pinger v"
  "ping_failure_induces_location_unavailable (submit t v) = ping_failure_induces_location_unavailable v"
  "client_state (submit t v) = client_state v"
  "client (submit t v) = client v"
  "connect_retry_info (submit t v) = connect_retry_info v"
  "bypassed_connection_ids (submit t v) = bypassed_connection_ids v"
  "postponed_requests (submit t v) = postponed_requests v"
  "postponement_window_timer (submit t v) = postponement_window_timer v"
  "update_exclusions_task (submit t v) = update_exclusions_task v"
  "out (submit t v) = out v"
  by (simp_all add: submit_def)

lemma submit_tasks [simp]: "ev_loop v \<noteq> LoopNull \<Longrightarrow> tasks (submit t v) = tasks v @ [t]"
  by (simp add: submit_def)

lemma disconnect_client_frame [simp]:
  "vpn_fsm (disconnect_client env v) = vpn_fsm v"
  "pending_error (disconnect_client env v) = pending_error v"
  "executor_joinable (disconnect_client env v) = executor_joinable v"
  "ev_loop (disconnect_client env v) = ev_loop v"
  "stopping (disconnect_client env v) = stopping v"
  "tasks (disconnect_client env v) = tasks v"
  "recovery (disconnect_client env v) = recovery v"
  "upstream_config (disconnect_client env v) = upstream_config v"
  "selected_endpoint (disconnect_client env v) = selected_endpoint v"
  "network_changed_before_recovery (disconnect_client env v) = network_changed_before_recovery v"
  "connected_once (disconnect_client env v) = connected_once v"
  "pinger (disconnect_client env v) = pinger v"
  "ping_failure_induces_location_unavailable (disconnect_client env v) = ping_failure_induces_location_unavailable v"
  "connect_retry_info (disconnect_client env v) = connect_retry_info v"
  "bypassed_connection_ids (disconnect_client env v) = bypassed_connection_ids v"
  "postponed_requests (disconnect_client env v) = postponed_requests v"
  "postponement_window_timer (disconnect_client env v) = postponement_window_timer v"
  "update_exclusions_task (disconnect_client env v) = update_exclusions_task v"
  "out (disconnect_client env v) = out v"
  "faults (disconnect_client env v) = faults v"
  by (simp_all add: disconnect_client_def split: client_connection_state.split)

lemma stop_pinging_frame [simp]:
  "vpn_fsm (stop_pinging v) = vpn_fsm v"
  "pending_error (stop_pinging v) = pending_error v"
  "executor_joinable (stop_pinging v) = executor_joinable v"
  "ev_loop (stop_pinging v) = ev_loop v"
  "stopping (stop_pinging v) = stopping v"
  "tasks (stop_pinging v) = tasks v"
  "recovery (stop_pinging v) = recovery v"
  "upstream_config (stop_pinging v) = upstream_config v"
  "selected_endpoint (stop_pinging v) = selected_endpoint v"
  "network_changed_before_recovery (stop_pinging v) = network_changed_before_recovery v"
  "connected_once (stop_pinging v) = connected_once v"
  "client_state (stop_pinging v) = client_state v"
  "client (stop_pinging v) = client v"
  "connect_retry_info (stop_pinging v) = connect_retry_info v"
  "bypassed_connection_ids (stop_pinging v) = bypassed_connection_ids v"
  "postponed_requests (stop_pinging v) = postponed_requests v"
  "postponement_window_timer (stop_pinging v) = postponement_window_timer v"
  "update_exclusions_task (stop_pinging v) = update_exclusions_task v"
  "faults (stop_pinging v) = faults v"
  by (simp_all add: stop_pinging_def)

lemma stop_pinging_pinger [simp]: "pinger (stop_pinging v) = PingerNone"
  by (simp add: stop_pinging_def)

lemma disconnect_frame [simp]:
  "vpn_fsm (disconnect env v) = vpn_fsm v"
  "pending_error (disconnect env v) = pending_error v"
  "executor_joinable (disconnect env v) = executor_joinable v"
  "ev_loop (disconnect env v) = ev_loop v"
  "stopping (disconnect env v) = stopping v"
  "tasks (disconnect env v) = tasks v"
  "recovery (disconnect env v) = recovery v"
  "upstream_config (disconnect env v) = upstream_config v"
  "selected_endpoint (disconnect env v) = selected_endpoint v"
  "network_changed_before_recovery (disconnect env v) = network_changed_before_recovery v"
  "connected_once (disconnect env v) = connected_once v"
  "connect_retry_info (disconnect env v) = connect_retry_info v"
  "bypassed_connection_ids (disconnect env v) = bypassed_connection_ids v"
  "postponed_requests (disconnect env v) = postponed_requests v"
  "postponement_window_timer (disconnect env v) = postponement_window_timer v"
  "update_exclusions_task (disconnect env v) = update_exclusions_task v"
  "faults (disconnect env v) = faults v"
  by (simp_all add: disconnect_def)

lemma disconnect_client_sel [simp]:
  "client_state (disconnect_client env v) = CLIS_DISCONNECTED"
  "client (disconnect_client env v) =
     (if client_state v = CLIS_DISCONNECTED then client v else client_disconnect (cenv env) (client v))"
  by (simp_all add: disconnect_client_def split: client_connection_state.split)

lemma disconnect_sel [simp]:
  "client_state (disconnect env v) = CLIS_DISCONNECTED"
  "pinger (disconnect env v) = PingerNone"
  "client (disconnect env v) =
     (if client_state v = CLIS_DISCONNECTED then client v else client_disconnect (cenv env) (client v))"
  by (simp_all add: disconnect_def)

lemma initiate_recovery_frame [simp]:
  "vpn_fsm (initiate_recovery env v) = vpn_fsm v"
  "pending_error (initiate_recovery env v) = pending_error v"
  "executor_joinable (initiate_recovery env v) = executor_joinable v"
  "ev_loop (initiate_recovery env v) = ev_loop v"
  "stopping (initiate_recovery env v) = stopping v"
  "upstream_config (initiate_recovery env v) = upstream_config v"
  "selected_endpoint (initiate_recovery env v) = selected_endpoint v"
  "network_changed_before_recovery (initiate_recovery env v) = network_changed_before_recovery v"
  "connected_once (initiate_recovery env v) = connected_once v"
  "pinger (initiate_recovery env v) = pinger v"
  "ping_failure_induces_location_unavailable (initiate_recovery env v) = ping_failure_induces_location_unavailable v"
  "client_state (initiate_recovery env v) = client_state v"
  "client (initiate_recovery env v) = client v"
  "connect_retry_info (initiate_recovery env v) = connect_retry_info v"
  "bypassed_connection_ids (initiate_recovery env v) = bypassed_connection_ids v"
  "postponed_requests (initiate_recovery env v) = postponed_requests v"
  "update_exclusions_task (initiate_recovery env v) = update_exclusions_task v"
  "out (initiate_recovery env v) = out v"
  by (simp_all add: initiate_recovery_def Let_def)

lemma run_client_connect_frame [simp]:
  "vpn_fsm (run_client_connect t env v) = vpn_fsm v"
  "executor_joinable (run_client_connect t env v) = executor_joinable v"
  "ev_loop (run_client_connect t env v) = ev_loop v"
  "stopping (run_client_connect t env v) = stopping v"
  "recovery (run_client_connect t env v) = recovery v"
  "upstream_config (run_client_connect t env v) = upstream_config v"
  "selected_endpoint (run_client_connect t env v) = selected_endpoint v"
  "network_changed_before_recovery (run_client_connect t env v) = network_changed_before_recovery v"
  "connected_once (run_client_connect t env v) = connected_once v"
  "pinger (run_client_connect t env v) = pinger v"
  "ping_failure_induces_location_unavailable (run_client_connect t env v) = ping_failure_induces_location_unavailable v"
  "connect_retry_info (run_client_connect t env v) = connect_retry_info v"
  "bypassed_connection_ids (run_client_connect t env v) = bypassed_connection_ids v"
  "postponed_requests (run_client_connect t env v) = postponed_requests v"
  "postponement_window_timer (run_client_connect t env v) = postponement_window_timer v"
  "update_exclusions_task (run_client_connect t env v) = update_exclusions_task v"
  "out (run_client_connect t env v) = out v"
  by (simp_all add: run_client_connect_def Let_def split: option.split prod.split)

lemma run_ping_frame [simp]:
  "vpn_fsm (run_ping st v x) = vpn_fsm v"
  "executor_joinable (run_ping st v x) = executor_joinable v"
  "ev_loop (run_ping st v x) = ev_loop v"
  "stopping (run_ping st v x) = stopping v"
  "tasks (run_ping st v x) = tasks v"
  "upstream_config (run_ping st v x) = upstream_config v"
  "network_changed_before_recovery (run_ping st v x) = network_changed_before_recovery v"
  "connected_once (run_ping st v x) = connected_once v"
  "client_state (run_ping st v x) = client_state v"
  "client (run_ping st v x) = client v"
  "connect_retry_info (run_ping st v x) = connect_retry_info v"
  "bypassed_connection_ids (run_ping st v x) = bypassed_connection_ids v"
  "postponed_requests (run_ping st v x) = postponed_requests v"
  "postponement_window_timer (run_ping st v x) = postponement_window_timer v"
  "update_exclusions_task (run_ping st v x) = update_exclusions_task v"
  "faults (run_ping st v x) = faults v"
  by (simp_all add: run_ping_def Let_def)

lemma connect_client_frame [simp]:
  "vpn_fsm (connect_client st v x) = vpn_fsm v"
  "executor_joinable (connect_client st v x) = executor_joinable v"
  "ev_loop (connect_client st v x) = ev_loop v"
  "stopping (connect_client st v x) = stopping v"
  "recovery (connect_client st v x) = recovery v"
  "upstream_config (connect_client st v x) = upstream_config v"
  "selected_endpoint (connect_client st v x) = selected_endpoint v"
  "network_changed_before_recovery (connect_client st v x) = network_changed_before_recovery v"
  "connected_once (connect_client st v x) = connected_once v"
  "pinger (connect_client st v x) = pinger v"
  "ping_failure_induces_location_unavailable (connect_client st v x) = ping_failure_induces_location_unavailable v"
  "connect_retry_info (connect_client st v x) = connect_retry_info v"
  "bypassed_connection_ids (connect_client st v x) = bypassed_connection_ids v"
  "postponed_requests (connect_client st v x) = postponed_requests v"
  "postponement_window_timer (connect_client st v x) = postponement_window_timer v"
  "update_exclusions_task (connect_client st v x) = update_exclusions_task v"
  "out (connect_client st v x) = out v"
  by (simp_all add: connect_client_def)

lemma complete_connect_frame [simp]:
  "vpn_fsm (complete_connect st v x) = vpn_fsm v"
  "executor_joinable (complete_connect st v x) = executor_joinable v"
  "ev_loop (complete_connect st v x) = ev_loop v"
  "stopping (complete_connect st v x) = stopping v"
  "tasks (complete_connect st v x) = tasks v"
  "upstream_config (complete_connect st v x) = upstream_config v"
  "selected_endpoint (complete_connect st v x) = selected_endpoint v"
  "network_changed_before_recovery (complete_connect st v x) = network_changed_before_recovery v"
  "connected_once (complete_connect st v x) = connected_once v"
  "connect_retry_info (complete_connect st v x) = connect_retry_info v"
  "bypassed_connection_ids (complete_connect st v x) = bypassed_connection_ids v"
  "postponed_requests (complete_connect st v x) = postponed_requests v"
  "postponement_window_timer (complete_connect st v x) = postponement_window_timer v"
  "update_exclusions_task (complete_connect st v x) = update_exclusions_task v"
  "faults (complete_connect st v x) = faults v"
  by (simp_all add: complete_connect_def Let_def split: option.split)

lemma fail_connect_with_no_attempts_frame [simp]:
  "vpn_fsm (fail_connect_with_no_attempts st v x) = vpn_fsm v"
  "executor_joinable (fail_connect_with_no_attempts st v x) = executor_joinable v"
  "ev_loop (fail_connect_with_no_attempts st v x) = ev_loop v"
  "stopping (fail_connect_with_no_attempts st v x) = stopping v"
  "tasks (fail_connect_with_no_attempts st v x) = tasks v"
  "upstream_config (fail_connect_with_no_attempts st v x) = upstream_config v"
  "selected_endpoint (fail_connect_with_no_attempts st v x) = selected_endpoint v"
  "network_changed_before_recovery (fail_connect_with_no_attempts st v x) = network_changed_before_recovery v"
  "connected_once (fail_connect_with_no_attempts st v x) = connected_once v"
  "connect_retry_info (fail_connect_with_no_attempts st v x) = connect_retry_info v"
  "bypassed_connection_ids (fail_connect_with_no_attempts st v x) = bypassed_connection_ids v"
  "postponed_requests (fail_connect_with_no_attempts st v x) = postponed_requests v"
  "postponement_window_timer (fail_connect_with_no_attempts st v x) = postponement_window_timer v"
  "update_exclusions_task (fail_connect_with_no_attempts st v x) = update_exclusions_task v"
  "faults (fail_connect_with_no_attempts st v x) = faults v"
  by (simp_all add: fail_connect_with_no_attempts_def)

lemma retry_connect_frame [simp]:
  "vpn_fsm (retry_connect st v x) = vpn_fsm v"
  "pending_error (retry_connect st v x) = pending_error v"
  "executor_joinable (retry_connect st v x) = executor_joinable v"
  "ev_loop (retry_connect st v x) = ev_loop v"
  "stopping (retry_connect st v x) = stopping v"
  "recovery (retry_connect st v x) = recovery v"
  "upstream_config (retry_connect st v x) = upstream_config v"
  "selected_endpoint (retry_connect st v x) = selected_endpoint v"
  "network_changed_before_recovery (retry_connect st v x) = network_changed_before_recovery v"
  "connected_once (retry_connect st v x) = connected_once v"
  "bypassed_connection_ids (retry_connect st v x) = bypassed_connection_ids v"
  "postponed_requests (retry_connect st v x) = postponed_requests v"
  "postponement_window_timer (retry_connect st v x) = postponement_window_timer v"
  "update_exclusions_task (retry_connect st v x) = update_exclusions_task v"
  by (simp_all add: retry_connect_def Let_def split: connect_retry_info.split)

lemma prepare_for_recovery_frame [simp]:
  "vpn_fsm (prepare_for_recovery st v x) = vpn_fsm v"
  "executor_joinable (prepare_for_recovery st v x) = executor_joinable v"
  "ev_loop (prepare_for_recovery st v x) = ev_loop v"
  "stopping (prepare_for_recovery st v x) = stopping v"
  "upstream_config (prepare_for_recovery st v x) = upstream_config v"
  "selected_endpoint (prepare_for_recovery st v x) = selected_endpoint v"
  "network_changed_before_recovery (prepare_for_recovery st v x) = network_changed_before_recovery v"
  "connected_once (prepare_for_recovery st v x) = connected_once v"
  "connect_retry_info (prepare_for_recovery st v x) = connect_retry_info v"
  "bypassed_connection_ids (prepare_for_recovery st v x) = bypassed_connection_ids v"
  "postponed_requests (prepare_for_recovery st v x) = postponed_requests v"
  "update_exclusions_task (prepare_for_recovery st v x) = update_exclusions_task v"
  by (simp_all add: prepare_for_recovery_def Let_def split: option.split)

lemma prepare_for_recovery_nc_frame [simp]:
  "vpn_fsm (prepare_for_recovery_nc st v x) = vpn_fsm v"
  "executor_joinable (prepare_for_recovery_nc st v x) = executor_joinable v"
  "ev_loop (prepare_for_recovery_nc st v x) = ev_loop v"
  "stopping (prepare_for_recovery_nc st v x) = stopping v"
  "upstream_config (prepare_for_recovery_nc st v x) = upstream_config v"
  "selected_endpoint (prepare_for_recovery_nc st v x) = selected_endpoint v"
  "network_changed_before_recovery (prepare_for_recovery_nc st v x) = network_changed_before_recovery v"
  "connected_once (prepare_for_recovery_nc st v x) = connected_once v"
  "connect_retry_info (prepare_for_recovery_nc st v x) = connect_retry_info v"
  "bypassed_connection_ids (prepare_for_recovery_nc st v x) = bypassed_connection_ids v"
  "postponed_requests (prepare_for_recovery_nc st v x) = postponed_requests v"
  "update_exclusions_task (prepare_for_recovery_nc st v x) = update_exclusions_task v"
  by (simp_all add: prepare_for_recovery_nc_def)

lemma reconnect_client_frame [simp]:
  "vpn_fsm (reconnect_client st v x) = vpn_fsm v"
  "executor_joinable (reconnect_client st v x) = executor_joinable v"
  "ev_loop (reconnect_client st v x) = ev_loop v"
  "stopping (reconnect_client st v x) = stopping v"
  "recovery (reconnect_client st v x) = recovery v"
  "upstream_config (reconnect_client st v x) = upstream_config v"
  "selected_endpoint (reconnect_client st v x) = selected_endpoint v"
  "network_changed_before_recovery (reconnect_client st v x) = network_changed_before_recovery v"
  "connected_once (reconnect_client st v x) = connected_once v"
  "pinger (reconnect_client st v x) = pinger v"
  "ping_failure_induces_location_unavailable (reconnect_client st v x) = ping_failure_induces_location_unavailable v"
  "connect_retry_info (reconnect_client st v x) = connect_retry_info v"
  "bypassed_connection_ids (reconnect_client st v x) = bypassed_connection_ids v"
  "postponed_requests (reconnect_client st v x) = postponed_requests v"
  "postponement_window_timer (reconnect_client st v x) = postponement_window_timer v"
  "update_exclusions_task (reconnect_client st v x) = update_exclusions_task v"
  "out (reconnect_client st v x) = out v"
  by (simp_all add: reconnect_client_def)

lemma finalize_recovery_frame [simp]:
  "vpn_fsm (finalize_recovery st v x) = vpn_fsm v"
  "pending_error (finalize_recovery st v x) = pending_error v"
  "executor_joinable (finalize_recovery st v x) = executor_joinable v"
  "ev_loop (finalize_recovery st v x) = ev_loop v"
  "stopping (finalize_recovery st v x) = stopping v"
  "tasks (finalize_recovery st v x) = tasks v"
  "upstream_config (finalize_recovery st v x) = upstream_config v"
  "selected_endpoint (finalize_recovery st v x) = selected_endpoint v"
  "network_changed_before_recovery (finalize_recovery st v x) = network_changed_before_recovery v"
  "connected_once (finalize_recovery st v x) = connected_once v"
  "client_state (finalize_recovery st v x) = client_state v"
  "connect_retry_info (finalize_recovery st v x) = connect_retry_info v"
  "update_exclusions_task (finalize_recovery st v x) = update_exclusions_task v"
  "faults (finalize_recovery st v x) = faults v"
  by (simp_all add: finalize_recovery_def Let_def reset_bypassed_connections_def complete_postponed_requests_def)

lemma do_disconnect_frame [simp]:
  "vpn_fsm (do_disconnect st v x) = vpn_fsm v"
  "pending_error (do_disconnect st v x) = pending_error v"
  "executor_joinable (do_disconnect st v x) = executor_joinable v"
  "ev_loop (do_disconnect st v x) = ev_loop v"
  "stopping (do_disconnect st v x) = stopping v"
  "tasks (do_disconnect st v x) = tasks v"
  "upstream_config (do_disconnect st v x) = upstream_config v"
  "selected_endpoint (do_disconnect st v x) = selected_endpoint v"
  "network_changed_before_recovery (do_disconnect st v x) = network_changed_before_recovery v"
  "connected_once (do_disconnect st v x) = connected_once v"
  "connect_retry_info (do_disconnect st v x) = connect_retry_info v"
  "bypassed_connection_ids (do_disconnect st v x) = bypassed_connection_ids v"
  "postponed_requests (do_disconnect st v x) = postponed_requests v"
  "postponement_window_timer (do_disconnect st v x) = postponement_window_timer v"
  "update_exclusions_task (do_disconnect st v x) = update_exclusions_task v"
  "faults (do_disconnect st v x) = faults v"
  by (simp_all add: do_disconnect_def)

lemma start_listening_frame [simp]:
  "vpn_fsm (start_listening st v x) = vpn_fsm v"
  "pending_error (start_listening st v x) = pending_error v"
  "executor_joinable (start_listening st v x) = executor_joinable v"
  "ev_loop (start_listening st v x) = ev_loop v"
  "stopping (start_listening st v x) = stopping v"
  "recovery (start_listening st v x) = recovery v"
  "upstream_config (start_listening st v x) = upstream_config v"
  "selected_endpoint (start_listening st v x) = selected_endpoint v"
  "network_changed_before_recovery (start_listening st v x) = network_changed_before_recovery v"
  "connected_once (start_listening st v x) = connected_once v"
  "pinger (start_listening st v x) = pinger v"
  "ping_failure_induces_location_unavailable (start_listening st v x) = ping_failure_induces_location_unavailable v"
  "client_state (start_listening st v x) = client_state v"
  "connect_retry_info (start_listening st v x) = connect_retry_info v"
  "bypassed_connection_ids (start_listening st v x) = bypassed_connection_ids v"
  "postponed_requests (start_listening st v x) = postponed_requests v"
  "postponement_window_timer (start_listening st v x) = postponement_window_timer v"
  "update_exclusions_task (start_listening st v x) = update_exclusions_task v"
  "out (start_listening st v x) = out v"
  by (simp_all add: start_listening_def Let_def split: vpn_data.split prod.split)

lemma on_wrong_connect_state_frame [simp]:
  "vpn_fsm (on_wrong_connect_state st v x) = vpn_fsm v"
  "executor_joinable (on_wrong_connect_state st v x) = executor_joinable v"
  "ev_loop (on_wrong_connect_state st v x) = ev_loop v"
  "stopping (on_wrong_connect_state st v x) = stopping v"
  "tasks (on_wrong_connect_state st v x) = tasks v"
  "recovery (on_wrong_connect_state st v x) = recovery v"
  "upstream_config (on_wrong_connect_state st v x) = upstream_config v"
  "selected_endpoint (on_wrong_connect_state st v x) = selected_endpoint v"
  "network_changed_before_recovery (on_wrong_connect_state st v x) = network_changed_before_recovery v"
  "connected_once (on_wrong_connect_state st v x) = connected_once v"
  "connect_retry_info (on_wrong_connect_state st v x) = connect_retry_info v"
  "bypassed_connection_ids (on_wrong_connect_state st v x) = bypassed_connection_ids v"
  "postponed_requests (on_wrong_connect_state st v x) = postponed_requests v"
  "postponement_window_timer (on_wrong_connect_state st v x) = postponement_window_timer v"
  "update_exclusions_task (on_wrong_connect_state st v x) = update_exclusions_task v"
  "faults (on_wrong_connect_state st v x) = faults v"
  by (simp_all add: on_wrong_connect_state_def)

lemma raise_state_frame [simp]:
  "vpn_fsm (raise_state st v x) = vpn_fsm v"
  "executor_joinable (raise_state st v x) = executor_joinable v"
  "ev_loop (raise_state st v x) = ev_loop v"
  "stopping (raise_state st v x) = stopping v"
  "tasks (raise_state st v x) = tasks v"
  "recovery (raise_state st v x) = recovery v"
  "upstream_config (raise_state st v x) = upstream_config v"
  "selected_endpoint (raise_state st v x) = selected_endpoint v"
  "pinger (raise_state st v x) = pinger v"
  "ping_failure_induces_location_unavailable (raise_state st v x) = ping_failure_induces_location_unavailable v"
  "client_state (raise_state st v x) = client_state v"
  "client (raise_state st v x) = client v"
  "connect_retry_info (raise_state st v x) = connect_retry_info v"
  "bypassed_connection_ids (raise_state st v x) = bypassed_connection_ids v"
  "postponed_requests (raise_state st v x) = postponed_requests v"
  "postponement_window_timer (raise_state st v x) = postponement_window_timer v"
  "update_exclusions_task (raise_state st v x) = update_exclusions_task v"
  by (simp_all add: raise_state_def Let_def)

end
