(* ===== verification/TT_Vpn_Invariant.thy ===== *)
theory TT_Vpn_Invariant
  imports TT_Vpn_Fsm
begin

text \<open>
  The invariant of the session state machine: what every action keeps (\<open>vpn_core\<close>), what each state
  promises (\<open>vpn_inv\<close>: a session that waits always has something that will wake it up), and the
  interpretation of the machine's invariant contract on the VPN's own transition table.
\<close>

section \<open>Invariant\<close>

text \<open>
  What holds in every state while the event loop runs: the client's invariant with no event left
  undelivered, the VPN's view of the client in step with the client's machine, postponed requests
  guarded by the window timer, nothing bypassed with the kill switch on, and the recovery attempts
  within the configured bound.
\<close>

definition vpn_core :: "vpn \<Rightarrow> bool" where
  "vpn_core v \<longleftrightarrow>
     ev_loop v = LoopRunning \<and> client_inv (client v) \<and> raised (client v) = [] \<and>
     (client_state v = CLIS_DISCONNECTED \<longleftrightarrow> client_state_of (client v) = S_DISCONNECTED) \<and>
     (postponed_requests v \<noteq> [] \<longrightarrow> postponement_window_timer v) \<and>
     (\<forall>r \<in> set (postponed_requests v). action r \<noteq> Some VPN_CA_FORCE_BYPASS) \<and>
     (kill_switch_on (client v) \<longrightarrow> bypassed_connection_ids v = []) \<and>
     rattempts (recovery v) \<le> rs_attempts (recovery_cfg (upstream_config v))"

lemma vpn_coreD:
  assumes "vpn_core v"
  shows "ev_loop v = LoopRunning" and "client_inv (client v)" and "client_ready (client v)"
    and "raised (client v) = []"
    and "client_state v = CLIS_DISCONNECTED \<longleftrightarrow> client_state_of (client v) = S_DISCONNECTED"
  using assms by (auto simp: vpn_core_def client_inv_def)

lemma vpn_core_disconnect_client [simp]: "vpn_core v \<Longrightarrow> vpn_core (disconnect_client env v)"
  using client_disconnect_inv [of "client v" "cenv env"] client_disconnect_state [of "client v" "cenv env"]
  by (simp add: vpn_core_def client_inv_ready)

lemma vpn_core_stop_pinging [simp]: "vpn_core (stop_pinging v) = vpn_core v"
  by (simp add: vpn_core_def)

lemma vpn_core_disconnect [simp]: "vpn_core v \<Longrightarrow> vpn_core (disconnect env v)"
  by (simp add: disconnect_def)

lemma vpn_core_submit [simp]: "vpn_core (submit t v) = vpn_core v"
  by (simp add: vpn_core_def)

lemma vpn_core_pending_error [simp]: "vpn_core (v\<lparr>pending_error := e\<rparr>) = vpn_core v"
  by (simp add: vpn_core_def)

lemma vpn_core_fault [simp]: "vpn_core (v_fault e v) = vpn_core v" "vpn_core (v_emit x v) = vpn_core v"
  by (simp_all add: vpn_core_def)

lemma vpn_core_raise_state [simp]: "vpn_core (raise_state st v x) = vpn_core v"
  by (simp add: vpn_core_def)

lemma vpn_core_fresh_recovery [simp]: "vpn_core v \<Longrightarrow> vpn_core (v\<lparr>recovery := fresh_recovery\<rparr>)"
  by (simp add: vpn_core_def fresh_recovery_def)

lemma vpn_core_v_client:
  assumes "session_neutral f" and "vpn_core v"
  shows "vpn_core (v_client f v)"
  using assms session_neutralD [OF assms(1), of "client v"] by (simp add: vpn_core_def)

lemma vpn_core_run_client_connect [simp]:
  assumes "vpn_core v"
  shows "vpn_core (run_client_connect t env v)"
proof (cases "make_client_upstream_config v")
  case None
  then show ?thesis using assms by (simp add: run_client_connect_def)
next
  case (Some cfg)
  obtain e c where ec: "client_connect cfg t (cenv env) (client v) = (e, c)" by force
  have "ecc_main_protocol cfg \<noteq> VPN_UP_AUTO"
    using Some by (auto simp: make_client_upstream_config_def Let_def split: option.splits if_splits)
  from client_connect_cases [OF vpn_coreD(2) [OF assms] ec this] assms ec Some show ?thesis
    by (cases "ec e = VPN_EC_NOERROR") (simp_all add: run_client_connect_def vpn_core_def)
qed

lemma vpn_core_initiate_recovery [simp]:
  assumes "vpn_core v"
  shows "vpn_core (initiate_recovery env v)"
proof (cases "rs_attempts (recovery_cfg (upstream_config v)) \<le> rattempts (recovery v)")
  case True
  then show ?thesis using assms by (simp add: initiate_recovery_def)
next
  case False
  then have "rattempts (recovery v) + 1 \<le> rs_attempts (recovery_cfg (upstream_config v))"
    by (simp add: inc_le not_le)
  then show ?thesis using assms False by (auto simp: initiate_recovery_def vpn_core_def)
qed

lemma vpn_core_run_ping [simp]: "vpn_core v \<Longrightarrow> vpn_core (run_ping st v x)"
  by (simp add: vpn_core_def) (simp add: run_ping_def Let_def)

lemma vpn_core_connect_client [simp]: "vpn_core v \<Longrightarrow> vpn_core (connect_client st v x)"
  by (simp add: connect_client_def)

lemma vpn_core_complete_connect [simp]: "vpn_core v \<Longrightarrow> vpn_core (complete_connect st v x)"
  by (simp add: complete_connect_def Let_def vpn_core_v_client split: option.split)

lemma vpn_core_fail_connect [simp]: "vpn_core v \<Longrightarrow> vpn_core (fail_connect_with_no_attempts st v x)"
  by (simp add: fail_connect_with_no_attempts_def)

lemma vpn_core_retry_info [simp]: "vpn_core (v\<lparr>connect_retry_info := r\<rparr>) = vpn_core v"
  by (simp add: vpn_core_def)

lemma vpn_core_retry_connect [simp]: "vpn_core v \<Longrightarrow> vpn_core (retry_connect st v x)"
  by (simp add: retry_connect_def Let_def split: connect_retry_info.split)

lemma vpn_core_prepare_for_recovery [simp]:
  "vpn_core v \<Longrightarrow> vpn_core (prepare_for_recovery st v x)"
  "vpn_core v \<Longrightarrow> vpn_core (prepare_for_recovery_nc st v x)"
  by (simp_all add: prepare_for_recovery_nc_def prepare_for_recovery_def Let_def split: option.split)

lemma vpn_core_reconnect_client [simp]: "vpn_core v \<Longrightarrow> vpn_core (reconnect_client st v x)"
  by (simp add: reconnect_client_def)

lemma vpn_core_do_disconnect [simp]: "vpn_core v \<Longrightarrow> vpn_core (do_disconnect st v x)"
  by (simp add: do_disconnect_def)

lemma vpn_core_on_wrong_connect_state [simp]: "vpn_core v \<Longrightarrow> vpn_core (on_wrong_connect_state st v x)"
  by (simp add: on_wrong_connect_state_def)

lemma session_neutral_request_folds:
  "session_neutral (fold (\<lambda>r. client_complete_connect_request (req_id r) (action r)) rs)"
  "session_neutral (fold client_reset_connection ids)"
  by (rule session_neutral_fold, simp)+

lemma complete_postponed_requests_frame [simp]:
  "postponed_requests (complete_postponed_requests v) = []"
  "complete_postponed_requests (v\<lparr>postponement_window_timer := b\<rparr>) =
     (complete_postponed_requests v)\<lparr>postponement_window_timer := b\<rparr>"
  by (simp_all add: complete_postponed_requests_def v_client_def)

lemma vpn_core_complete_postponed [simp]: "vpn_core v \<Longrightarrow> vpn_core (complete_postponed_requests v)"
  using vpn_core_v_client [OF session_neutral_request_folds(1), of v "postponed_requests v"]
  by (simp add: complete_postponed_requests_def vpn_core_def)

lemma vpn_core_reset_bypassed [simp]: "vpn_core v \<Longrightarrow> vpn_core (reset_bypassed_connections v)"
  using vpn_core_v_client [OF session_neutral_request_folds(2), of v "bypassed_connection_ids v"]
  by (simp add: reset_bypassed_connections_def vpn_core_def)

lemma vpn_core_finalize_recovery [simp]: "vpn_core v \<Longrightarrow> vpn_core (finalize_recovery st v x)"
proof -
  assume "vpn_core v"
  then have "vpn_core (complete_postponed_requests
      (stop_pinging ((v_client client_update_bypass_ip_availability v)\<lparr>recovery := fresh_recovery\<rparr>)))"
    (is "vpn_core ?v") by (simp add: vpn_core_v_client)
  then have "vpn_core (?v\<lparr>postponement_window_timer := False\<rparr>)"
    by (simp add: vpn_core_def)
  then show ?thesis by (simp add: finalize_recovery_def Let_def)
qed

lemma vpn_core_start_listening [simp]:
  assumes "vpn_core v"
  shows "vpn_core (start_listening st v x)"
proof (cases "snd x")
  case (VListen cfg)
  obtain e c where "client_listen cfg (cenv (fst x)) (client v) = (e, c)" by force
  with client_listen_keeps [OF vpn_coreD(2) [OF assms] this] assms VListen show ?thesis
    by (simp add: start_listening_def vpn_core_def Let_def)
qed (use assms in \<open>simp_all add: start_listening_def\<close>)

lemma vpn_core_requests [simp]:
  "vpn_core v \<Longrightarrow> vpn_core (complete_request st v x)"
  "vpn_core v \<Longrightarrow> vpn_core (reject_request st v x)"
  by (simp_all add: complete_request_def reject_request_def on_request_def vpn_core_v_client split: vpn_data.split)

lemma vpn_core_bypass [simp]:
  assumes "vpn_core v" and "\<not> kill_switch_on (client v)"
  shows "vpn_core (bypass_until_connected st v x)"
proof -
  have "vpn_core (v\<lparr>bypassed_connection_ids := ids\<rparr>)" for ids
    using assms by (simp add: vpn_core_def)
  then show ?thesis using assms(1)
    by (simp add: bypass_until_connected_def on_request_def vpn_core_v_client split: vpn_data.split)
qed

lemma vpn_core_postpone [simp]:
  assumes "vpn_core v" and "postponement_window_timer v" and "\<not> can_complete st v x"
  shows "vpn_core (postpone_request st v x)"
  using assms by (cases "snd x") (auto simp: postpone_request_def on_request_def vpn_core_def can_complete_def)
section \<open>The rows of each event\<close>

lemma vpn_row_sel [simp]:
  "src_state (vpn_row s e c b t a) = s" "event (vpn_row s e c b t a) = e"
  "condition (vpn_row s e c b t a) = c" "before_transition (vpn_row s e c b t a) = b"
  "target_state (vpn_row s e c b t a) = t" "after_transition (vpn_row s e c b t a) = a"
  by (simp_all add: vpn_row_def)

lemma vpn_fire [simp]:
  "fire (vpn_row s e c b t a) x st v =
     (if t = SAME_TARGET_STATE then st else t,
      run_action a (if t = SAME_TARGET_STATE then st else t) (run_action b st v x) x)"
  by (simp add: fire_def next_state_def)

lemma vpn_row_matches [simp]:
  "entry_matches st ev v x (vpn_row s e c b t a) \<longleftrightarrow>
     (s = st \<or> s = ANY_SOURCE_STATE) \<and> e = ev \<and> holds_condition c st v x"
  by (simp add: entry_matches_def)

lemma rows_CE_DO_CONNECT:
  "rows st CE_DO_CONNECT vpn_table =
     (if st = VPN_SS_DISCONNECTED then
       [vpn_row VPN_SS_DISCONNECTED CE_DO_CONNECT None (Some run_ping) VPN_SS_CONNECTING (Some raise_state)] else []) @
     [vpn_row ANY_SOURCE_STATE CE_DO_CONNECT None (Some on_wrong_connect_state) VPN_SS_DISCONNECTED (Some raise_state)]"
  by (simp add: vpn_table_def eq_commute [of _ st])

lemma rows_CE_RETRY_CONNECT:
  "rows st CE_RETRY_CONNECT vpn_table =
     (if st = VPN_SS_CONNECTING then
       [vpn_row VPN_SS_CONNECTING CE_RETRY_CONNECT None (Some run_ping) SAME_TARGET_STATE None] else [])"
  by (simp add: vpn_table_def eq_commute [of _ st])

lemma rows_CE_PING_READY:
  "rows st CE_PING_READY vpn_table =
     (if st = VPN_SS_CONNECTING then
       [vpn_row VPN_SS_CONNECTING CE_PING_READY None (Some connect_client) SAME_TARGET_STATE None] else []) @
     (if st = VPN_SS_RECOVERING then
       [vpn_row VPN_SS_RECOVERING CE_PING_READY None (Some reconnect_client) SAME_TARGET_STATE None] else [])"
  by (simp add: vpn_table_def eq_commute [of _ st])

lemma rows_CE_PING_FAIL:
  "rows st CE_PING_FAIL vpn_table =
     (if st = VPN_SS_CONNECTING then
       [vpn_row VPN_SS_CONNECTING CE_PING_FAIL (Some is_fatal_error) (Some complete_connect) VPN_SS_DISCONNECTED (Some raise_state),
        vpn_row VPN_SS_CONNECTING CE_PING_FAIL (Some fall_into_recovery) (Some prepare_for_recovery) VPN_SS_WAITING_RECOVERY (Some raise_state),
        vpn_row VPN_SS_CONNECTING CE_PING_FAIL (Some no_connect_attempts) (Some complete_connect) VPN_SS_DISCONNECTED (Some raise_state),
        vpn_row VPN_SS_CONNECTING CE_PING_FAIL None (Some retry_connect) SAME_TARGET_STATE None] else []) @
     (if st = VPN_SS_RECOVERING then
       [vpn_row VPN_SS_RECOVERING CE_PING_FAIL (Some is_fatal_error) (Some do_disconnect) VPN_SS_DISCONNECTED (Some raise_state),
        vpn_row VPN_SS_RECOVERING CE_PING_FAIL None (Some prepare_for_recovery) VPN_SS_WAITING_RECOVERY (Some raise_state)] else [])"
  by (simp add: vpn_table_def eq_commute [of _ st])

lemma rows_CE_CLIENT_READY:
  "rows st CE_CLIENT_READY vpn_table =
     (if st = VPN_SS_CONNECTING then
       [vpn_row VPN_SS_CONNECTING CE_CLIENT_READY None (Some complete_connect) VPN_SS_CONNECTED (Some raise_state)] else []) @
     (if st = VPN_SS_RECOVERING then
       [vpn_row VPN_SS_RECOVERING CE_CLIENT_READY None (Some finalize_recovery) VPN_SS_CONNECTED (Some raise_state)] else [])"
  by (simp add: vpn_table_def eq_commute [of _ st])

lemma rows_CE_CLIENT_DISCONNECTED:
  "rows st CE_CLIENT_DISCONNECTED vpn_table =
     (if st = VPN_SS_DISCONNECTED then
       [vpn_row VPN_SS_DISCONNECTED CE_CLIENT_DISCONNECTED None None SAME_TARGET_STATE None] else []) @
     (if st = VPN_SS_CONNECTING then
       [vpn_row VPN_SS_CONNECTING CE_CLIENT_DISCONNECTED (Some is_fatal_error) (Some complete_connect) VPN_SS_DISCONNECTED (Some raise_state),
        vpn_row VPN_SS_CONNECTING CE_CLIENT_DISCONNECTED (Some fall_into_recovery) (Some prepare_for_recovery) VPN_SS_WAITING_RECOVERY (Some raise_state),
        vpn_row VPN_SS_CONNECTING CE_CLIENT_DISCONNECTED (Some no_connect_attempts) (Some complete_connect) VPN_SS_DISCONNECTED (Some raise_state),
        vpn_row VPN_SS_CONNECTING CE_CLIENT_DISCONNECTED None (Some retry_connect) SAME_TARGET_STATE None] else []) @
     (if st = VPN_SS_WAITING_RECOVERY then
       [vpn_row VPN_SS_WAITING_RECOVERY CE_CLIENT_DISCONNECTED (Some is_fatal_error) (Some do_disconnect) VPN_SS_DISCONNECTED (Some raise_state),
        vpn_row VPN_SS_WAITING_RECOVERY CE_CLIENT_DISCONNECTED None None SAME_TARGET_STATE None] else []) @
     [vpn_row ANY_SOURCE_STATE CE_CLIENT_DISCONNECTED (Some is_fatal_error) (Some do_disconnect) VPN_SS_DISCONNECTED (Some raise_state),
      vpn_row ANY_SOURCE_STATE CE_CLIENT_DISCONNECTED None (Some prepare_for_recovery) VPN_SS_WAITING_RECOVERY (Some raise_state)]"
  by (simp add: vpn_table_def eq_commute [of _ st])

lemma rows_CE_DO_RECOVERY:
  "rows st CE_DO_RECOVERY vpn_table =
     (if st = VPN_SS_WAITING_RECOVERY then
       [vpn_row VPN_SS_WAITING_RECOVERY CE_DO_RECOVERY (Some need_to_ping_on_recovery) (Some run_ping) VPN_SS_RECOVERING (Some raise_state),
        vpn_row VPN_SS_WAITING_RECOVERY CE_DO_RECOVERY None (Some connect_client) VPN_SS_RECOVERING (Some raise_state)] else [])"
  by (simp add: vpn_table_def eq_commute [of _ st])

lemma rows_CE_SHUTDOWN:
  "rows st CE_SHUTDOWN vpn_table =
     (if st = VPN_SS_DISCONNECTED then
       [vpn_row VPN_SS_DISCONNECTED CE_SHUTDOWN None (Some do_disconnect) SAME_TARGET_STATE None] else []) @
     [vpn_row ANY_SOURCE_STATE CE_SHUTDOWN None (Some do_disconnect) VPN_SS_DISCONNECTED (Some raise_state)]"
  by (simp add: vpn_table_def eq_commute [of _ st])

lemma rows_CE_NETWORK_CHANGE:
  "rows st CE_NETWORK_CHANGE vpn_table =
     (if st = VPN_SS_DISCONNECTED then
       [vpn_row VPN_SS_DISCONNECTED CE_NETWORK_CHANGE None None SAME_TARGET_STATE None] else []) @
     (if st = VPN_SS_CONNECTING then
       [vpn_row VPN_SS_CONNECTING CE_NETWORK_CHANGE (Some no_connect_attempts) (Some fail_connect_with_no_attempts) VPN_SS_DISCONNECTED (Some raise_state),
        vpn_row VPN_SS_CONNECTING CE_NETWORK_CHANGE (Some network_lost) (Some do_disconnect) VPN_SS_WAITING_FOR_NETWORK (Some raise_state),
        vpn_row VPN_SS_CONNECTING CE_NETWORK_CHANGE (Some fall_into_recovery) (Some prepare_for_recovery) VPN_SS_WAITING_RECOVERY (Some raise_state),
        vpn_row VPN_SS_CONNECTING CE_NETWORK_CHANGE None (Some retry_connect) SAME_TARGET_STATE None] else []) @
     (if st = VPN_SS_CONNECTED then
       [vpn_row VPN_SS_CONNECTED CE_NETWORK_CHANGE (Some network_lost) (Some do_disconnect) VPN_SS_WAITING_FOR_NETWORK (Some raise_state),
        vpn_row VPN_SS_CONNECTED CE_NETWORK_CHANGE None (Some prepare_for_recovery_nc) VPN_SS_WAITING_RECOVERY (Some raise_state)] else []) @
     (if st = VPN_SS_WAITING_RECOVERY then
       [vpn_row VPN_SS_WAITING_RECOVERY CE_NETWORK_CHANGE (Some network_lost) (Some do_disconnect) VPN_SS_WAITING_FOR_NETWORK (Some raise_state),
        vpn_row VPN_SS_WAITING_RECOVERY CE_NETWORK_CHANGE None (Some run_ping) VPN_SS_RECOVERING (Some raise_state)] else []) @
     (if st = VPN_SS_RECOVERING then
       [vpn_row VPN_SS_RECOVERING CE_NETWORK_CHANGE (Some network_lost) (Some do_disconnect) VPN_SS_WAITING_FOR_NETWORK (Some raise_state),
        vpn_row VPN_SS_RECOVERING CE_NETWORK_CHANGE None (Some prepare_for_recovery_nc) VPN_SS_WAITING_RECOVERY (Some raise_state)] else []) @
     (if st = VPN_SS_WAITING_FOR_NETWORK then
       [vpn_row VPN_SS_WAITING_FOR_NETWORK CE_NETWORK_CHANGE (Some network_lost) None SAME_TARGET_STATE None,
        vpn_row VPN_SS_WAITING_FOR_NETWORK CE_NETWORK_CHANGE (Some was_connected_once) (Some prepare_for_recovery_nc) VPN_SS_WAITING_RECOVERY (Some raise_state),
        vpn_row VPN_SS_WAITING_FOR_NETWORK CE_NETWORK_CHANGE (Some no_connect_attempts) (Some fail_connect_with_no_attempts) VPN_SS_DISCONNECTED (Some raise_state),
        vpn_row VPN_SS_WAITING_FOR_NETWORK CE_NETWORK_CHANGE None (Some retry_connect) VPN_SS_CONNECTING (Some raise_state)] else [])"
  by (simp add: vpn_table_def eq_commute [of _ st])

lemma rows_CE_START_LISTENING:
  "rows st CE_START_LISTENING vpn_table =
     (if st = VPN_SS_DISCONNECTED then
       [vpn_row VPN_SS_DISCONNECTED CE_START_LISTENING None (Some on_wrong_listen_state) SAME_TARGET_STATE None] else []) @
     [vpn_row ANY_SOURCE_STATE CE_START_LISTENING None (Some start_listening) SAME_TARGET_STATE None]"
  by (simp add: vpn_table_def eq_commute [of _ st])

lemma rows_CE_ABANDON_ENDPOINT:
  "rows st CE_ABANDON_ENDPOINT vpn_table =
     (if st = VPN_SS_CONNECTING then
       [vpn_row VPN_SS_CONNECTING CE_ABANDON_ENDPOINT (Some is_fatal_error) (Some complete_connect) VPN_SS_DISCONNECTED (Some raise_state),
        vpn_row VPN_SS_CONNECTING CE_ABANDON_ENDPOINT None (Some retry_connect) SAME_TARGET_STATE None] else []) @
     (if st = VPN_SS_CONNECTED then
       [vpn_row VPN_SS_CONNECTED CE_ABANDON_ENDPOINT (Some is_fatal_error) (Some do_disconnect) VPN_SS_DISCONNECTED (Some raise_state),
        vpn_row VPN_SS_CONNECTED CE_ABANDON_ENDPOINT None (Some prepare_for_recovery) VPN_SS_WAITING_RECOVERY (Some raise_state)] else []) @
     (if st = VPN_SS_WAITING_RECOVERY then
       [vpn_row VPN_SS_WAITING_RECOVERY CE_ABANDON_ENDPOINT (Some is_fatal_error) (Some do_disconnect) VPN_SS_DISCONNECTED (Some raise_state)] else []) @
     (if st = VPN_SS_RECOVERING then
       [vpn_row VPN_SS_RECOVERING CE_ABANDON_ENDPOINT (Some is_fatal_error) (Some do_disconnect) VPN_SS_DISCONNECTED (Some raise_state),
        vpn_row VPN_SS_RECOVERING CE_ABANDON_ENDPOINT None (Some prepare_for_recovery) VPN_SS_WAITING_RECOVERY (Some raise_state)] else [])"
  by (simp add: vpn_table_def eq_commute [of _ st])

lemma rows_CE_COMPLETE_REQUEST:
  "rows st CE_COMPLETE_REQUEST vpn_table =
     [vpn_row ANY_SOURCE_STATE CE_COMPLETE_REQUEST (Some can_complete) (Some complete_request) SAME_TARGET_STATE None,
      vpn_row ANY_SOURCE_STATE CE_COMPLETE_REQUEST (Some should_postpone) (Some postpone_request) SAME_TARGET_STATE None,
      vpn_row ANY_SOURCE_STATE CE_COMPLETE_REQUEST (Some is_kill_switch_on) (Some reject_request) SAME_TARGET_STATE None,
      vpn_row ANY_SOURCE_STATE CE_COMPLETE_REQUEST None (Some bypass_until_connected) SAME_TARGET_STATE None]"
  by (simp add: vpn_table_def eq_commute [of _ st])


section \<open>What each state promises\<close>

text \<open>
  A session waiting for recovery has its recovery timer armed or its failure queued. A connecting or
  recovering session has a ping running, a client that is not disconnected, or a task that will
  report the disconnection or retry. A connected session has a connected client, and a disconnected
  one has no recovery attempts on its count.
\<close>

definition recovery_armed :: "vpn \<Rightarrow> bool" where
  "recovery_armed v \<longleftrightarrow> rtask (recovery v) \<or> TaskFailedRecovery \<in> set (tasks v)"

definition wake_pending :: "vpn \<Rightarrow> bool" where
  "wake_pending v \<longleftrightarrow>
     pinger v = PingerRunning \<or> client_state v \<noteq> CLIS_DISCONNECTED \<or>
     TaskClientDisconnected \<in> set (tasks v)"

definition vpn_states :: "fsm_state set" where
  "vpn_states = {VPN_SS_DISCONNECTED, VPN_SS_CONNECTING, VPN_SS_CONNECTED, VPN_SS_WAITING_RECOVERY,
     VPN_SS_RECOVERING, VPN_SS_WAITING_FOR_NETWORK}"

definition vpn_events :: "fsm_event set" where
  "vpn_events = {CE_DO_CONNECT, CE_RETRY_CONNECT, CE_PING_READY, CE_PING_FAIL, CE_CLIENT_READY,
     CE_CLIENT_DISCONNECTED, CE_DO_RECOVERY, CE_SHUTDOWN, CE_NETWORK_CHANGE, CE_START_LISTENING,
     CE_ABANDON_ENDPOINT, CE_COMPLETE_REQUEST}"

definition vpn_inv :: "fsm_state \<Rightarrow> vpn \<Rightarrow> bool" where
  "vpn_inv st v \<longleftrightarrow>
     vpn_core v \<and> st \<in> vpn_states \<and>
     (st = VPN_SS_WAITING_RECOVERY \<longrightarrow> recovery_armed v) \<and>
     (st = VPN_SS_CONNECTING \<longrightarrow> wake_pending v \<or> TaskRetryConnect \<in> set (tasks v)) \<and>
     (st = VPN_SS_RECOVERING \<longrightarrow> wake_pending v) \<and>
     (st = VPN_SS_CONNECTED \<longrightarrow> client_state v = CLIS_CONNECTED) \<and>
     (st = VPN_SS_DISCONNECTED \<longrightarrow> rattempts (recovery v) = 0)"

text \<open>
  What holds when an event is given to the machine: the task, timer or handler that brings the
  event has used up the promise that the event fulfils.
\<close>

definition vpn_pre :: "fsm_event \<Rightarrow> vpn_input \<Rightarrow> fsm_state \<Rightarrow> vpn \<Rightarrow> bool" where
  "vpn_pre ev x st v \<longleftrightarrow>
     vpn_core v \<and> st \<in> vpn_states \<and> ev \<in> vpn_events \<and>
     (st = VPN_SS_WAITING_RECOVERY \<longrightarrow> recovery_armed v \<or> ev \<in> {CE_DO_RECOVERY, CE_SHUTDOWN}) \<and>
     (st = VPN_SS_CONNECTING \<longrightarrow>
        wake_pending v \<or> TaskRetryConnect \<in> set (tasks v) \<or>
        ev \<in> {CE_RETRY_CONNECT, CE_CLIENT_DISCONNECTED, CE_PING_READY, CE_PING_FAIL, CE_SHUTDOWN}) \<and>
     (st = VPN_SS_RECOVERING \<longrightarrow>
        wake_pending v \<or> ev \<in> {CE_CLIENT_DISCONNECTED, CE_PING_READY, CE_PING_FAIL, CE_SHUTDOWN}) \<and>
     (st = VPN_SS_CONNECTED \<longrightarrow> client_state v = CLIS_CONNECTED \<or> ev = CE_CLIENT_DISCONNECTED) \<and>
     (ev = CE_CLIENT_READY \<longrightarrow> client_state v = CLIS_CONNECTED \<and> as_error (snd x) = None) \<and>
     (ev = CE_PING_READY \<longrightarrow> selected_endpoint v \<noteq> None) \<and>
     (st = VPN_SS_DISCONNECTED \<longrightarrow> rattempts (recovery v) = 0) \<and>
     (ev = CE_DO_CONNECT \<longrightarrow> st = VPN_SS_DISCONNECTED)"

lemma raise_state_promises [simp]:
  "recovery_armed (raise_state st v x) = recovery_armed v"
  "wake_pending (raise_state st v x) = wake_pending v"
  by (simp_all add: recovery_armed_def wake_pending_def)

lemma initiate_recovery_armed: "ev_loop v = LoopRunning \<Longrightarrow> recovery_armed (initiate_recovery env v)"
  by (simp add: recovery_armed_def initiate_recovery_def Let_def)

lemma prepare_for_recovery_armed [simp]:
  "vpn_core v \<Longrightarrow> recovery_armed (prepare_for_recovery st v x)"
  "vpn_core v \<Longrightarrow> recovery_armed (prepare_for_recovery_nc st v x)"
  using initiate_recovery_armed [of "disconnect (fst x) v" "fst x"]
  by (auto simp: prepare_for_recovery_nc_def prepare_for_recovery_def Let_def recovery_armed_def vpn_coreD(1)
      split: option.split)

lemma run_ping_wakes [simp]: "wake_pending (run_ping st v x)"
  by (simp add: wake_pending_def run_ping_def Let_def)

lemma run_client_connect_wakes:
  assumes "ev_loop v = LoopRunning" and "selected_endpoint v \<noteq> None"
  shows "wake_pending (run_client_connect t env v)"
  using assms
  by (auto simp: wake_pending_def run_client_connect_def make_client_upstream_config_def Let_def
      split: option.split prod.split)

lemma connect_client_wakes [simp]:
  "vpn_core v \<Longrightarrow> selected_endpoint v \<noteq> None \<Longrightarrow> wake_pending (connect_client st v x)"
  by (simp add: connect_client_def run_client_connect_wakes vpn_coreD(1))

lemma reconnect_client_wakes [simp]:
  "vpn_core v \<Longrightarrow> selected_endpoint v \<noteq> None \<Longrightarrow> wake_pending (reconnect_client st v x)"
  by (simp add: reconnect_client_def run_client_connect_wakes vpn_coreD(1))

lemma retry_connect_wakes [simp]: "vpn_core v \<Longrightarrow> TaskRetryConnect \<in> set (tasks (retry_connect st v x))"
  by (simp add: retry_connect_def Let_def vpn_coreD(1) split: connect_retry_info.split)

lemma start_listening_tasks: "set (tasks v) \<subseteq> set (tasks (start_listening st v x))"
  by (auto simp: start_listening_def Let_def submit_def split: vpn_data.split prod.split)

lemma start_listening_promises [simp]:
  "recovery_armed v \<Longrightarrow> recovery_armed (start_listening st v x)"
  "wake_pending v \<Longrightarrow> wake_pending (start_listening st v x)"
  "TaskRetryConnect \<in> set (tasks v) \<Longrightarrow> TaskRetryConnect \<in> set (tasks (start_listening st v x))"
  using start_listening_tasks [of v st x] by (auto simp: recovery_armed_def wake_pending_def)

lemmas request_defs = complete_request_def reject_request_def bypass_until_connected_def
  postpone_request_def on_request_def

lemma request_frames [simp]:
  "\<lbrakk>f \<in> {complete_request, reject_request, bypass_until_connected, postpone_request}\<rbrakk>
     \<Longrightarrow> recovery (f st v x) = recovery v \<and> tasks (f st v x) = tasks v \<and> pinger (f st v x) = pinger v
       \<and> client_state (f st v x) = client_state v"
  by (auto simp: request_defs split: vpn_data.split)

lemma request_promises:
  assumes "f \<in> {complete_request, reject_request, bypass_until_connected, postpone_request}"
  shows "recovery_armed (f st v x) = recovery_armed v" "wake_pending (f st v x) = wake_pending v"
    "tasks (f st v x) = tasks v" "client_state (f st v x) = client_state v"
    "recovery (f st v x) = recovery v"
  using request_frames [OF assms] by (simp_all add: recovery_armed_def wake_pending_def)

lemma fresh_recovery_attempts [simp]: "rattempts fresh_recovery = 0"
  by (simp add: fresh_recovery_def)

lemma complete_connect_recovery [simp]:
  "recovery (complete_connect st v x) = fresh_recovery"
  "recovery (fail_connect_with_no_attempts st v x) = fresh_recovery"
  "recovery (do_disconnect st v x) = fresh_recovery"
  by (simp_all add: fail_connect_with_no_attempts_def complete_connect_def do_disconnect_def Let_def
      split: option.split)

lemma run_ping_attempts [simp]: "rattempts (recovery (run_ping st v x)) = rattempts (recovery v)"
  by (simp add: run_ping_def Let_def)

lemma complete_connect_ready [simp]:
  "as_error (snd x) = None \<Longrightarrow> client_state (complete_connect st v x) = client_state v"
  by (simp add: complete_connect_def take_error_def Let_def)

lemma on_wrong_listen_state_id [simp]: "on_wrong_listen_state st v x = v"
  by (simp add: on_wrong_listen_state_def)

text \<open>One lemma per event: the row that takes the event establishes the invariant.\<close>

lemmas vpn_inv_simps = vpn_pre_def vpn_inv_def vpn_states_def

abbreviation vpn_takes :: "fsm_event \<Rightarrow> vpn_input \<Rightarrow> fsm_state \<Rightarrow> vpn \<Rightarrow> vpn_entry \<Rightarrow> bool" where
  "vpn_takes ev x st v e \<equiv> List.find (entry_matches st ev v x) (rows st ev vpn_table) = Some e"

abbreviation vpn_establishes :: "vpn_input \<Rightarrow> fsm_state \<Rightarrow> vpn \<Rightarrow> vpn_entry \<Rightarrow> bool" where
  "vpn_establishes x st v e \<equiv> vpn_inv (fst (fire e x st v)) (snd (fire e x st v))"

lemma establish_CE_DO_CONNECT:
  "vpn_takes CE_DO_CONNECT x st v e \<Longrightarrow> vpn_pre CE_DO_CONNECT x st v \<Longrightarrow> vpn_establishes x st v e"
  by (cases "st = VPN_SS_DISCONNECTED") (clarsimp simp: rows_CE_DO_CONNECT vpn_inv_simps)+

lemma establish_CE_RETRY_CONNECT:
  "vpn_takes CE_RETRY_CONNECT x st v e \<Longrightarrow> vpn_pre CE_RETRY_CONNECT x st v \<Longrightarrow> vpn_establishes x st v e"
  by (auto simp: rows_CE_RETRY_CONNECT vpn_inv_simps split: if_splits)

lemma establish_CE_PING_READY:
  "vpn_takes CE_PING_READY x st v e \<Longrightarrow> vpn_pre CE_PING_READY x st v \<Longrightarrow> vpn_establishes x st v e"
  by (auto simp: rows_CE_PING_READY vpn_inv_simps split: if_splits)

lemma establish_CE_PING_FAIL:
  "vpn_takes CE_PING_FAIL x st v e \<Longrightarrow> vpn_pre CE_PING_FAIL x st v \<Longrightarrow> vpn_establishes x st v e"
  by (auto simp: rows_CE_PING_FAIL vpn_inv_simps split: if_splits)

lemma establish_CE_CLIENT_READY:
  "vpn_takes CE_CLIENT_READY x st v e \<Longrightarrow> vpn_pre CE_CLIENT_READY x st v \<Longrightarrow> vpn_establishes x st v e"
  by (auto simp: rows_CE_CLIENT_READY vpn_inv_simps split: if_splits)

lemma establish_CE_CLIENT_DISCONNECTED:
  "vpn_takes CE_CLIENT_DISCONNECTED x st v e \<Longrightarrow> vpn_pre CE_CLIENT_DISCONNECTED x st v \<Longrightarrow> vpn_establishes x st v e"
  by (auto simp: rows_CE_CLIENT_DISCONNECTED vpn_inv_simps split: if_splits)

lemma establish_CE_DO_RECOVERY:
  "vpn_takes CE_DO_RECOVERY x st v e \<Longrightarrow> vpn_pre CE_DO_RECOVERY x st v \<Longrightarrow> vpn_establishes x st v e"
  by (auto simp: rows_CE_DO_RECOVERY vpn_inv_simps need_to_ping_on_recovery_def split: if_splits)

lemma establish_CE_SHUTDOWN:
  "vpn_takes CE_SHUTDOWN x st v e \<Longrightarrow> vpn_pre CE_SHUTDOWN x st v \<Longrightarrow> vpn_establishes x st v e"
  by (auto simp: rows_CE_SHUTDOWN vpn_inv_simps split: if_splits)

lemma establish_CE_NETWORK_CHANGE:
  "vpn_takes CE_NETWORK_CHANGE x st v e \<Longrightarrow> vpn_pre CE_NETWORK_CHANGE x st v \<Longrightarrow> vpn_establishes x st v e"
  by (auto simp: rows_CE_NETWORK_CHANGE vpn_inv_simps split: if_splits)

lemma start_listening_inv:
  "vpn_pre CE_START_LISTENING x st v \<Longrightarrow> vpn_inv st (start_listening st v x)"
  "vpn_pre CE_START_LISTENING x st v \<Longrightarrow> vpn_inv st v"
  unfolding vpn_inv_def vpn_pre_def by (auto simp del: vpn_core_start_listening intro: vpn_core_start_listening)

lemma establish_CE_START_LISTENING:
  "vpn_takes CE_START_LISTENING x st v e \<Longrightarrow> vpn_pre CE_START_LISTENING x st v \<Longrightarrow> vpn_establishes x st v e"
  using start_listening_inv [of x st v]
  by (cases "st = VPN_SS_DISCONNECTED") (clarsimp simp: rows_CE_START_LISTENING)+

lemma establish_CE_ABANDON_ENDPOINT:
  "vpn_takes CE_ABANDON_ENDPOINT x st v e \<Longrightarrow> vpn_pre CE_ABANDON_ENDPOINT x st v \<Longrightarrow> vpn_establishes x st v e"
  by (auto simp: rows_CE_ABANDON_ENDPOINT vpn_inv_simps split: if_splits)

lemma establish_CE_COMPLETE_REQUEST:
  assumes "vpn_takes CE_COMPLETE_REQUEST x st v e" and pre: "vpn_pre CE_COMPLETE_REQUEST x st v"
  shows "vpn_establishes x st v e"
proof -
  let ?fs = "{complete_request, reject_request, bypass_until_connected, postpone_request}"
  obtain f where e: "e = vpn_row ANY_SOURCE_STATE CE_COMPLETE_REQUEST (condition e) (Some f) SAME_TARGET_STATE None"
    and f: "f \<in> ?fs" and core: "vpn_core (f st v x)"
    using assms by (auto simp: rows_CE_COMPLETE_REQUEST vpn_pre_def should_postpone_def is_kill_switch_on_def
        split: if_splits)
  have "vpn_inv st (f st v x)"
    using pre core f unfolding vpn_inv_def vpn_pre_def
    by (simp add: request_promises [OF f])
  then show ?thesis by (subst (1 2) e) simp
qed

text \<open>An event that no row takes leaves every promise as it was.\<close>

lemma idle_keeps_inv:
  assumes "List.find (entry_matches st ev v x) (rows st ev vpn_table) = None" and "vpn_pre ev x st v"
  shows "vpn_inv st v"
proof -
  have "ev \<in> vpn_events" using assms(2) by (simp add: vpn_pre_def)
  then show ?thesis
    using assms unfolding vpn_events_def
    by (elim insertE emptyE; clarsimp simp: rows_CE_DO_CONNECT rows_CE_RETRY_CONNECT rows_CE_PING_READY
        rows_CE_PING_FAIL rows_CE_CLIENT_READY rows_CE_CLIENT_DISCONNECTED rows_CE_DO_RECOVERY
        rows_CE_SHUTDOWN rows_CE_NETWORK_CHANGE rows_CE_START_LISTENING rows_CE_ABANDON_ENDPOINT
        rows_CE_COMPLETE_REQUEST vpn_inv_simps split: if_splits)
qed

lemmas establish_events = establish_CE_DO_CONNECT establish_CE_RETRY_CONNECT establish_CE_PING_READY
  establish_CE_PING_FAIL establish_CE_CLIENT_READY establish_CE_CLIENT_DISCONNECTED
  establish_CE_DO_RECOVERY establish_CE_SHUTDOWN establish_CE_NETWORK_CHANGE
  establish_CE_START_LISTENING establish_CE_ABANDON_ENDPOINT establish_CE_COMPLETE_REQUEST

interpretation session: fsm_invariant vpn_params vpn_pre vpn_inv
proof
  fix st ev v x e
  assume takes: "List.find (entry_matches st ev v x) (rows st ev (table vpn_params)) = Some e"
    and pre: "vpn_pre ev x st v"
  then have "ev \<in> vpn_events" by (simp add: vpn_pre_def)
  with takes pre establish_events show "vpn_establishes x st v e"
    unfolding vpn_events_def vpn_params_def by (elim insertE emptyE) simp_all
next
  fix st ev v x
  assume "List.find (entry_matches st ev v x) (rows st ev (table vpn_params)) = None"
    and "vpn_pre ev x st v"
  then show "vpn_inv st v" by (intro idle_keeps_inv) (simp_all add: vpn_params_def)
qed

lemma vpn_inv_fsm [simp]: "vpn_inv st (v\<lparr>vpn_fsm := f\<rparr>) = vpn_inv st v"
  by (simp add: vpn_inv_def vpn_core_def recovery_armed_def wake_pending_def)

lemma vpn_transition_inv:
  assumes "\<not> m_recursive (vpn_fsm v)" and "vpn_pre ev (env, d) (session_state v) v"
  shows "vpn_inv (session_state (vpn_transition ev env d v)) (vpn_transition ev env d v)"
    and "\<not> m_recursive (vpn_fsm (vpn_transition ev env d v))"
  using session.transition_establishes [of "vpn_fsm v" ev "(env, d)" v] assms
    perform_transition_not_recursive [of "vpn_fsm v" vpn_params ev "(env, d)" v]
  by (simp_all add: vpn_transition_def session_state_def get_state_def case_prod_beta)

end
