(* ===== verification/TT_Vpn_Manager.thy ===== *)
theory TT_Vpn_Manager
  imports TT_Vpn_Invariant
begin

text \<open>
  The VPN object and its interface (\<open>core/src/vpn_manager.cpp\<close>): the calls of the application, the
  closures they submit to the event loop, the handlers of the pinger and of the client, and the
  steps of the whole system. An application call that only submits a closure is one step, the
  closure is another: between them the event loop may run anything else.

  The closures run in the order of their submission. The client's deferred tasks, the timers, the
  pinger and the upstreams may come in between at any point, so the model allows every interleaving
  of them with the closures.
\<close>

section \<open>Handlers\<close>

definition client_handler :: "vpn_env \<Rightarrow> client_event \<Rightarrow> vpn \<Rightarrow> vpn" where
  "client_handler env ev v =
     (case ev of
        EVENT_CONNECTED \<Rightarrow>
          vpn_transition CE_CLIENT_READY env VNull (v\<lparr>client_state := CLIS_CONNECTED\<rparr>)
      | EVENT_DISCONNECTED \<Rightarrow>
          vpn_transition CE_CLIENT_DISCONNECTED env VNull (v\<lparr>client_state := CLIS_DISCONNECTED\<rparr>)
      | EVENT_ERROR e \<Rightarrow>
          vpn_transition CE_CLIENT_DISCONNECTED env (VErr e) (v\<lparr>client_state := CLIS_DISCONNECTED\<rparr>)
      | EVENT_DNS_UPSTREAM_UNAVAILABLE \<Rightarrow> v_emit DnsUpstreamUnavailable v)"

text \<open>The events that a call into the client has raised go to the handler in their order.\<close>

definition deliver :: "vpn_env \<Rightarrow> vpn \<Rightarrow> vpn" where
  "deliver env v =
     fold (client_handler env) (raised (client v)) (v\<lparr>client := (client v)\<lparr>raised := []\<rparr>\<rparr>)"

record ping_result =
  ping_ms :: int
  result_endpoint :: vpn_endpoint
  result_relay :: "vpn_relay option"
  is_quic :: bool

text \<open>
  \<open>std::none_of\<close> over the endpoints; an undefined comparison makes the result undefined. The
  handler of the pinger records the fault and goes on as after a search without success.
\<close>

fun no_endpoint_equals :: "vpn_endpoint \<Rightarrow> vpn_endpoint list \<Rightarrow> bool option" where
  "no_endpoint_equals seek [] = Some True"
| "no_endpoint_equals seek (ep # eps) =
     (case vpn_endpoint_equals seek ep of
        None \<Rightarrow> None
      | Some True \<Rightarrow> Some False
      | Some False \<Rightarrow> no_endpoint_equals seek eps)"

definition ping_failed_error :: "bool \<Rightarrow> vpn_error" where
  "ping_failed_error unavailable =
     (if unavailable
      then VpnError VPN_EC_LOCATION_UNAVAILABLE ''None of the endpoints were pinged successfully''
      else VpnError VPN_EC_ERROR ''Failed to ping location'')"

definition pinger_handler :: "vpn_env \<Rightarrow> ping_result \<Rightarrow> vpn \<Rightarrow> vpn" where
  "pinger_handler env res v0 =
     (let v1 = (if selected_endpoint v0 \<noteq> None then v_fault (AssertFailed ''selected_endpoint'') v0 else v0);
          induces = ping_failure_induces_location_unavailable v1;
          v2 = (v_client (\<lambda>c. c\<lparr>tcp_socket := False, quic_connector := False\<rparr>) v1)
                 \<lparr>pinger := PingerReported, selected_endpoint := None,
                  ping_failure_induces_location_unavailable := False\<rparr>
      in if ping_ms res < 0
         then vpn_transition CE_PING_FAIL env (VErr (ping_failed_error induces)) v2
         else case no_endpoint_equals (result_endpoint res) (endpoints (location (upstream_config v2))) of
                None \<Rightarrow> vpn_transition CE_PING_FAIL env
                  (VErr (VpnError VPN_EC_ERROR ''Best available endpoint wasn't found in location''))
                  (v_fault (NullDeref ''strcmp'') v2)
              | Some True \<Rightarrow> vpn_transition CE_PING_FAIL env
                  (VErr (VpnError VPN_EC_ERROR ''Best available endpoint wasn't found in location''))
                  (v2\<lparr>ping_failure_induces_location_unavailable := induces\<rparr>)
              | Some False \<Rightarrow>
                  (let v3 = v2\<lparr>selected_endpoint := Some (result_endpoint res, result_relay res)\<rparr>;
                       v4 = v_client (\<lambda>c. if is_quic res then c\<lparr>quic_connector := True\<rparr> else c\<lparr>tcp_socket := True\<rparr>) v3;
                       v5 = v_client client_update_bypass_ip_availability v4
                   in vpn_transition CE_PING_READY env VNull v5))"

section \<open>Abandoning an endpoint\<close>

datatype address_family = AF_UNSPEC | AF_INET | AF_INET6

fun sa_family :: "sock_addr \<Rightarrow> address_family" where
  "sa_family SA_Unspec = AF_UNSPEC"
| "sa_family (SA_V4 _ _) = AF_INET"
| "sa_family (SA_V6 _ _) = AF_INET6"

definition endpoint_matches :: "vpn_endpoint \<Rightarrow> vpn_endpoint \<Rightarrow> bool" where
  "endpoint_matches seek ep \<longleftrightarrow> vpn_endpoint_equals seek ep = Some True"

definition set_endpoints :: "vpn_endpoint list \<Rightarrow> vpn \<Rightarrow> vpn" where
  "set_endpoints eps v =
     v\<lparr>upstream_config := (upstream_config v)\<lparr>location := (location (upstream_config v))\<lparr>endpoints := eps\<rparr>\<rparr>\<rparr>"

definition exhausted_error :: "address_family \<Rightarrow> vpn_endpoint list \<Rightarrow> vpn_error" where
  "exhausted_error fam eps =
     VpnError VPN_EC_LOCATION_UNAVAILABLE
       (if eps = [] then ''Exhausted all endpoints in location''
        else if fam = AF_INET then ''Exhausted all IPv4 endpoints in location''
        else ''Exhausted all IPv6 endpoints in location'')"

text \<open>
  The closure of \<open>vpn_abandon_endpoint\<close>. The comparison with a null string, which is undefined,
  ends the closure.
\<close>

definition abandon_endpoint :: "vpn_env \<Rightarrow> vpn_endpoint \<Rightarrow> vpn \<Rightarrow> vpn" where
  "abandon_endpoint env ep v =
     (if (case selected_endpoint v of Some (s, _) \<Rightarrow> vpn_endpoint_equals s ep = None | None \<Rightarrow> False)
       \<or> (\<exists>x \<in> set (endpoints (location (upstream_config v))). vpn_endpoint_equals ep x = None)
      then v_fault (NullDeref ''strcmp'') v
      else
        (let is_selected = (case selected_endpoint v of Some (s, _) \<Rightarrow> vpn_endpoint_equals s ep = Some True
                            | None \<Rightarrow> False);
             v1 = (if is_selected then v\<lparr>selected_endpoint := None\<rparr> else v);
             (n, eps) = swap_remove_if (endpoint_matches ep) (endpoints (location (upstream_config v1)));
             rest = take n eps;
             v2 = set_endpoints rest v1
         in if \<forall>x \<in> set rest. sa_family (ep_address x) \<noteq> sa_family (ep_address ep)
            then vpn_transition CE_ABANDON_ENDPOINT env VNull
                   (set_endpoints [] (v2\<lparr>pending_error := Some (exhausted_error (sa_family (ep_address ep)) rest)\<rparr>))
            else if \<not> is_selected then v2
            else vpn_transition CE_ABANDON_ENDPOINT env VNull
                   (v2\<lparr>pending_error := Some (VpnError VPN_EC_ERROR ''Current endpoint is abandoned''),
                      ping_failure_induces_location_unavailable := True\<rparr>)))"

section \<open>Closures of the event loop\<close>

definition connect_task :: "vpn_env \<Rightarrow> vpn_upstream_config \<Rightarrow> connect_retry_info \<Rightarrow> vpn \<Rightarrow> vpn" where
  "connect_task env cfg retry v =
     vpn_transition CE_DO_CONNECT env VNull
       (v\<lparr>upstream_config := update_upstream_config cfg,
          connect_retry_info :=
            (case retry of ConnectSeveralAttempts n \<Rightarrow> ConnectSeveralAttempts (n - 1)
             | ConnectFallIntoRecovery \<Rightarrow> ConnectFallIntoRecovery)\<rparr>)"

definition failed_recovery_task :: "vpn_env \<Rightarrow> vpn \<Rightarrow> vpn" where
  "failed_recovery_task env v =
     vpn_transition CE_SHUTDOWN env VNull
       (v\<lparr>recovery := fresh_recovery,
          pending_error := Some (VpnError VPN_EC_LOCATION_UNAVAILABLE
            ''Maximum number of recovery attempts has been made'')\<rparr>)"

definition network_change_task :: "vpn_env \<Rightarrow> vpn_network_state \<Rightarrow> vpn \<Rightarrow> vpn" where
  "network_change_task env s v =
     vpn_transition CE_NETWORK_CHANGE env (VNet s)
       ((v_client client_on_network_change v)\<lparr>network_changed_before_recovery := True\<rparr>)"

definition complete_connect_request_task :: "vpn_env \<Rightarrow> connect_request_result \<Rightarrow> vpn \<Rightarrow> vpn" where
  "complete_connect_request_task env r v =
     vpn_transition CE_COMPLETE_REQUEST env (VReq (r\<lparr>action := finalize_connect_action env r\<rparr>)) v"

definition force_disconnect_task :: "vpn_env \<Rightarrow> bool \<Rightarrow> vpn \<Rightarrow> vpn" where
  "force_disconnect_task env fatal v =
     vpn_transition CE_SHUTDOWN env VNull
       (if fatal
        then v\<lparr>pending_error := Some (VpnError VPN_EC_FATAL_CONNECTIVITY_ERROR ''Fatal connectivity error occurred'')\<rparr>
        else v)"

definition stats_task :: "vpn \<Rightarrow> vpn" where
  "stats_task v =
     v_emit (StatsReport (if session_state v = VPN_SS_CONNECTED then None
                          else Some (VpnError VPN_EC_INVALID_STATE ''Invalid state''))) v"

fun run_task :: "vpn_env \<Rightarrow> vpn_task \<Rightarrow> vpn \<Rightarrow> vpn" where
  "run_task env TaskFailedRecovery v = failed_recovery_task env v"
| "run_task env TaskClientDisconnected v = vpn_transition CE_CLIENT_DISCONNECTED env VNull v"
| "run_task env TaskRetryConnect v = vpn_transition CE_RETRY_CONNECT env VNull v"
| "run_task env (TaskListenFailed e) v = vpn_transition CE_SHUTDOWN env VNull (v\<lparr>pending_error := Some e\<rparr>)"
| "run_task env (TaskConnect cfg retry) v = connect_task env cfg retry v"
| "run_task env TaskForceReconnect v = vpn_transition CE_DO_RECOVERY env VNull v"
| "run_task env (TaskForceDisconnect b) v = force_disconnect_task env b v"
| "run_task env (TaskStartListening cfg) v = vpn_transition CE_START_LISTENING env (VListen cfg) v"
| "run_task env TaskShutdown v = vpn_transition CE_SHUTDOWN env VNull v"
| "run_task env (TaskCompleteRequest r) v = complete_connect_request_task env r v"
| "run_task env (TaskUpdateExclusions m e) v =
     v_client (client_update_exclusions m e)
       (v_client (client_reset_connections (- 1)) (v\<lparr>update_exclusions_task := False\<rparr>))"
| "run_task env (TaskResetConnections n) v = v_client (client_reset_connections n) v"
| "run_task env (TaskNetworkChange s) v = network_change_task env s v"
| "run_task env TaskRequestStats v = stats_task v"
| "run_task env TaskSleep v = submit TaskSleepCompletion (v_client client_handle_sleep v)"
| "run_task env TaskSleepCompletion v = v_emit SleepCompleted v"
| "run_task env TaskWake v = v_client client_handle_wake v"
| "run_task env (TaskAbandonEndpoint ep) v = abandon_endpoint env ep v"

text \<open>The closure scheduled by \<open>initiate_recovery\<close>.\<close>

definition recovery_timer :: "vpn_env \<Rightarrow> vpn \<Rightarrow> vpn" where
  "recovery_timer env v =
     vpn_transition CE_DO_RECOVERY env VNull
       (v\<lparr>recovery := (recovery v)\<lparr>rtask := False,
            rtime := (rtime (recovery v))\<lparr>attempt_start_ts := now env\<rparr>\<rparr>\<rparr>)"

section \<open>Calls of the application\<close>

definition check_address :: "sock_addr \<Rightarrow> string option" where
  "check_address a =
     (if a \<noteq> SA_Unspec then (if 0 < sa_port a then None else Some ''Port must be specified'') else None)"

fun validate_endpoints :: "nat \<Rightarrow> vpn_endpoint list \<Rightarrow> vpn_error" where
  "validate_endpoints n [] = no_error"
| "validate_endpoints n (ep # eps) =
     (if ep_name ep = None
      then VpnError VPN_EC_INVALID_SETTINGS ''Names must be specified for each endpoint''
      else if 1 < n \<and> sa_family (ep_address ep) = AF_UNSPEC
      then VpnError VPN_EC_INVALID_SETTINGS
             ''In case of multiple endpoints addresses must be specified for each one''
      else if check_address (ep_address ep) \<noteq> None
      then VpnError VPN_EC_INVALID_SETTINGS ''Invalid endpoint address''
      else validate_endpoints n eps)"

definition validate_upstream_config :: "vpn_upstream_config \<Rightarrow> vpn_error" where
  "validate_upstream_config cfg =
     (if endpoints (location cfg) = []
      then VpnError VPN_EC_INVALID_SETTINGS ''At least one endpoint must be specified''
      else if username cfg = None \<or> password cfg = None
      then VpnError VPN_EC_INVALID_SETTINGS ''Both username and password must be specified''
      else validate_endpoints (length (endpoints (location cfg))) (endpoints (location cfg)))"

datatype retry_policy = VPN_CRP_SEVERAL_ATTEMPTS int | VPN_CRP_FALL_INTO_RECOVERY

definition make_retry_info :: "retry_policy \<Rightarrow> connect_retry_info" where
  "make_retry_info p =
     (case p of
        VPN_CRP_SEVERAL_ATTEMPTS n \<Rightarrow>
          ConnectSeveralAttempts (if n \<le> 0 then VPN_DEFAULT_CONNECT_ATTEMPTS_NUM else word_of_int n)
      | VPN_CRP_FALL_INTO_RECOVERY \<Rightarrow> ConnectFallIntoRecovery)"

definition run_event_loop :: "vpn_env \<Rightarrow> vpn \<Rightarrow> bool \<times> vpn" where
  "run_event_loop env v =
     (if ev_loop v = LoopNull \<and> \<not> loop_created env then (False, v)
      else if \<not> loop_started env then (False, v_fault (AssertFailed ''0'') (v\<lparr>ev_loop := LoopStopped\<rparr>))
      else (True, v\<lparr>ev_loop := LoopRunning, executor_joinable := True\<rparr>))"

definition vpn_connect :: "vpn_env \<Rightarrow> vpn_upstream_config \<Rightarrow> retry_policy \<Rightarrow> vpn \<Rightarrow> vpn_error \<times> vpn" where
  "vpn_connect env cfg policy v =
     (let e = validate_upstream_config cfg in
      if ec e \<noteq> VPN_EC_NOERROR then (e, v)
      else if executor_joinable v then (VpnError VPN_EC_ERROR ''VPN client worker is already running'', v)
      else (let (ok, v1) = run_event_loop env v in
            if \<not> ok then (VpnError VPN_EC_EVENT_LOOP_FAILURE ''Failed to start event loop for operation'', v1)
            else (e, submit (TaskConnect cfg (make_retry_info policy)) v1)))"

definition vpn_listen :: "listener_config option \<Rightarrow> bool \<Rightarrow> vpn \<Rightarrow> vpn_error \<times> vpn" where
  "vpn_listen cfg listener_given v =
     (if \<not> listener_given then (VpnError VPN_EC_INVALID_SETTINGS ''Listener is null'', v)
      else case cfg of
             None \<Rightarrow> (VpnError VPN_EC_INVALID_SETTINGS ''Listener config is null'', v)
           | Some c \<Rightarrow>
               if \<not> executor_joinable v then (VpnError VPN_EC_ERROR ''VPN client worker is not running'', v)
               else (no_error, submit (TaskStartListening c) v))"

text \<open>
  \<open>vpn_stop\<close> up to the loop's exit, during which closures may still run, and after it.
\<close>

definition vpn_stop_begin :: "vpn \<Rightarrow> vpn" where
  "vpn_stop_begin v =
     (if ev_loop v \<noteq> LoopNull then submit TaskShutdown v else v)\<lparr>stopping := True\<rparr>"

definition vpn_stop_end :: "vpn \<Rightarrow> vpn" where
  "vpn_stop_end v =
     (let v1 = v\<lparr>executor_joinable := False, tasks := [],
                 vpn_fsm := fsm_reset vpn_params (vpn_fsm v),
                 pending_error := None, client_state := CLIS_DISCONNECTED\<rparr>;
          v2 = stop_pinging (v_client client_finalize_disconnect v1)
      in v2\<lparr>postponement_window_timer := False, ev_loop := LoopNull, recovery := fresh_recovery,
            selected_endpoint := None, update_exclusions_task := False,
            postponed_requests := [], bypassed_connection_ids := [], stopping := False\<rparr>)"

definition vpn_complete_connect_request :: "u64 \<Rightarrow> vpn_connect_action \<Rightarrow> string option \<Rightarrow> int \<Rightarrow> vpn \<Rightarrow> vpn" where
  "vpn_complete_connect_request i act app u v =
     (if ev_loop v = LoopNull then v
      else submit (TaskCompleteRequest
        \<lparr>req_id = i, action = Some act, appname = (case app of None \<Rightarrow> [] | Some a \<Rightarrow> a), uid = u\<rparr>) v)"

definition submit_if_active :: "vpn_task \<Rightarrow> vpn \<Rightarrow> vpn" where
  "submit_if_active t v = (if ev_loop v = LoopRunning then submit t v else v)"

text \<open>
  The assignment to \<open>update_exclusions_task\<close> cancels the closure it referred to before.
\<close>

definition is_update_exclusions :: "vpn_task \<Rightarrow> bool" where
  "is_update_exclusions t = (case t of TaskUpdateExclusions _ _ \<Rightarrow> True | _ \<Rightarrow> False)"

definition vpn_update_exclusions :: "vpn_mode \<Rightarrow> string \<Rightarrow> vpn \<Rightarrow> vpn" where
  "vpn_update_exclusions m e v =
     (if ev_loop v = LoopRunning
      then v\<lparr>tasks := (if update_exclusions_task v
                       then filter (\<lambda>t. \<not> is_update_exclusions t) (tasks v) else tasks v)
                     @ [TaskUpdateExclusions m e],
             update_exclusions_task := True\<rparr>
      else v)"

definition vpn_request_endpoint_connection_stats :: "vpn \<Rightarrow> vpn" where
  "vpn_request_endpoint_connection_stats v =
     (if ev_loop v = LoopRunning then submit TaskRequestStats v
      else v_emit (StatsReport (Some (VpnError VPN_EC_ERROR ''Event loop is stopped''))) v)"

text \<open>The object after \<open>vpn_open\<close>, for a client whose initialisation succeeded.\<close>

definition opened_client :: "bool \<Rightarrow> vpn_mode \<Rightarrow> bool \<Rightarrow> vpn_client" where
  "opened_client kill_switch mode tmp =
     \<lparr>client_fsm = fsm_init client_params, tunnel = True,
      listener_cfg = \<lparr>lc_timeout_ms = 0, dns_upstreams = []\<rparr>,
      connection_config = None, kill_switch_on = kill_switch, endpoint_upstream = False,
      bypass_upstream = True, client_listener = False, dns_proxy_listener = False,
      dns_health_check_id = False, deferred_tasks = [], endpoint_connector = False,
      tmp_files_base_path = tmp, client_pending_error = None, bypass_upstream_session_opened = False,
      in_disconnect = False, exclusions_mode = mode, quic_connector = False, tcp_socket = False,
      raised = [], client_out = [], client_faults = []\<rparr>"

definition vpn_open :: "bool \<Rightarrow> vpn_mode \<Rightarrow> bool \<Rightarrow> vpn" where
  "vpn_open kill_switch mode tmp =
     \<lparr>vpn_fsm = fsm_init vpn_params, pending_error = None, executor_joinable = False,
      ev_loop = LoopStopped, stopping = False, tasks = [], recovery = fresh_recovery,
      upstream_config = empty_config, selected_endpoint = None,
      network_changed_before_recovery = False, connected_once = False, pinger = PingerNone,
      ping_failure_induces_location_unavailable = False, client_state = CLIS_DISCONNECTED,
      client = opened_client kill_switch mode tmp,
      connect_retry_info = ConnectSeveralAttempts VPN_DEFAULT_CONNECT_ATTEMPTS_NUM,
      bypassed_connection_ids = [], postponed_requests = [], postponement_window_timer = False,
      update_exclusions_task = False, out = [], faults = []\<rparr>"

definition vpn_close :: "vpn \<Rightarrow> vpn" where
  "vpn_close v = v_client client_deinit v"

section \<open>Steps of the system\<close>

datatype vpn_label =
    ApiConnect vpn_upstream_config retry_policy
  | ApiForceReconnect
  | ApiForceDisconnect bool
  | ApiListen "listener_config option" bool
  | ApiStopBegin
  | ApiStopEnd
  | ApiCompleteRequest u64 vpn_connect_action "string option" int
  | ApiUpdateExclusions vpn_mode string
  | ApiResetConnections int
  | ApiNotifyNetworkChange vpn_network_state
  | ApiRequestStats
  | ApiNotifySleep
  | ApiNotifyWake
  | ApiAbandonEndpoint vpn_endpoint
  | RunTask
  | RecoveryTimer
  | PostponementTimer
  | PingResult ping_result
  | ConnectorReport connector_outcome
  | ClientTask client_task
  | UpstreamEvent server_event
  | DirectEvent server_event
  | DnsResolved bool

text \<open>
  The application calls, which take \<open>stop_guard\<close> and so cannot run while \<open>vpn_stop\<close> is running.
\<close>

fun api_call :: "vpn_env \<Rightarrow> vpn_label \<Rightarrow> vpn \<Rightarrow> vpn" where
  "api_call env (ApiConnect cfg p) v = snd (vpn_connect env cfg p v)"
| "api_call env ApiForceReconnect v = submit TaskForceReconnect v"
| "api_call env (ApiForceDisconnect b) v = submit (TaskForceDisconnect b) v"
| "api_call env (ApiListen cfg b) v = snd (vpn_listen cfg b v)"
| "api_call env ApiStopBegin v = vpn_stop_begin v"
| "api_call env (ApiCompleteRequest i a app u) v = vpn_complete_connect_request i a app u v"
| "api_call env (ApiUpdateExclusions m e) v = vpn_update_exclusions m e v"
| "api_call env (ApiResetConnections n) v = submit_if_active (TaskResetConnections n) v"
| "api_call env (ApiNotifyNetworkChange s) v = submit_if_active (TaskNetworkChange s) v"
| "api_call env ApiRequestStats v = vpn_request_endpoint_connection_stats v"
| "api_call env ApiNotifySleep v = submit_if_active TaskSleep v"
| "api_call env ApiNotifyWake v = submit_if_active TaskWake v"
| "api_call env (ApiAbandonEndpoint ep) v = submit (TaskAbandonEndpoint ep) v"
| "api_call env _ v = v"

fun is_api_call :: "vpn_label \<Rightarrow> bool" where
  "is_api_call (ApiConnect _ _) = True"
| "is_api_call ApiForceReconnect = True"
| "is_api_call (ApiForceDisconnect _) = True"
| "is_api_call (ApiListen _ _) = True"
| "is_api_call ApiStopBegin = True"
| "is_api_call (ApiCompleteRequest _ _ _ _) = True"
| "is_api_call (ApiUpdateExclusions _ _) = True"
| "is_api_call (ApiResetConnections _) = True"
| "is_api_call (ApiNotifyNetworkChange _) = True"
| "is_api_call ApiRequestStats = True"
| "is_api_call ApiNotifySleep = True"
| "is_api_call ApiNotifyWake = True"
| "is_api_call (ApiAbandonEndpoint _) = True"
| "is_api_call _ = False"

definition run_client_task :: "vpn_env \<Rightarrow> client_task \<Rightarrow> vpn \<Rightarrow> vpn" where
  "run_client_task env t v0 =
     (let v = v_client (\<lambda>c. c\<lparr>deferred_tasks := remove1 t (deferred_tasks c)\<rparr>) v0 in
      case t of
        ConnectorFinalizer \<Rightarrow>
          (let (goes_on, c) = endpoint_connector_finalizer (cenv env) (client v);
               v1 = deliver env (v\<lparr>client := c\<rparr>)
           in if goes_on then deliver env (v_client (endpoint_connector_finalizer_rest (cenv env)) v1) else v1)
      | HealthCheckTask \<Rightarrow> v_client run_health_check_task v
      | DeferredDisconnect \<Rightarrow> deliver env (v_client (run_deferred_disconnect (cenv env)) v))"

definition upstream_event :: "vpn_env \<Rightarrow> server_event \<Rightarrow> vpn \<Rightarrow> vpn" where
  "upstream_event env w v =
     v_client (vpn_upstream_handler_rest w) (deliver env (v_client (vpn_upstream_handler w (cenv env)) v))"

text \<open>
  What the event loop runs, with the contracts of what it drives: the loop is running, a timer is
  armed, a pinger has not reported yet, a connector reports once, the client's upstream raises no
  event before the connector has handed it over and never a second opening of its session.
\<close>

fun loop_step :: "vpn_env \<Rightarrow> vpn_label \<Rightarrow> vpn \<Rightarrow> vpn option" where
  "loop_step env RunTask v =
     (case tasks v of [] \<Rightarrow> None | t # ts \<Rightarrow> Some (run_task env t (v\<lparr>tasks := ts\<rparr>)))"
| "loop_step env RecoveryTimer v = (if rtask (recovery v) then Some (recovery_timer env v) else None)"
| "loop_step env PostponementTimer v =
     (if postponement_window_timer v then Some (postponement_window_timer_cb v) else None)"
| "loop_step env (PingResult r) v =
     (if pinger v = PingerRunning then Some (pinger_handler env r v) else None)"
| "loop_step env (ConnectorReport res) v =
     (if endpoint_connector (client v) \<and> ConnectorFinalizer \<notin> set (deferred_tasks (client v))
      then Some (v_client (endpoint_connector_handler res (cenv env)) v) else None)"
| "loop_step env (ClientTask t) v =
     (if t \<in> set (deferred_tasks (client v)) then Some (run_client_task env t v) else None)"
| "loop_step env (UpstreamEvent w) v =
     (if endpoint_upstream (client v) \<and> \<not> endpoint_connector (client v) \<and> w \<noteq> SERVER_EVENT_SESSION_OPENED
      then Some (upstream_event env w v) else None)"
| "loop_step env (DirectEvent w) v = Some (v_client (direct_upstream_handler w) v)"
| "loop_step env (DnsResolved b) v =
     (if dns_health_check_id (client v) then Some (deliver env (v_client (dns_resolver_handler b) v)) else None)"
| "loop_step env _ v = None"

definition vpn_step :: "vpn_env \<Rightarrow> vpn_label \<Rightarrow> vpn \<Rightarrow> vpn option" where
  "vpn_step env l v =
     (if is_api_call l then (if stopping v then None else Some (api_call env l v))
      else if l = ApiStopEnd then (if stopping v then Some (vpn_stop_end v) else None)
      else if ev_loop v = LoopRunning then loop_step env l v
      else None)"

inductive vpn_reachable :: "vpn \<Rightarrow> vpn \<Rightarrow> bool" for v0 where
  start: "vpn_reachable v0 v0"
| step: "vpn_reachable v0 v \<Longrightarrow> vpn_step env l v = Some v' \<Longrightarrow> vpn_reachable v0 v'"

inductive_cases vpn_reachable_cases: "vpn_reachable v0 v"

section \<open>Invariant of the system\<close>

definition connect_tasks :: "vpn \<Rightarrow> vpn_task list" where
  "connect_tasks v = filter (\<lambda>t. case t of TaskConnect _ _ \<Rightarrow> True | _ \<Rightarrow> False) (tasks v)"

text \<open>
  The machine is at rest between the steps, its invariant holds as far as it does not speak of a
  running loop, and the one closure that starts a connection is only ever queued while the session
  is disconnected.
\<close>

definition sys_inv :: "vpn \<Rightarrow> bool" where
  "sys_inv v \<longleftrightarrow>
     \<not> m_recursive (vpn_fsm v) \<and> vpn_inv (session_state v) (v\<lparr>ev_loop := LoopRunning\<rparr>) \<and>
     (ev_loop v = LoopRunning \<longleftrightarrow> executor_joinable v) \<and>
     (\<not> executor_joinable v \<longrightarrow> session_state v = VPN_SS_DISCONNECTED) \<and>
     (\<not> executor_joinable v \<longrightarrow> connect_tasks v = []) \<and>
     length (connect_tasks v) \<le> 1 \<and>
     (connect_tasks v \<noteq> [] \<longrightarrow> session_state v = VPN_SS_DISCONNECTED)"

end
