(* ===== verification/TT_Vpn_System.thy ===== *)
theory TT_Vpn_System
  imports TT_Vpn_Manager
begin

text \<open>
  Invariants of the whole VPN object over every sequence of application calls, closures, timers and
  events, proved step by step from the invariant of its state machine.
\<close>

section \<open>What a transition leaves alone\<close>

definition is_connect_task :: "vpn_task \<Rightarrow> bool" where
  "is_connect_task t = (case t of TaskConnect _ _ \<Rightarrow> True | _ \<Rightarrow> False)"

lemma connect_tasks_alt: "connect_tasks v = filter is_connect_task (tasks v)"
  unfolding connect_tasks_def is_connect_task_def ..

definition loop_frame :: "loop_state \<Rightarrow> bool \<Rightarrow> bool \<Rightarrow> vpn_task list \<Rightarrow> bool \<Rightarrow> vpn \<Rightarrow> bool" where
  "loop_frame l b s ts k v \<longleftrightarrow>
     ev_loop v = l \<and> executor_joinable v = b \<and> stopping v = s \<and> connect_tasks v = ts \<and>
     kill_switch_on (client v) = k \<and> client_inv (client v)"

lemma loop_frame_submit [simp]: "\<not> is_connect_task t \<Longrightarrow> loop_frame l b s ts k (submit t v) = loop_frame l b s ts k v"
  by (simp add: loop_frame_def connect_tasks_alt submit_def)

lemma is_connect_task_simps [simp]:
  "\<not> is_connect_task TaskFailedRecovery" "\<not> is_connect_task TaskClientDisconnected"
  "\<not> is_connect_task TaskRetryConnect" "\<not> is_connect_task (TaskListenFailed e)"
  "\<not> is_connect_task TaskForceReconnect" "\<not> is_connect_task (TaskForceDisconnect f)"
  "\<not> is_connect_task (TaskStartListening cfg)" "\<not> is_connect_task TaskShutdown"
  "\<not> is_connect_task (TaskCompleteRequest r)" "\<not> is_connect_task (TaskUpdateExclusions m x)"
  "\<not> is_connect_task (TaskResetConnections n)" "\<not> is_connect_task (TaskNetworkChange ns)"
  "\<not> is_connect_task TaskRequestStats" "\<not> is_connect_task TaskSleep"
  "\<not> is_connect_task TaskSleepCompletion" "\<not> is_connect_task TaskWake"
  "\<not> is_connect_task (TaskAbandonEndpoint ep)" "is_connect_task (TaskConnect c i)"
  by (simp_all add: is_connect_task_def)

lemma loop_frame_cong:
  assumes "ev_loop v' = ev_loop v" and "executor_joinable v' = executor_joinable v"
    and "stopping v' = stopping v" and "tasks v' = tasks v"
    and "client v' = client v"
  shows "loop_frame l b s ts k v' = loop_frame l b s ts k v"
  using assms by (simp add: loop_frame_def connect_tasks_alt)

lemma loop_frame_neutral:
  assumes "session_neutral f" and "loop_frame l b s ts k v"
  shows "loop_frame l b s ts k (v_client f v)"
  using assms(2) session_neutralD [OF assms(1)] by (simp add: loop_frame_def connect_tasks_alt)

lemma loop_frame_disconnect_client [simp]:
  assumes "loop_frame l b s ts k v"
  shows "loop_frame l b s ts k (disconnect_client env v)"
  using assms client_disconnect_state [of "client v" "cenv env"] client_disconnect_inv [of "client v" "cenv env"]
  by (simp add: loop_frame_def connect_tasks_alt client_inv_ready)

lemma loop_frame_updates [simp]:
  "loop_frame l b s ts k (v\<lparr>pending_error := e\<rparr>) = loop_frame l b s ts k v"
  "loop_frame l b s ts k (v\<lparr>recovery := r\<rparr>) = loop_frame l b s ts k v"
  "loop_frame l b s ts k (v\<lparr>connect_retry_info := ri\<rparr>) = loop_frame l b s ts k v"
  "loop_frame l b s ts k (v\<lparr>postponement_window_timer := w\<rparr>) = loop_frame l b s ts k v"
  "loop_frame l b s ts k (v\<lparr>postponed_requests := rs\<rparr>) = loop_frame l b s ts k v"
  "loop_frame l b s ts k (v\<lparr>bypassed_connection_ids := ids\<rparr>) = loop_frame l b s ts k v"
  "loop_frame l b s ts k (v\<lparr>client_state := cs\<rparr>) = loop_frame l b s ts k v"
  "loop_frame l b s ts k (v_fault ft v) = loop_frame l b s ts k v"
  "loop_frame l b s ts k (v_emit x v) = loop_frame l b s ts k v"
  "loop_frame l b s ts k (stop_pinging v) = loop_frame l b s ts k v"
  "loop_frame l b s ts k (run_ping st v y) = loop_frame l b s ts k v"
  "loop_frame l b s ts k (raise_state st v y) = loop_frame l b s ts k v"
  by (rule loop_frame_cong; simp)+

lemma loop_frame_disconnect [simp]:
  "loop_frame l b s ts k v \<Longrightarrow> loop_frame l b s ts k (disconnect env v)"
  unfolding disconnect_def by simp

lemma loop_frame_run_client_connect [simp]:
  assumes "loop_frame l b s ts k v"
  shows "loop_frame l b s ts k (run_client_connect t env v)"
proof (cases "make_client_upstream_config v")
  case None
  then show ?thesis using assms by (simp add: run_client_connect_def)
next
  case (Some cfg)
  obtain e c where ec: "client_connect cfg t (cenv env) (client v) = (e, c)" by force
  have "ecc_main_protocol cfg \<noteq> VPN_UP_AUTO"
    using Some by (auto simp: make_client_upstream_config_def Let_def split: option.splits if_splits)
  from client_connect_cases [OF _ ec this] assms have "loop_frame l b s ts k (v\<lparr>client := c\<rparr>)"
    by (simp add: loop_frame_def connect_tasks_alt)
  then show ?thesis using Some ec by (simp add: run_client_connect_def Let_def)
qed

lemma loop_frame_start_listening [simp]:
  assumes "loop_frame l b s ts k v"
  shows "loop_frame l b s ts k (start_listening st v x)"
proof (cases "snd x")
  case (VListen cfg)
  obtain e c where ec: "client_listen cfg (cenv (fst x)) (client v) = (e, c)" by force
  from client_listen_keeps [OF _ ec] assms have "loop_frame l b s ts k (v\<lparr>client := c\<rparr>)"
    by (simp add: loop_frame_def connect_tasks_alt)
  then show ?thesis using VListen ec by (simp add: start_listening_def Let_def)
qed (use assms in \<open>simp_all add: start_listening_def\<close>)

lemma loop_frame_initiate_recovery [simp]:
  "loop_frame l b s ts k v \<Longrightarrow> loop_frame l b s ts k (initiate_recovery env v)"
  by (simp add: initiate_recovery_def Let_def)

lemma loop_frame_complete_connect [simp]:
  "loop_frame l b s ts k v \<Longrightarrow> loop_frame l b s ts k (complete_connect st v x)"
  by (simp add: complete_connect_def Let_def loop_frame_neutral split: option.split)

lemma loop_frame_prepare_for_recovery [simp]:
  "loop_frame l b s ts k v \<Longrightarrow> loop_frame l b s ts k (prepare_for_recovery st v x)"
  by (simp add: prepare_for_recovery_def Let_def split: option.split)

lemma loop_frame_pending_requests [simp]:
  assumes "loop_frame l b s ts k v"
  shows "loop_frame l b s ts k (complete_postponed_requests v)"
    and "loop_frame l b s ts k (reset_bypassed_connections v)"
  using assms
  by (simp_all add: complete_postponed_requests_def reset_bypassed_connections_def loop_frame_neutral
      session_neutral_request_folds)

lemma loop_frame_finalize_recovery [simp]:
  "loop_frame l b s ts k v \<Longrightarrow> loop_frame l b s ts k (finalize_recovery st v x)"
  by (simp add: finalize_recovery_def Let_def loop_frame_neutral)

lemma loop_frame_requests [simp]:
  assumes "f \<in> {complete_request, reject_request, bypass_until_connected, postpone_request}"
    and "loop_frame l b s ts k v"
  shows "loop_frame l b s ts k (f st v x)"
  using assms by (auto simp: request_defs loop_frame_neutral split: vpn_data.split)

lemma loop_frame_actions [simp]:
  assumes "loop_frame l b s ts k v"
  shows "loop_frame l b s ts k (connect_client st v x)"
    and "loop_frame l b s ts k (fail_connect_with_no_attempts st v x)"
    and "loop_frame l b s ts k (retry_connect st v x)"
    and "loop_frame l b s ts k (prepare_for_recovery_nc st v x)"
    and "loop_frame l b s ts k (reconnect_client st v x)"
    and "loop_frame l b s ts k (do_disconnect st v x)"
    and "loop_frame l b s ts k (on_wrong_connect_state st v x)"
  using assms
  by (simp_all add: connect_client_def fail_connect_with_no_attempts_def retry_connect_def
      prepare_for_recovery_nc_def reconnect_client_def do_disconnect_def on_wrong_connect_state_def Let_def
      split: connect_retry_info.split)

lemma vpn_table_actions:
  assumes "e \<in> set vpn_table"
  shows "before_transition e \<in> {None, Some run_ping, Some do_disconnect, Some on_wrong_listen_state,
      Some connect_client, Some complete_connect, Some prepare_for_recovery, Some retry_connect,
      Some fail_connect_with_no_attempts, Some prepare_for_recovery_nc, Some reconnect_client,
      Some finalize_recovery, Some on_wrong_connect_state, Some start_listening, Some complete_request,
      Some postpone_request, Some reject_request, Some bypass_until_connected}"
    and "after_transition e \<in> {None, Some raise_state}"
  using assms unfolding vpn_table_def by (simp, elim disjE; simp)+

interpretation quiet: fsm_frame vpn_params "loop_frame l b s ts k" for l b s ts k
proof
  fix e f v st x
  assume "e \<in> set (table vpn_params)" "before_transition e = Some f" "loop_frame l b s ts k v"
  with vpn_table_actions(1) [of e] show "loop_frame l b s ts k (f st v x)"
    by (auto simp: vpn_params_def)
next
  fix e f v st x
  assume "e \<in> set (table vpn_params)" "after_transition e = Some f" "loop_frame l b s ts k v"
  with vpn_table_actions(2) [of e] show "loop_frame l b s ts k (f st v x)"
    by (auto simp: vpn_params_def)
qed

lemma vpn_transition_frame:
  assumes "\<not> m_recursive (vpn_fsm v)" and "loop_frame l b s ts k v"
  shows "loop_frame l b s ts k (vpn_transition ev env d v)"
  using quiet.frame.transition_establishes [of "vpn_fsm v" l b s ts k v ev "(env, d)"] assms
  by (auto simp: vpn_transition_def case_prod_beta loop_frame_def connect_tasks_alt)

interpretation idle: fsm_invariant vpn_params
  "\<lambda>ev x st v. st = VPN_SS_DISCONNECTED \<and> ev \<noteq> CE_DO_CONNECT \<and> ev \<in> vpn_events" "\<lambda>st v. st = VPN_SS_DISCONNECTED"
proof
  fix st ev v x e
  assume "List.find (entry_matches st ev v x) (rows st ev (table vpn_params)) = Some e"
    and "st = VPN_SS_DISCONNECTED \<and> ev \<noteq> CE_DO_CONNECT \<and> ev \<in> vpn_events"
  then show "fst (fire e x st v) = VPN_SS_DISCONNECTED"
    unfolding vpn_events_def vpn_params_def
    by (elim conjE insertE emptyE; clarsimp simp: rows_CE_RETRY_CONNECT rows_CE_PING_READY
        rows_CE_PING_FAIL rows_CE_CLIENT_READY rows_CE_CLIENT_DISCONNECTED rows_CE_DO_RECOVERY
        rows_CE_SHUTDOWN rows_CE_NETWORK_CHANGE rows_CE_START_LISTENING rows_CE_ABANDON_ENDPOINT
        rows_CE_COMPLETE_REQUEST split: if_splits)
qed auto

lemma disconnected_stays:
  assumes "\<not> m_recursive (vpn_fsm v)" and "session_state v = VPN_SS_DISCONNECTED"
    and "ev \<noteq> CE_DO_CONNECT" and "ev \<in> vpn_events"
  shows "session_state (vpn_transition ev env d v) = VPN_SS_DISCONNECTED"
  using idle.transition_establishes [of "vpn_fsm v" ev "(env, d)" v] assms
  by (simp add: vpn_transition_def session_state_def get_state_def case_prod_beta)

section \<open>Steps keep the invariant\<close>

lemma running_id: "ev_loop v = LoopRunning \<Longrightarrow> v\<lparr>ev_loop := LoopRunning\<rparr> = v"
  by simp

lemma transition_sys_inv:
  assumes rest: "\<not> m_recursive (vpn_fsm v)" and pre: "vpn_pre ev (env, d) (session_state v) v"
    and ex: "executor_joinable v"
    and one: "length (connect_tasks v) \<le> 1"
    and conn: "connect_tasks v \<noteq> [] \<longrightarrow> session_state v = VPN_SS_DISCONNECTED \<and> ev \<noteq> CE_DO_CONNECT"
  shows "sys_inv (vpn_transition ev env d v)"
proof -
  let ?v = "vpn_transition ev env d v"
  have core: "vpn_core v" and ev: "ev \<in> vpn_events" using pre by (auto simp: vpn_pre_def)
  have "loop_frame LoopRunning (executor_joinable v) (stopping v) (connect_tasks v) (kill_switch_on (client v)) v"
    using core by (simp add: loop_frame_def vpn_core_def)
  from vpn_transition_frame [OF rest this]
  have fr: "ev_loop ?v = LoopRunning" "executor_joinable ?v = executor_joinable v"
    "connect_tasks ?v = connect_tasks v"
    by (auto simp: loop_frame_def)
  have disc: "connect_tasks v \<noteq> [] \<Longrightarrow> session_state ?v = VPN_SS_DISCONNECTED"
    using disconnected_stays [OF rest _ _ ev] conn by auto
  show ?thesis
    using vpn_transition_inv [OF rest pre] fr ex one disc unfolding sys_inv_def by (simp add: running_id)
qed

text \<open>
  Running the first closure of the queue takes its promise away and nothing else.
\<close>

lemma run_task_pre:
  assumes inv: "sys_inv v" and run: "ev_loop v = LoopRunning" and ts: "tasks v = t # ts"
    and ev: "ev \<in> vpn_events"
    and t: "t \<in> {TaskFailedRecovery, TaskClientDisconnected, TaskRetryConnect} \<longrightarrow>
        (t, ev) \<in> {(TaskFailedRecovery, CE_SHUTDOWN), (TaskClientDisconnected, CE_CLIENT_DISCONNECTED),
                    (TaskRetryConnect, CE_RETRY_CONNECT)}"
    and ev': "ev \<notin> {CE_CLIENT_READY, CE_PING_READY, CE_DO_CONNECT}"
  shows "vpn_pre ev (env, d) (session_state v) (v\<lparr>tasks := ts\<rparr>)"
proof -
  have "vpn_inv (session_state v) v" using inv run by (simp add: sys_inv_def running_id)
  then have "vpn_core (v\<lparr>tasks := ts\<rparr>)" by (simp add: vpn_inv_def vpn_core_def)
  then show ?thesis
    using \<open>vpn_inv (session_state v) v\<close> ts ev t ev' unfolding vpn_pre_def vpn_inv_def
    by (auto simp: recovery_armed_def wake_pending_def)
qed

lemma session_state_frame [simp]:
  "session_state (v_client f v) = session_state v" "session_state (v_emit x v) = session_state v"
  "session_state (v_fault y v) = session_state v" "session_state (submit t v) = session_state v"
  "session_state (v\<lparr>tasks := ts\<rparr>) = session_state v"
  "session_state (v\<lparr>pending_error := e\<rparr>) = session_state v"
  "session_state (v\<lparr>recovery := r\<rparr>) = session_state v"
  "session_state (v\<lparr>client := c\<rparr>) = session_state v"
  "session_state (v\<lparr>client_state := cs\<rparr>) = session_state v"
  by (simp_all add: session_state_def)

text \<open>The fields that the invariant of the system reads.\<close>

lemma sys_inv_cong:
  assumes "vpn_fsm v' = vpn_fsm v" and "ev_loop v' = ev_loop v" and "executor_joinable v' = executor_joinable v"
    and "tasks v' = tasks v" and "recovery v' = recovery v" and "upstream_config v' = upstream_config v"
    and "pinger v' = pinger v" and "client_state v' = client_state v" and "client v' = client v"
    and "postponed_requests v' = postponed_requests v"
    and "postponement_window_timer v' = postponement_window_timer v"
    and "bypassed_connection_ids v' = bypassed_connection_ids v"
  shows "sys_inv v' = sys_inv v"
  using assms
  by (simp add: sys_inv_def vpn_inv_def vpn_core_def recovery_armed_def wake_pending_def session_state_def
      connect_tasks_alt)

lemma sys_inv_updates [simp]:
  "sys_inv (v_emit x v) = sys_inv v" "sys_inv (v_fault y v) = sys_inv v"
  "sys_inv (v\<lparr>update_exclusions_task := b\<rparr>) = sys_inv v" "sys_inv (v\<lparr>stopping := b\<rparr>) = sys_inv v"
  "sys_inv (v\<lparr>selected_endpoint := ep\<rparr>) = sys_inv v" "sys_inv (v\<lparr>pending_error := e\<rparr>) = sys_inv v"
  "sys_inv (set_endpoints eps v) = sys_inv v"
  by (rule sys_inv_cong; simp)+
     (simp add: set_endpoints_def sys_inv_def vpn_inv_def vpn_core_def recovery_armed_def wake_pending_def
      session_state_def connect_tasks_alt)

lemma v_client_loop [simp]: "(v_client f v)\<lparr>ev_loop := l\<rparr> = v_client f (v\<lparr>ev_loop := l\<rparr>)"
  by (simp add: v_client_def)

lemma sys_inv_neutral:
  assumes "session_neutral f" and "sys_inv v"
  shows "sys_inv (v_client f v)"
  using assms(2) vpn_core_v_client [OF assms(1), of "v\<lparr>ev_loop := LoopRunning\<rparr>"]
  by (simp add: sys_inv_def vpn_inv_def recovery_armed_def wake_pending_def connect_tasks_alt)

lemma sys_inv_append:
  assumes "sys_inv v" and "\<not> is_connect_task t"
  shows "sys_inv (v\<lparr>tasks := tasks v @ [t]\<rparr>)"
  using assms
  by (auto simp: sys_inv_def vpn_inv_def vpn_core_def recovery_armed_def wake_pending_def connect_tasks_alt)

lemma sys_inv_submit:
  assumes "sys_inv v" and "\<not> is_connect_task t"
  shows "sys_inv (submit t v)"
  using sys_inv_append [OF assms] assms(1) by (simp add: submit_def)

lemma sys_inv_pop:
  assumes "sys_inv v" and "tasks v = t # ts"
    and "t \<notin> {TaskFailedRecovery, TaskClientDisconnected, TaskRetryConnect}"
  shows "sys_inv (v\<lparr>tasks := ts\<rparr>)"
  using assms
  by (auto simp: sys_inv_def vpn_inv_def vpn_core_def recovery_armed_def wake_pending_def connect_tasks_alt
      split: if_splits)

lemma task_transition:
  assumes "sys_inv v" and "tasks v = t # ts" and "\<not> is_connect_task t"
    and "vpn_fsm w = vpn_fsm v" and "executor_joinable w = executor_joinable v" and "ev_loop w = ev_loop v" and "tasks w = ts"
    and "vpn_pre ev (env, d) (session_state v) w" and "ev \<noteq> CE_DO_CONNECT"
  shows "sys_inv (vpn_transition ev env d w)"
proof (rule transition_sys_inv)
  show "\<not> m_recursive (vpn_fsm w)" using assms by (simp add: sys_inv_def)
  show "vpn_pre ev (env, d) (session_state w) w" using assms by (simp add: session_state_def)
  have "connect_tasks w = connect_tasks v" using assms by (simp add: connect_tasks_alt)
  moreover have "ev_loop w = LoopRunning" using assms by (simp add: vpn_pre_def vpn_core_def)
  ultimately show "executor_joinable w" "length (connect_tasks w) \<le> 1"
    "connect_tasks w \<noteq> [] \<longrightarrow> session_state w = VPN_SS_DISCONNECTED \<and> ev \<noteq> CE_DO_CONNECT"
    using assms by (auto simp: sys_inv_def session_state_def)
qed

lemma vpn_pre_updates [simp]:
  "vpn_pre ev x st (v\<lparr>pending_error := e\<rparr>) = vpn_pre ev x st v"
  "vpn_pre ev x st (v\<lparr>network_changed_before_recovery := b\<rparr>) = vpn_pre ev x st v"
  "vpn_pre ev x st (v\<lparr>ping_failure_induces_location_unavailable := b\<rparr>) = vpn_pre ev x st v"
  by (simp_all add: vpn_pre_def vpn_core_def recovery_armed_def wake_pending_def)

lemma vpn_pre_neutral:
  "session_neutral f \<Longrightarrow> vpn_pre ev x st v \<Longrightarrow> vpn_pre ev x st (v_client f v)"
  using vpn_core_v_client [of f v] by (simp add: vpn_pre_def recovery_armed_def wake_pending_def)

lemma vpn_pre_shutdown:
  assumes "vpn_core v" and "st \<in> vpn_states" and "rattempts (recovery v) = 0 \<or> st \<noteq> VPN_SS_DISCONNECTED"
    and "st = VPN_SS_CONNECTED \<longrightarrow> client_state v = CLIS_CONNECTED"
  shows "vpn_pre CE_SHUTDOWN x st v"
  using assms by (auto simp: vpn_pre_def vpn_events_def)

lemma set_endpoints_frame [simp]:
  "vpn_fsm (set_endpoints eps v) = vpn_fsm v" "executor_joinable (set_endpoints eps v) = executor_joinable v"
  "tasks (set_endpoints eps v) = tasks v" "ev_loop (set_endpoints eps v) = ev_loop v"
  by (simp_all add: set_endpoints_def)

lemma vpn_pre_endpoints:
  assumes "vpn_pre ev x st v" and "ev \<noteq> CE_PING_READY"
  shows "vpn_pre ev x st (set_endpoints eps v)" and "vpn_pre ev x st (v\<lparr>selected_endpoint := s\<rparr>)"
  using assms
  by (simp_all add: vpn_pre_def vpn_core_def recovery_armed_def wake_pending_def set_endpoints_def)

lemma abandon_endpoint_inv:
  assumes inv: "sys_inv v" and ts: "tasks v = t # ts" and t: "t = TaskAbandonEndpoint ep"
    and pre: "\<And>env. vpn_pre CE_ABANDON_ENDPOINT (env, VNull) (session_state v) (v\<lparr>tasks := ts\<rparr>)"
  shows "sys_inv (abandon_endpoint env ep (v\<lparr>tasks := ts\<rparr>))"
proof -
  let ?v = "v\<lparr>tasks := ts\<rparr>"
  have pop: "sys_inv ?v" using sys_inv_pop [OF inv ts] t by simp
  define is_selected where "is_selected = (case selected_endpoint ?v of
      Some (s, _) \<Rightarrow> vpn_endpoint_equals s ep = Some True | None \<Rightarrow> False)"
  define v1 where "v1 = (if is_selected then ?v\<lparr>selected_endpoint := None\<rparr> else ?v)"
  obtain n eps where sw: "swap_remove_if (endpoint_matches ep) (endpoints (location (upstream_config v1))) = (n, eps)"
    by force
  define v2 where "v2 = set_endpoints (take n eps) v1"
  have inv2: "sys_inv v2" using pop by (simp add: v2_def v1_def)
  have fr: "vpn_fsm v2 = vpn_fsm v" "executor_joinable v2 = executor_joinable v" "ev_loop v2 = ev_loop v"
    "tasks v2 = ts"
    by (simp_all add: v2_def v1_def)
  have pre2: "vpn_pre CE_ABANDON_ENDPOINT (env, VNull) (session_state v) v2"
    unfolding v2_def v1_def using pre [of env] vpn_pre_endpoints by simp
  have nt: "\<not> is_connect_task t" using t by simp
  show ?thesis
    unfolding abandon_endpoint_def Let_def is_selected_def [symmetric] v1_def [symmetric] sw prod.case
      v2_def [symmetric]
    using pop inv2 fr pre2
    by (auto intro!: task_transition [OF inv ts nt] simp: vpn_pre_endpoints)
qed

lemma popped:
  assumes "sys_inv v" and "ev_loop v = LoopRunning" and "tasks v = t # ts"
  shows "vpn_inv (session_state v) v" and "vpn_core (v\<lparr>tasks := ts\<rparr>)" and "session_state v \<in> vpn_states"
  using assms by (auto simp: sys_inv_def running_id vpn_inv_def vpn_core_def)

lemma failed_recovery_inv:
  assumes inv: "sys_inv v" and run: "ev_loop v = LoopRunning" and ts: "tasks v = TaskFailedRecovery # ts"
  shows "sys_inv (failed_recovery_task env (v\<lparr>tasks := ts\<rparr>))"
proof -
  note p = popped [OF assms]
  have "vpn_pre CE_SHUTDOWN (env, VNull) (session_state v)
      (v\<lparr>tasks := ts, recovery := fresh_recovery, pending_error := e\<rparr>)" for e
    using p by (intro vpn_pre_shutdown) (simp_all add: vpn_inv_def)
  then show ?thesis
    unfolding failed_recovery_task_def by (intro task_transition [OF inv ts]) simp_all
qed

lemma connect_task_inv:
  assumes inv: "sys_inv v" and run: "ev_loop v = LoopRunning" and ts: "tasks v = TaskConnect cfg retry # ts"
  shows "sys_inv (connect_task env cfg retry (v\<lparr>tasks := ts\<rparr>))"
proof -
  note p = popped [OF assms]
  have disc: "session_state v = VPN_SS_DISCONNECTED" "filter is_connect_task ts = []"
    using inv ts by (auto simp: sys_inv_def connect_tasks_alt)
  have "vpn_pre CE_DO_CONNECT (env, VNull) (session_state v)
      (v\<lparr>tasks := ts, upstream_config := c, connect_retry_info := ri\<rparr>)" for c ri
    using p disc by (simp add: vpn_pre_def vpn_events_def vpn_inv_def vpn_core_def)
  moreover have "executor_joinable v" using inv run by (simp add: sys_inv_def)
  ultimately show ?thesis using inv disc unfolding connect_task_def
    by (intro transition_sys_inv) (simp_all add: sys_inv_def connect_tasks_alt session_state_def)
qed

lemma shutdown_task_inv:
  assumes inv: "sys_inv v" and run: "ev_loop v = LoopRunning" and ts: "tasks v = t # ts"
    and "\<not> is_connect_task t"
  shows "sys_inv (vpn_transition CE_SHUTDOWN env VNull (v\<lparr>tasks := ts\<rparr>))"
    and "sys_inv (vpn_transition CE_SHUTDOWN env VNull (v\<lparr>tasks := ts, pending_error := e\<rparr>))"
proof -
  note p = popped [OF assms(1-3)]
  have "vpn_pre CE_SHUTDOWN (env, VNull) (session_state v) (v\<lparr>tasks := ts\<rparr>)"
    using p by (intro vpn_pre_shutdown) (auto simp: vpn_inv_def)
  then show "sys_inv (vpn_transition CE_SHUTDOWN env VNull (v\<lparr>tasks := ts\<rparr>))"
    "sys_inv (vpn_transition CE_SHUTDOWN env VNull (v\<lparr>tasks := ts, pending_error := e\<rparr>))"
    using assms(4) by (auto intro!: task_transition [OF inv ts])
qed

lemma event_task_inv:
  assumes inv: "sys_inv v" and run: "ev_loop v = LoopRunning" and ts: "tasks v = t # ts"
    and t: "(t, ev) \<in> {(TaskClientDisconnected, CE_CLIENT_DISCONNECTED), (TaskRetryConnect, CE_RETRY_CONNECT),
        (TaskForceReconnect, CE_DO_RECOVERY), (TaskStartListening cfg, CE_START_LISTENING),
        (TaskCompleteRequest r, CE_COMPLETE_REQUEST), (TaskNetworkChange s, CE_NETWORK_CHANGE),
        (TaskAbandonEndpoint ep, CE_ABANDON_ENDPOINT)}"
  shows "vpn_pre ev (env, d) (session_state v) (v\<lparr>tasks := ts\<rparr>)"
    and "sys_inv (vpn_transition ev env d (v\<lparr>tasks := ts\<rparr>))"
proof -
  show pre: "vpn_pre ev (env, d) (session_state v) (v\<lparr>tasks := ts\<rparr>)"
    using t by (intro run_task_pre [OF inv run ts]) (auto simp: vpn_events_def)
  show "sys_inv (vpn_transition ev env d (v\<lparr>tasks := ts\<rparr>))"
    using t pre by (intro task_transition [OF inv ts]) auto
qed

lemma network_change_inv:
  assumes inv: "sys_inv v" and run: "ev_loop v = LoopRunning" and ts: "tasks v = TaskNetworkChange s # ts"
  shows "sys_inv (network_change_task env s (v\<lparr>tasks := ts\<rparr>))"
  unfolding network_change_task_def
  by (intro task_transition [OF inv ts]) (simp_all add: vpn_pre_neutral event_task_inv(1) [OF assms])

lemma run_task_inv:
  assumes inv: "sys_inv v" and run: "ev_loop v = LoopRunning" and ts: "tasks v = t # ts"
  shows "sys_inv (run_task env t (v\<lparr>tasks := ts\<rparr>))"
proof -
  note ev = event_task_inv [OF assms]
  note down = shutdown_task_inv [OF assms]
  have pop: "t \<notin> {TaskFailedRecovery, TaskClientDisconnected, TaskRetryConnect} \<Longrightarrow> sys_inv (v\<lparr>tasks := ts\<rparr>)"
    by (rule sys_inv_pop [OF inv ts])
  show ?thesis
  proof (cases t)
    case TaskFailedRecovery
    with failed_recovery_inv [OF inv run] ts show ?thesis by simp
  next
    case (TaskConnect cfg retry)
    with connect_task_inv [OF inv run] ts show ?thesis by simp
  next
    case (TaskNetworkChange s)
    with network_change_inv [OF inv run] ts show ?thesis by simp
  next
    case (TaskAbandonEndpoint ep)
    with abandon_endpoint_inv [OF inv ts] ev(1) show ?thesis by simp
  qed (use pop down ev(2) in \<open>simp_all add: stats_task_def sys_inv_neutral sys_inv_submit
      complete_connect_request_task_def force_disconnect_task_def\<close>)
qed

section \<open>Timers, pinger and client\<close>

lemma event_transition:
  assumes "sys_inv v" and "vpn_fsm w = vpn_fsm v" and "executor_joinable w = executor_joinable v"
    and "ev_loop w = ev_loop v" and "tasks w = tasks v" and "vpn_pre ev (env, d) (session_state v) w" and "ev \<noteq> CE_DO_CONNECT"
  shows "sys_inv (vpn_transition ev env d w)"
proof (rule transition_sys_inv)
  show "\<not> m_recursive (vpn_fsm w)" using assms by (simp add: sys_inv_def)
  show "vpn_pre ev (env, d) (session_state w) w" using assms by (simp add: session_state_def)
  have "connect_tasks w = connect_tasks v" using assms by (simp add: connect_tasks_alt)
  moreover have "ev_loop w = LoopRunning" using assms by (simp add: vpn_pre_def vpn_core_def)
  ultimately show "executor_joinable w" "length (connect_tasks w) \<le> 1"
    "connect_tasks w \<noteq> [] \<longrightarrow> session_state w = VPN_SS_DISCONNECTED \<and> ev \<noteq> CE_DO_CONNECT"
    using assms by (auto simp: sys_inv_def session_state_def)
qed

lemma sys_inv_running: "sys_inv v \<Longrightarrow> ev_loop v = LoopRunning \<Longrightarrow> vpn_inv (session_state v) v"
  by (simp add: sys_inv_def running_id)

lemma recovery_timer_inv:
  assumes "sys_inv v" and "ev_loop v = LoopRunning"
  shows "sys_inv (recovery_timer env v)"
  unfolding recovery_timer_def using sys_inv_running [OF assms]
  by (intro event_transition [OF assms(1)])
     (auto simp: vpn_pre_def vpn_inv_def vpn_core_def vpn_events_def wake_pending_def)

lemma expire_postponed_inv: "sys_inv v \<Longrightarrow> sys_inv (expire_postponed r v)"
proof -
  assume inv: "sys_inv v"
  have "\<not> kill_switch_on (client v) \<Longrightarrow> sys_inv (v\<lparr>bypassed_connection_ids := ids\<rparr>)" for ids
    using inv
    by (simp add: sys_inv_def vpn_inv_def vpn_core_def recovery_armed_def wake_pending_def session_state_def
        connect_tasks_alt)
  then have bypass: "\<not> kill_switch_on (client v) \<Longrightarrow> sys_inv (v_client f (v\<lparr>bypassed_connection_ids := ids\<rparr>))"
    if "session_neutral f" for f ids
    using that by (simp add: sys_inv_neutral)
  have comm: "(v_client f v)\<lparr>bypassed_connection_ids := ids\<rparr> = v_client f (v\<lparr>bypassed_connection_ids := ids\<rparr>)" for f ids
    by (rule vpn.equality) simp_all
  show ?thesis
    using inv bypass [OF session_neutral_calls(1)]
    by (cases "kill_switch_on (client v)") (simp_all only: expire_postponed_def comm sys_inv_neutral
        session_neutral_calls if_True if_False not_False_eq_True)
qed

lemma expire_postponed_timer_step:
  "expire_postponed r (v\<lparr>postponement_window_timer := b\<rparr>) = (expire_postponed r v)\<lparr>postponement_window_timer := b\<rparr>"
  by (rule vpn.equality) (simp_all add: expire_postponed_def)

lemma expire_postponed_timer:
  "fold expire_postponed rs (v\<lparr>postponement_window_timer := b\<rparr>) =
     (fold expire_postponed rs v)\<lparr>postponement_window_timer := b\<rparr>"
  by (induction rs arbitrary: v) (simp_all add: expire_postponed_timer_step)

lemma postponement_timer_inv:
  assumes "sys_inv v"
  shows "sys_inv (postponement_window_timer_cb v)"
proof -
  have "sys_inv (fold expire_postponed rs v)" for rs
    using assms by (induction rs arbitrary: v) (simp_all add: expire_postponed_inv)
  then have "sys_inv ((fold expire_postponed rs v)\<lparr>postponement_window_timer := False, postponed_requests := []\<rparr>)" for rs
    by (simp add: sys_inv_def vpn_inv_def vpn_core_def recovery_armed_def wake_pending_def session_state_def
        connect_tasks_alt)
  then show ?thesis by (simp add: postponement_window_timer_cb_def expire_postponed_timer)
qed

lemma session_neutral_sockets:
  "session_neutral (\<lambda>c. c\<lparr>tcp_socket := a, quic_connector := b\<rparr>)"
  "session_neutral (\<lambda>c. if q then c\<lparr>quic_connector := b\<rparr> else c\<lparr>tcp_socket := b\<rparr>)"
  by (auto simp: session_neutral_def client_inv_defs)

lemma vpn_pre_fault [simp]: "vpn_pre ev x st (v_fault y v) = vpn_pre ev x st v"
  by (simp add: vpn_pre_def recovery_armed_def wake_pending_def)

lemma pinger_pre:
  assumes inv: "sys_inv v" and run: "ev_loop v = LoopRunning"
    and ev: "ev = CE_PING_FAIL \<or> (ev = CE_PING_READY \<and> s \<noteq> None)"
  shows "vpn_pre ev x (session_state v)
    (v\<lparr>pinger := PingerReported, selected_endpoint := s, ping_failure_induces_location_unavailable := b\<rparr>)"
    (is "vpn_pre ev x ?st ?w")
proof -
  note vi = sys_inv_running [OF inv run]
  have "vpn_core ?w" using vi by (simp add: vpn_inv_def vpn_core_def)
  moreover have "recovery_armed ?w = recovery_armed v" by (simp add: recovery_armed_def)
  ultimately show ?thesis
    using vi ev unfolding vpn_pre_def vpn_inv_def vpn_events_def by (elim disjE conjE) simp_all
qed

lemma pinger_handler_inv:
  assumes inv: "sys_inv v" and run: "ev_loop v = LoopRunning"
  shows "sys_inv (pinger_handler env res v)"
proof -
  define v1 where "v1 = (if selected_endpoint v \<noteq> None then v_fault (AssertFailed ''selected_endpoint'') v else v)"
  define w where "w s b = (v_client (\<lambda>c. c\<lparr>tcp_socket := False, quic_connector := False\<rparr>) v1)
      \<lparr>pinger := PingerReported, selected_endpoint := s, ping_failure_induces_location_unavailable := b\<rparr>" for s b
  have inv1: "sys_inv (v_client (\<lambda>c. c\<lparr>tcp_socket := False, quic_connector := False\<rparr>) v1)"
    using inv by (simp add: v1_def sys_inv_neutral session_neutral_sockets)
  have v1: "session_state v1 = session_state v" "ev_loop v1 = LoopRunning"
    using run by (simp_all add: v1_def)
  have fr: "vpn_fsm (w s b) = vpn_fsm v" "executor_joinable (w s b) = executor_joinable v"
    "ev_loop (w s b) = ev_loop v" "tasks (w s b) = tasks v" for s b
    by (simp_all add: w_def v1_def)
  have pre: "vpn_pre ev x (session_state v) (w s b)"
    if "ev = CE_PING_FAIL \<or> (ev = CE_PING_READY \<and> s \<noteq> None)" for ev x s b
    using pinger_pre [OF inv1 _ that] v1 unfolding w_def by simp
  have w: "(w s b)\<lparr>selected_endpoint := s'\<rparr> = w s' b"
    "(w s b)\<lparr>ping_failure_induces_location_unavailable := b'\<rparr> = w s b'" for s s' b b'
    by (simp_all add: w_def)
  have fail: "sys_inv (vpn_transition CE_PING_FAIL env d (w s b))"
    "sys_inv (vpn_transition CE_PING_FAIL env d (v_fault y (w s b)))" for d s b y
    by (intro event_transition [OF inv]; simp add: fr pre)+
  have ready: "sys_inv (vpn_transition CE_PING_READY env VNull (v_client f (v_client g (w (Some s) b))))"
    if "session_neutral f" "session_neutral g" for f g s b
    by (intro event_transition [OF inv]) (simp_all add: fr vpn_pre_neutral pre that)
  let ?N = "no_endpoint_equals (result_endpoint res) (endpoints (location (upstream_config (w None False))))"
  consider "ping_ms res < 0" | "\<not> ping_ms res < 0" "?N = None" | "\<not> ping_ms res < 0" "?N = Some True"
    | "\<not> ping_ms res < 0" "?N = Some False" by (cases ?N) auto
  then show ?thesis
    unfolding pinger_handler_def Let_def v1_def [symmetric] w_def [symmetric] w
    by cases (simp_all only: if_True if_False option.case bool.case fail ready session_neutral_sockets
        session_neutral_calls)
qed

text \<open>
  Delivering what the client has raised: a client that has just connected or disconnected has raised
  exactly that event, and any other call raises nothing but a DNS notice.
\<close>

definition client_raised_ok :: "vpn_client \<Rightarrow> vpn_client \<Rightarrow> bool" where
  "client_raised_ok c0 c \<longleftrightarrow>
     client_inv c \<and> kill_switch_on c = kill_switch_on c0 \<and>
     (raised c \<in> {[], [EVENT_DNS_UPSTREAM_UNAVAILABLE]} \<and>
        (client_state_of c = S_DISCONNECTED \<longleftrightarrow> client_state_of c0 = S_DISCONNECTED) \<or>
      raised c = [EVENT_CONNECTED] \<and> client_state_of c = S_CONNECTED \<or>
      (raised c = [EVENT_DISCONNECTED] \<or> (\<exists>e. raised c = [EVENT_ERROR e])) \<and> client_state_of c = S_DISCONNECTED)"

lemma client_pre:
  assumes inv: "sys_inv v" and run: "ev_loop v = LoopRunning"
    and c: "client_inv c" "raised c = []" "kill_switch_on c = kill_switch_on (client v)"
    and ev: "ev = CE_CLIENT_READY \<and> as_error (snd x) = None \<and> cs = CLIS_CONNECTED \<and> client_state_of c = S_CONNECTED
      \<or> ev = CE_CLIENT_DISCONNECTED \<and> cs = CLIS_DISCONNECTED \<and> client_state_of c = S_DISCONNECTED"
  shows "vpn_pre ev x (session_state v) (v\<lparr>client := c, client_state := cs\<rparr>)" (is "vpn_pre ev x ?st ?w")
proof -
  note vi = sys_inv_running [OF inv run]
  have "cs = CLIS_DISCONNECTED \<longleftrightarrow> client_state_of c = S_DISCONNECTED" using ev by (elim disjE conjE) simp_all
  then have core: "vpn_core ?w" using vi c by (simp add: vpn_inv_def vpn_core_def)
  have armed: "recovery_armed ?w = recovery_armed v" by (simp add: recovery_armed_def)
  show ?thesis
    using ev
  proof
    assume r: "ev = CE_CLIENT_READY \<and> as_error (snd x) = None \<and> cs = CLIS_CONNECTED \<and> client_state_of c = S_CONNECTED"
    then have "wake_pending ?w" by (simp add: wake_pending_def)
    then show ?thesis using r core armed vi by (simp add: vpn_pre_def vpn_inv_def vpn_events_def)
  next
    assume "ev = CE_CLIENT_DISCONNECTED \<and> cs = CLIS_DISCONNECTED \<and> client_state_of c = S_DISCONNECTED"
    then show ?thesis using core armed vi by (simp add: vpn_pre_def vpn_inv_def vpn_events_def)
  qed
qed

lemma sys_inv_client:
  assumes "sys_inv v" and "client_inv c" and "raised c = []" and "kill_switch_on c = kill_switch_on (client v)"
    and "client_state_of c = S_DISCONNECTED \<longleftrightarrow> client_state_of (client v) = S_DISCONNECTED"
  shows "sys_inv (v\<lparr>client := c\<rparr>)"
  using assms
  by (simp add: sys_inv_def vpn_inv_def vpn_core_def recovery_armed_def wake_pending_def connect_tasks_alt)

lemma client_inv_raised [simp]:
  "client_inv (c\<lparr>raised := r\<rparr>) = client_inv c" "client_state_of (c\<lparr>raised := r\<rparr>) = client_state_of c"
  by (simp_all add: client_inv_defs)

lemma deliver_inv:
  assumes inv: "sys_inv v" and run: "ev_loop v = LoopRunning" and ok: "client_raised_ok (client v) c"
  shows "sys_inv (deliver env (v\<lparr>client := c\<rparr>))"
proof -
  let ?c = "c\<lparr>raised := []\<rparr>"
  have c: "client_inv ?c" "raised ?c = []" "kill_switch_on ?c = kill_switch_on (client v)"
    using ok by (simp_all add: client_raised_ok_def)
  have ev: "sys_inv (vpn_transition ev env d (v\<lparr>client := ?c, client_state := cs\<rparr>))"
    if "ev = CE_CLIENT_READY \<and> as_error d = None \<and> cs = CLIS_CONNECTED \<and> client_state_of c = S_CONNECTED
      \<or> ev = CE_CLIENT_DISCONNECTED \<and> cs = CLIS_DISCONNECTED \<and> client_state_of c = S_DISCONNECTED" for ev d cs
  proof (rule event_transition [OF inv])
    show "vpn_pre ev (env, d) (session_state v) (v\<lparr>client := ?c, client_state := cs\<rparr>)"
      using client_pre [OF inv run c] that by simp
    show "ev \<noteq> CE_DO_CONNECT" using that by auto
  qed simp_all
  consider (quiet) "raised c \<in> {[], [EVENT_DNS_UPSTREAM_UNAVAILABLE]}"
      "client_state_of c = S_DISCONNECTED \<longleftrightarrow> client_state_of (client v) = S_DISCONNECTED"
    | (conn) "raised c = [EVENT_CONNECTED]" "client_state_of c = S_CONNECTED"
    | (disc) "raised c = [EVENT_DISCONNECTED] \<or> (\<exists>e. raised c = [EVENT_ERROR e])" "client_state_of c = S_DISCONNECTED"
    using ok by (auto simp: client_raised_ok_def)
  then show ?thesis
  proof cases
    case quiet
    then have "sys_inv (v\<lparr>client := ?c\<rparr>)" using c inv by (intro sys_inv_client) simp_all
    then show ?thesis using quiet(1) by (auto simp: deliver_def client_handler_def)
  next
    case conn
    then show ?thesis using ev [of CE_CLIENT_READY VNull CLIS_CONNECTED]
      by (simp add: deliver_def client_handler_def as_error_def)
  next
    case disc
    then show ?thesis using ev [of CE_CLIENT_DISCONNECTED _ CLIS_DISCONNECTED]
      by (auto simp: deliver_def client_handler_def)
  qed
qed

lemma sys_inv_coreD:
  assumes "sys_inv v"
  shows "client_inv (client v)" and "raised (client v) = []" and "\<not> m_recursive (vpn_fsm v)"
  using assms by (auto simp: sys_inv_def vpn_inv_def vpn_core_def)

lemma deliver_client:
  assumes "sys_inv v" and "ev_loop v = LoopRunning" and "client_raised_ok (client v) (f (client v))"
  shows "sys_inv (deliver env (v_client f v))"
  using deliver_inv [OF assms] by (simp add: v_client_def)

lemma raise_disconnected_raised:
  "raised c = [] \<Longrightarrow> raised (raise_disconnected st c ed) = [EVENT_DISCONNECTED] \<or>
     (\<exists>e. raised (raise_disconnected st c ed) = [EVENT_ERROR e])"
  by (simp add: raise_disconnected_def split: option.split)

lemma deferred_disconnect_raised_ok:
  assumes "client_inv c" and "raised c = []"
  shows "client_raised_ok c (run_deferred_disconnect env (c\<lparr>deferred_tasks := remove1 DeferredDisconnect (deferred_tasks c)\<rparr>))"
proof -
  let ?c = "c\<lparr>deferred_tasks := remove1 DeferredDisconnect (deferred_tasks c)\<rparr>"
  have r: "client_ready ?c" using assms by (simp add: client_inv_defs)
  have s: "client_state_of ?c = client_state_of c" by (simp add: client_state_of_def)
  show ?thesis
    using deferred_disconnect_inv [OF assms(1), of env] assms(2)
      raise_disconnected_raised [of "run_disconnect S_DISCONNECTING ?c (env, CNull)"]
    unfolding client_raised_ok_def run_deferred_disconnect_def client_transition_deferred [OF r] s
    by (auto simp: client_state_of_def get_state_def)
qed

lemma session_neutral_pop_health_check:
  "session_neutral (\<lambda>c. c\<lparr>deferred_tasks := remove1 HealthCheckTask (deferred_tasks c)\<rparr>)"
  by (auto simp: session_neutral_def client_inv_defs count_list_remove1)

lemma session_neutral_health_task: "session_neutral run_health_check_task"
  by (auto simp: session_neutral_def client_inv_defs run_health_check_task_def)

lemma finalizer_rest_raised_ok:
  assumes "client_inv c" and "raised c = []"
  shows "client_raised_ok c (endpoint_connector_finalizer_rest env c)"
proof -
  have t: "client_inv (c_tunnel x c)" "raised (c_tunnel x c) = []" "client_state_of (c_tunnel x c) = client_state_of c"
    "kill_switch_on (c_tunnel x c) = kill_switch_on c" for x
    using assms by (simp_all add: client_inv_defs)
  have d: "client_inv (c'\<lparr>dns_health_check_id := b\<rparr>) = client_inv c'"
    "client_state_of (c'\<lparr>dns_health_check_id := b\<rparr>) = client_state_of c'"
    "client_inv (c_raise e c') = client_inv c'" "client_state_of (c_raise e c') = client_state_of c'" for c' b e
    by (simp_all add: client_inv_defs)
  show ?thesis
    using assms t
    by (simp add: client_raised_ok_def endpoint_connector_finalizer_rest_def do_dns_upstream_health_check_def
        Let_def d)
qed

lemma finalizer_raised_ok:
  assumes "client_inv c" and "raised c = []" and "ConnectorFinalizer \<in> set (deferred_tasks c)"
    and "endpoint_connector_finalizer env (c\<lparr>deferred_tasks := remove1 ConnectorFinalizer (deferred_tasks c)\<rparr>) = (g, c')"
  shows "client_raised_ok c c'"
  using finalizer_inv [OF assms(1,3,4)] assms(2)
  by (cases "client_pending_error c") (simp_all add: client_raised_ok_def)

lemma deliver_running:
  assumes "ev_loop v = LoopRunning" and "client_raised_ok (client v) c" and "sys_inv v"
  shows "ev_loop (deliver env (v\<lparr>client := c\<rparr>)) = LoopRunning"
proof -
  let ?w = "\<lambda>cs. v\<lparr>client := c\<lparr>raised := []\<rparr>, client_state := cs\<rparr>"
  have rest: "\<not> m_recursive (vpn_fsm (?w cs))" for cs using sys_inv_coreD(3) [OF assms(3)] by simp
  have fr: "loop_frame LoopRunning (executor_joinable v) (stopping v) (connect_tasks v) (kill_switch_on c) (?w cs)" for cs
    using assms by (simp add: loop_frame_def connect_tasks_alt client_raised_ok_def)
  have "ev_loop (vpn_transition ev env d (?w cs)) = LoopRunning" for ev d cs
    using vpn_transition_frame [OF rest fr] by (simp add: loop_frame_def)
  moreover have "raised c = [] \<or> (\<exists>e. raised c = [e])"
    using assms(2) by (auto simp: client_raised_ok_def)
  ultimately show ?thesis using assms(1)
    by (auto simp: deliver_def client_handler_def split: client_event.split)
qed

lemma run_client_task_inv:
  assumes inv: "sys_inv v" and run: "ev_loop v = LoopRunning" and t: "t \<in> set (deferred_tasks (client v))"
  shows "sys_inv (run_client_task env t v)"
proof (cases t)
  case ConnectorFinalizer
  note c = sys_inv_coreD [OF inv]
  obtain g c' where fin: "endpoint_connector_finalizer (cenv env)
      ((client v)\<lparr>deferred_tasks := remove1 ConnectorFinalizer (deferred_tasks (client v))\<rparr>) = (g, c')" by force
  have ok: "client_raised_ok (client v) c'"
    using finalizer_raised_ok [OF c(1,2) _ fin] t ConnectorFinalizer by simp
  let ?v = "deliver env (v\<lparr>client := c'\<rparr>)"
  have i1: "sys_inv ?v" and r1: "ev_loop ?v = LoopRunning"
    using deliver_inv [OF inv run ok] deliver_running [OF run ok inv] by auto
  have "sys_inv (deliver env (v_client (endpoint_connector_finalizer_rest (cenv env)) ?v))"
    using deliver_inv [OF i1 r1 finalizer_rest_raised_ok] sys_inv_coreD [OF i1] by (simp add: v_client_def)
  then show ?thesis
    using fin i1 ConnectorFinalizer by (simp add: run_client_task_def v_client_def Let_def)
next
  case HealthCheckTask
  then show ?thesis
    using inv by (simp add: run_client_task_def sys_inv_neutral session_neutral_pop_health_check
        session_neutral_health_task)
next
  case DeferredDisconnect
  then show ?thesis
    using deliver_inv [OF inv run deferred_disconnect_raised_ok] sys_inv_coreD [OF inv]
    by (simp add: run_client_task_def v_client_def)
qed

lemma upstream_handler_raised_ok:
  assumes inv: "client_inv c" and "raised c = []" and "\<not> endpoint_connector c" and "w \<noteq> SERVER_EVENT_SESSION_OPENED"
  shows "client_raised_ok c (vpn_upstream_handler w env c)"
proof -
  define c3 where "c3 = c_tunnel (TunnelUpstreamEvent w)
      (if is_disconnected_event w then c_tunnel TunnelBeforeEndpointDisconnect c else c)"
  have c3: "client_inv c3" "raised c3 = []" "client_state_of c3 = client_state_of c"
    "kill_switch_on c3 = kill_switch_on c"
    using assms by (auto simp: c3_def client_inv_defs)
  have quiet: "client_raised_ok c c3" using c3 by (simp add: client_raised_ok_def)
  have failed: "client_raised_ok c (client_transition ev env d c3)"
    if "ev \<in> {E_SESSION_ERROR, E_RUN_PREPARATION_FAIL, E_HEALTH_CHECK_ERROR}" for ev d
    using session_failed_inv [OF c3(1) that, of env d] c3 by (simp add: client_raised_ok_def)
  have "client_ready c3" "client_state_of c3 \<in> client_states" using c3(1) by (simp_all add: client_inv_def)
  note closed = client_transition_session_closed [OF this, of env CNull]
  have "\<not> endpoint_connector c3" using assms(3) by (simp add: c3_def)
  then have fin: "ConnectorFinalizer \<notin> set (deferred_tasks c3)" using c3(1) by (auto simp: client_inv_def)
  have "client_inv (client_transition E_SESSION_CLOSED env CNull c3)"
    unfolding closed using \<open>\<not> endpoint_connector c3\<close> fin
    by (simp add: client_inv_defs count_list_0_iff)
  then have closed_ok: "client_raised_ok c (client_transition E_SESSION_CLOSED env CNull c3)"
    using c3(4) raise_disconnected_raised [OF c3(2), of S_DISCONNECTED "(env, CNull)"]
    unfolding closed client_raised_ok_def by (simp add: client_state_of_def get_state_def)
  have "vpn_upstream_handler w env c =
      (case w of
         SERVER_EVENT_SESSION_CLOSED \<Rightarrow> client_transition E_SESSION_CLOSED env CNull c3
       | SERVER_EVENT_HEALTH_CHECK_ERROR e \<Rightarrow> client_transition E_HEALTH_CHECK_ERROR env (CError e) c3
       | SERVER_EVENT_ERROR i e \<Rightarrow> if i \<noteq> NON_ID then c3 else client_transition E_SESSION_ERROR env (CError e) c3
       | _ \<Rightarrow> c3)"
    using assms(3,4) unfolding vpn_upstream_handler_def Let_def c3_def by (simp split: server_event.split)
  then show ?thesis using quiet failed closed_ok by (simp split: server_event.split)
qed

lemma upstream_event_inv:
  assumes inv: "sys_inv v" and run: "ev_loop v = LoopRunning"
    and "\<not> endpoint_connector (client v)" and "w \<noteq> SERVER_EVENT_SESSION_OPENED"
  shows "sys_inv (upstream_event env w v)"
proof -
  have "session_neutral (vpn_upstream_handler_rest w)"
    by (auto simp: session_neutral_def vpn_upstream_handler_rest_def client_inv_defs)
  then show ?thesis
    using deliver_inv [OF inv run upstream_handler_raised_ok] sys_inv_coreD [OF inv] assms(3,4)
    by (simp add: upstream_event_def sys_inv_neutral v_client_def [of "vpn_upstream_handler w (cenv env)"])
qed

lemma connector_report_inv:
  assumes "sys_inv v" and "endpoint_connector (client v)"
    and "ConnectorFinalizer \<notin> set (deferred_tasks (client v))"
  shows "sys_inv (v_client (endpoint_connector_handler res env) v)"
  using sys_inv_client [OF assms(1) connector_handler_inv [of _ res env]] sys_inv_coreD [OF assms(1)] assms
  by (simp add: v_client_def connector_handler_frame client_state_of_def)

lemma session_neutral_direct: "session_neutral (direct_upstream_handler w)"
  by (cases w) (auto simp: session_neutral_def direct_upstream_handler_def client_inv_defs Let_def)

lemma dns_resolver_raised_ok:
  assumes "client_inv c" and "raised c = []"
  shows "client_raised_ok c (dns_resolver_handler b c)"
proof -
  have "client_inv (c\<lparr>dns_health_check_id := False\<rparr>)" "client_inv (c_raise e (c\<lparr>dns_health_check_id := False\<rparr>))" for e
    using assms by (simp_all add: client_inv_defs)
  then show ?thesis
    using assms by (simp add: client_raised_ok_def dns_resolver_handler_def Let_def client_state_of_def)
qed

lemma loop_step_inv:
  assumes inv: "sys_inv v" and run: "ev_loop v = LoopRunning" and step: "loop_step env l v = Some v'"
  shows "sys_inv v'"
proof (cases l)
  case RunTask
  with step obtain t ts where "tasks v = t # ts" "v' = run_task env t (v\<lparr>tasks := ts\<rparr>)"
    by (auto split: list.splits)
  then show ?thesis using run_task_inv [OF inv run] by simp
next
  case (DnsResolved b)
  then show ?thesis
    using step deliver_inv [OF inv run dns_resolver_raised_ok] sys_inv_coreD [OF inv]
    by (auto simp: v_client_def split: if_splits)
next
  case (ClientTask t)
  then show ?thesis using step run_client_task_inv [OF inv run] by (auto split: if_splits)
next
  case (UpstreamEvent w)
  then show ?thesis using step upstream_event_inv [OF inv run] by (auto split: if_splits)
next
  case (ConnectorReport r)
  then show ?thesis using step connector_report_inv [OF inv] by (auto split: if_splits)
qed (use step in \<open>auto simp: recovery_timer_inv [OF inv run] postponement_timer_inv [OF inv]
    pinger_handler_inv [OF inv run] sys_inv_neutral [OF session_neutral_direct inv] split: if_splits\<close>)

text \<open>Calls of the application.\<close>

lemma run_event_loop_inv:
  assumes inv: "sys_inv v" and j: "\<not> executor_joinable v" and run: "run_event_loop env v = (ok, v')"
  shows "sys_inv v'" and "ok \<Longrightarrow> sys_inv (submit (TaskConnect cfg r) v')"
proof -
  have v: "session_state v = VPN_SS_DISCONNECTED" "ev_loop v \<noteq> LoopRunning" "filter is_connect_task (tasks v) = []"
    using inv j by (auto simp: sys_inv_def connect_tasks_alt)
  have g: "get_state (vpn_fsm v) = VPN_SS_DISCONNECTED" "\<not> m_recursive (vpn_fsm v)"
    using inv v by (simp_all add: sys_inv_def session_state_def)
  have vi: "vpn_inv VPN_SS_DISCONNECTED (v\<lparr>ev_loop := LoopRunning\<rparr>)" using inv v by (simp add: sys_inv_def)
  have "sys_inv (v\<lparr>ev_loop := LoopStopped\<rparr>)"
    using vi v g j by (simp add: sys_inv_def session_state_def connect_tasks_alt)
  moreover have run_inv: "sys_inv (v\<lparr>ev_loop := LoopRunning, executor_joinable := True, tasks := tasks v @ ts\<rparr>)"
    if "length (filter is_connect_task ts) \<le> 1" for ts
  proof -
    have "vpn_inv VPN_SS_DISCONNECTED (v\<lparr>executor_joinable := True, tasks := tasks v @ ts, ev_loop := LoopRunning\<rparr>)"
      using vi by (simp add: vpn_inv_def vpn_core_def)
    then show ?thesis using v g that by (simp add: sys_inv_def session_state_def connect_tasks_alt)
  qed
  ultimately show "sys_inv v'" using inv run run_inv [of "[]"] by (auto simp: run_event_loop_def split: if_splits)
  assume ok
  then show "sys_inv (submit (TaskConnect cfg r) v')"
    using run run_inv [of "[TaskConnect cfg r]"]
    by (auto simp: run_event_loop_def submit_def is_connect_task_def split: if_splits)
qed

lemma vpn_connect_inv:
  assumes "sys_inv v"
  shows "sys_inv (snd (vpn_connect env cfg p v))"
proof -
  obtain ok v' where run: "run_event_loop env v = (ok, v')" by force
  show ?thesis
    using assms run_event_loop_inv [OF assms _ run] by (simp add: vpn_connect_def run Let_def)
qed

lemma client_finalize_disconnect_inv:
  "client_inv (client_finalize_disconnect c)" "client_state_of (client_finalize_disconnect c) = S_DISCONNECTED"
  "raised (client_finalize_disconnect c) = raised c"
  "kill_switch_on (client_finalize_disconnect c) = kill_switch_on c"
  by (simp_all add: client_finalize_disconnect_def Let_def client_inv_defs fsm_reset_def client_params_def)

lemma vpn_stop_end_inv:
  assumes "sys_inv v"
  shows "sys_inv (vpn_stop_end v)"
  using assms client_finalize_disconnect_inv [of "client v"]
  by (simp add: sys_inv_def vpn_inv_def vpn_core_def recovery_armed_def wake_pending_def session_state_def
      connect_tasks_alt vpn_stop_end_def Let_def fsm_reset_def vpn_params_def stop_pinging_def
      get_state_def vpn_states_def fresh_recovery_def)

lemma filter_exclusions_inv:
  assumes "sys_inv v"
  shows "sys_inv (v\<lparr>tasks := filter (\<lambda>t. \<not> is_update_exclusions t) (tasks v)\<rparr>)"
proof -
  have "filter is_connect_task (filter (\<lambda>t. \<not> is_update_exclusions t) (tasks v)) = filter is_connect_task (tasks v)"
    by (simp add: is_connect_task_def is_update_exclusions_def cong: filter_cong)
       (rule filter_cong; auto split: vpn_task.split)
  then show ?thesis using assms
    by (simp add: sys_inv_def vpn_inv_def vpn_core_def recovery_armed_def wake_pending_def session_state_def
      connect_tasks_alt is_update_exclusions_def)
qed

lemma update_exclusions_inv:
  assumes "sys_inv v"
  shows "sys_inv (vpn_update_exclusions m e v)"
proof -
  let ?f = "\<lambda>b. (if b then v\<lparr>tasks := filter (\<lambda>t. \<not> is_update_exclusions t) (tasks v)\<rparr> else v)"
  have "sys_inv (?f b)" for b using assms filter_exclusions_inv by simp
  from sys_inv_append [OF this, of "TaskUpdateExclusions m e" "update_exclusions_task v"]
  have "sys_inv (v\<lparr>tasks := (if update_exclusions_task v
      then filter (\<lambda>t. \<not> is_update_exclusions t) (tasks v) else tasks v) @ [TaskUpdateExclusions m e]\<rparr>)"
    by (simp split: if_splits)
  then show ?thesis
    using assms by (simp add: vpn_update_exclusions_def)
qed

lemma api_call_inv:
  assumes "sys_inv v"
  shows "sys_inv (api_call env l v)"
  using assms
  by (cases l) (simp_all add: vpn_connect_inv sys_inv_submit vpn_listen_def vpn_stop_begin_def
      vpn_complete_connect_request_def update_exclusions_inv submit_if_active_def
      vpn_request_endpoint_connection_stats_def split: option.split)

lemma vpn_step_inv:
  assumes "sys_inv v" and "vpn_step env l v = Some v'"
  shows "sys_inv v'"
  using assms api_call_inv vpn_stop_end_inv loop_step_inv by (auto simp: vpn_step_def split: if_splits)

lemma vpn_open_inv: "sys_inv (vpn_open k m tmp)"
  by (simp add: sys_inv_def vpn_inv_def vpn_core_def recovery_armed_def wake_pending_def session_state_def
      connect_tasks_alt vpn_open_def opened_client_def fsm_init_def vpn_params_def client_params_def
      client_inv_defs get_state_def vpn_states_def fresh_recovery_def)

lemma reachable_inv:
  assumes "vpn_reachable (vpn_open k m tmp) v"
  shows "sys_inv v"
  using assms by induction (auto simp: vpn_open_inv intro: vpn_step_inv)

section \<open>Transitions of the session\<close>

lemma vpn_transition_find:
  assumes "\<not> m_recursive (vpn_fsm v)"
  shows "vpn_transition ev env d v =
     (case List.find (entry_matches (session_state v) ev v (env, d)) (rows (session_state v) ev vpn_table) of
        None \<Rightarrow> v
      | Some e \<Rightarrow> (snd (fire e (env, d) (session_state v) v))
          \<lparr>vpn_fsm := \<lparr>m_current_state = fst (fire e (env, d) (session_state v) v), m_recursive = False\<rparr>\<rparr>)"
proof -
  obtain st where "vpn_fsm v = \<lparr>m_current_state = st, m_recursive = False\<rparr>"
    using assms by (cases "vpn_fsm v") simp
  then show ?thesis
    by (simp add: vpn_transition_def perform_transition_find vpn_params_def session_state_def get_state_def
        split: option.split)
qed

lemma session_state_upd [simp]: "session_state (v\<lparr>vpn_fsm := \<lparr>m_current_state = st, m_recursive = r\<rparr>\<rparr>) = st"
  by (simp add: session_state_def get_state_def)

text \<open>A run of the system, given by the steps it takes.\<close>

fun vpn_run :: "(vpn_env \<times> vpn_label) list \<Rightarrow> vpn \<Rightarrow> vpn option" where
  "vpn_run [] v = Some v"
| "vpn_run ((env, l) # ls) v = (case vpn_step env l v of None \<Rightarrow> None | Some v' \<Rightarrow> vpn_run ls v')"

lemma vpn_run_reachable:
  assumes "vpn_reachable v0 v" and "vpn_run ls v = Some v'"
  shows "vpn_reachable v0 v'"
  using assms by (induction ls v rule: vpn_run.induct) (auto split: option.splits intro: vpn_reachable.step)

end
