(* ===== verification/TT_Wire_Utils.thy ===== *)
theory TT_Wire_Utils
  imports TT_Prelude
begin

text \<open>
  The byte writer and reader of the wire formats (\<open>core/include/vpn/internal/wire_utils.h\<close>). A
  \<open>Writer\<close> is a view of a buffer: here the bytes already written and the number of bytes left, and
  a write that does not fit, which the code asserts against, gives \<open>None\<close>. A \<open>Reader\<close> is the bytes
  that are left to read; a read that does not fit returns \<open>None\<close> and leaves the reader alone.
\<close>

unbundle bit_operations_syntax

section \<open>Definitions\<close>

definition IPV4_ADDR_SIZE :: nat where
  "IPV4_ADDR_SIZE = 4"

definition IPV6_ADDR_SIZE :: nat where
  "IPV6_ADDR_SIZE = 16"

definition PADDED_IP_SIZE :: nat where
  "PADDED_IP_SIZE = IPV6_ADDR_SIZE"

definition IPV4_6_SIZE_DIFF :: nat where
  "IPV4_6_SIZE_DIFF = IPV6_ADDR_SIZE - IPV4_ADDR_SIZE"

text \<open>Network byte order: \<open>htons\<close> and \<open>htonl\<close> followed by \<open>memcpy\<close>, and back.\<close>

definition be16 :: "u16 \<Rightarrow> bytes" where
  "be16 v = [ucast (drop_bit 8 v), ucast v]"

definition be32 :: "u32 \<Rightarrow> bytes" where
  "be32 v = [ucast (drop_bit 24 v), ucast (drop_bit 16 v), ucast (drop_bit 8 v), ucast v]"

definition of_be16 :: "bytes \<Rightarrow> u16" where
  "of_be16 b = push_bit 8 (ucast (b ! 0)) OR ucast (b ! 1)"

definition of_be32 :: "bytes \<Rightarrow> u32" where
  "of_be32 b = push_bit 24 (ucast (b ! 0)) OR push_bit 16 (ucast (b ! 1)) OR push_bit 8 (ucast (b ! 2)) OR ucast (b ! 3)"

record writer =
  written :: bytes
  space :: nat

definition writer_of :: "nat \<Rightarrow> writer" where
  "writer_of n = \<lparr>written = [], space = n\<rparr>"

definition put_data :: "bytes \<Rightarrow> writer \<Rightarrow> writer option" where
  "put_data d w =
     (if length d \<le> space w then Some \<lparr>written = written w @ d, space = space w - length d\<rparr> else None)"

definition put_u8 :: "u8 \<Rightarrow> writer \<Rightarrow> writer option" where
  "put_u8 v = put_data [v]"

definition put_u16 :: "u16 \<Rightarrow> writer \<Rightarrow> writer option" where
  "put_u16 v = put_data (be16 v)"

definition put_u32 :: "u32 \<Rightarrow> writer \<Rightarrow> writer option" where
  "put_u32 v = put_data (be32 v)"

definition put_ip :: "sock_addr \<Rightarrow> writer \<Rightarrow> writer option" where
  "put_ip a = put_data (sa_addr a)"

definition put_ip_padded :: "sock_addr \<Rightarrow> writer \<Rightarrow> writer option" where
  "put_ip_padded a w =
     (if is_ipv4 a then Option.bind (put_data (replicate IPV4_6_SIZE_DIFF 0) w) (put_ip a) else put_ip a w)"

text \<open>The buffer under a writer whose bytes were zero at first.\<close>

definition writer_buffer :: "writer \<Rightarrow> bytes" where
  "writer_buffer w = written w @ replicate (space w) 0"

definition drain :: "nat \<Rightarrow> bytes \<Rightarrow> bytes" where
  "drain n b = drop (min n (length b)) b"

definition get_bytes :: "nat \<Rightarrow> bytes \<Rightarrow> bytes option \<times> bytes" where
  "get_bytes n b = (if length b < n then (None, b) else (Some (take n b), drop n b))"

definition get_u8 :: "bytes \<Rightarrow> u8 option \<times> bytes" where
  "get_u8 b = (if length b < 1 then (None, b) else (Some (b ! 0), drop 1 b))"

definition get_u16 :: "bytes \<Rightarrow> u16 option \<times> bytes" where
  "get_u16 b = (if length b < 2 then (None, b) else (Some (of_be16 b), drop 2 b))"

definition get_u32 :: "bytes \<Rightarrow> u32 option \<times> bytes" where
  "get_u32 b = (if length b < 4 then (None, b) else (Some (of_be32 b), drop 4 b))"

definition get_ip :: "bool \<Rightarrow> bytes \<Rightarrow> sock_addr option \<times> bytes" where
  "get_ip is_v4 b =
     (let ip_size = (if is_v4 then IPV4_ADDR_SIZE else IPV6_ADDR_SIZE) in
      if length b < ip_size then (None, b)
      else (Some ((if is_v4 then SA_V4 else SA_V6) (take ip_size b) 0), drop ip_size b))"

definition in6addr_loopback :: bytes where
  "in6addr_loopback = replicate 15 0 @ [1]"

definition get_ip_padded :: "bytes \<Rightarrow> sock_addr option \<times> bytes" where
  "get_ip_padded b =
     (if length b < PADDED_IP_SIZE then (None, b)
      else
        (let is_ipv4 = list_all (\<lambda>x. x = 0) (take IPV4_6_SIZE_DIFF b) \<and> take IPV6_ADDR_SIZE b \<noteq> in6addr_loopback
         in get_ip is_ipv4 (if is_ipv4 then drop IPV4_6_SIZE_DIFF b else b)))"

section \<open>Facts\<close>

lemmas ip_sizes = IPV4_ADDR_SIZE_def IPV6_ADDR_SIZE_def PADDED_IP_SIZE_def IPV4_6_SIZE_DIFF_def

lemma length_be [simp]: "length (be16 v) = 2" "length (be32 w) = 4"
  by (simp_all add: be16_def be32_def)

lemma of_be16_be16 [simp]: "of_be16 (be16 v @ r) = v"
  by (rule bit_eqI) (auto simp: of_be16_def be16_def bit_simps not_less)

lemma of_be32_be32 [simp]: "of_be32 (be32 v @ r) = v"
proof (rule bit_eqI)
  fix n assume "possible_bit TYPE(u32) n"
  then have "n < 32" by simp
  then consider "n < 8" | "8 \<le> n" "n < 16" | "16 \<le> n" "n < 24" | "24 \<le> n" "n < 32" by linarith
  then show "bit (of_be32 (be32 v @ r)) n = bit v n"
    by cases (auto simp: of_be32_def be32_def bit_simps less_diff_conv2)
qed

lemma get_u16_be16 [wire_simps]: "get_u16 (be16 v @ r) = (Some v, r)"
  by (simp add: get_u16_def)

lemma get_u32_be32 [wire_simps]: "get_u32 (be32 v @ r) = (Some v, r)"
  by (simp add: get_u32_def)

lemma get_u8_Cons [wire_simps]: "get_u8 (v # r) = (Some v, r)"
  by (simp add: get_u8_def)

lemma get_bytes_append [wire_simps]: "n = length d \<Longrightarrow> get_bytes n (d @ r) = (Some d, r)"
  by (simp add: get_bytes_def)

text \<open>The bytes of an address on the wire.\<close>

definition padded_ip :: "sock_addr \<Rightarrow> bytes" where
  "padded_ip a = (if is_ipv4 a then replicate 12 0 else []) @ sa_addr a"

lemma length_padded_ip [simp]: "sa_wf a \<Longrightarrow> a \<noteq> SA_Unspec \<Longrightarrow> length (padded_ip a) = 16"
  by (cases a) (auto simp: padded_ip_def)

lemma put_data_writer [wire_simps]:
  "length d \<le> n \<Longrightarrow> put_data d \<lparr>written = b, space = n\<rparr> = Some \<lparr>written = b @ d, space = n - length d\<rparr>"
  by (simp add: put_data_def)

lemma put_ip_padded_writer [wire_simps]:
  assumes "sa_wf a" and "a \<noteq> SA_Unspec" and "16 \<le> n"
  shows "put_ip_padded a \<lparr>written = b, space = n\<rparr> = Some \<lparr>written = b @ padded_ip a, space = n - 16\<rparr>"
  using assms by (cases a) (simp_all add: put_ip_padded_def put_ip_def put_data_def padded_ip_def ip_sizes)

text \<open>
  Padding is ambiguous: the IPv4 address 0.0.0.1 is written like the IPv6 loopback address and read
  back as that, and an IPv6 address that starts with twelve zero bytes is read back as an IPv4 address.
  These are the only addresses that do not survive.
\<close>

definition padded_unambiguous :: "sock_addr \<Rightarrow> bool" where
  "padded_unambiguous a \<longleftrightarrow>
     (case a of SA_Unspec \<Rightarrow> False
      | SA_V4 b _ \<Rightarrow> b \<noteq> [0, 0, 0, 1]
      | SA_V6 b _ \<Rightarrow> take 12 b \<noteq> replicate 12 0 \<or> b = in6addr_loopback)"

lemma all_zero_replicate: "list_all (\<lambda>x. x = 0) xs \<longleftrightarrow> xs = replicate (length xs) 0"
  by (induction xs) auto

lemma get_ip_padded_padded_ip:
  assumes "sa_wf a" and "a \<noteq> SA_Unspec"
  shows "get_ip_padded (padded_ip a @ r) =
    (Some (if padded_unambiguous a then set_port a 0
           else if is_ipv4 a then SA_V6 in6addr_loopback 0 else SA_V4 (drop 12 (sa_addr a)) 0), r)"
proof (cases a)
  case (SA_V4 b p)
  then have "replicate 12 0 @ b = in6addr_loopback \<longleftrightarrow> b = [0, 0, 0, 1]"
    by (simp add: in6addr_loopback_def numeral_eq_Suc)
  then show ?thesis using SA_V4 assms
    by (auto simp: get_ip_padded_def get_ip_def padded_ip_def ip_sizes Let_def padded_unambiguous_def
        all_zero_replicate in6addr_loopback_def)
next
  case (SA_V6 b p)
  then show ?thesis using assms
    by (auto simp: get_ip_padded_def get_ip_def padded_ip_def ip_sizes Let_def padded_unambiguous_def
        all_zero_replicate min_def)
qed (use assms in simp)

lemma get_ip_padded_unambiguous [wire_simps]:
  assumes "sa_wf a" and "padded_unambiguous a"
  shows "get_ip_padded (padded_ip a @ r) = (Some (set_port a 0), r)"
  using assms get_ip_padded_padded_ip [of a r] by (cases a) (auto simp: padded_unambiguous_def)

lemma get_u16_total: "n + 2 \<le> length b \<Longrightarrow> \<exists>v. get_u16 (drop n b) = (Some v, drop (n + 2) b)"
  by (auto simp: get_u16_def add.commute)

lemma get_ip_padded_total: "n + 16 \<le> length b \<Longrightarrow> \<exists>a. get_ip_padded (drop n b) = (Some a, drop (n + 16) b)"
  by (auto simp: get_ip_padded_def get_ip_def ip_sizes Let_def add.commute)

text \<open>The addresses that survive the padded format.\<close>

definition addr_ok :: "sock_addr \<Rightarrow> bool" where
  "addr_ok a \<longleftrightarrow> sa_wf a \<and> padded_unambiguous a"

lemma addr_ok_spec [simp]: "addr_ok a \<Longrightarrow> a \<noteq> SA_Unspec" "addr_ok a \<Longrightarrow> sa_wf a" "addr_ok a \<Longrightarrow> padded_unambiguous a"
  by (auto simp: addr_ok_def padded_unambiguous_def)

section \<open>Readers of a byte stream\<close>

text \<open>
  The contract of a component that is fed a byte stream in pieces, as the network delivers it: the
  pieces may be cut anywhere. Whoever feeds it may then reason about the stream as a whole.
\<close>

locale chunked_reader =
  fixes feed :: "bytes \<Rightarrow> 's \<Rightarrow> 's" and ready :: "'s \<Rightarrow> bool"
  assumes feed_nil: "feed [] s = s"
    and feed_ready: "ready s \<Longrightarrow> ready (feed xs s)"
    and feed_append: "ready s \<Longrightarrow> feed (xs @ ys) s = feed ys (feed xs s)"
begin

lemma feed_concat: "ready s \<Longrightarrow> fold feed chunks s = feed (concat chunks) s"
  by (induction chunks arbitrary: s) (simp_all add: feed_nil feed_ready feed_append)

lemma feed_regroup:
  "ready s \<Longrightarrow> concat chunks = concat chunks' \<Longrightarrow> fold feed chunks s = fold feed chunks' s"
  by (simp add: feed_concat)

end

end
