(* ===== verification/TT_Udp_Multiplexer.thy ===== *)
theory TT_Udp_Multiplexer
  imports TT_Wire_Utils TT_Vpn_Types
begin

text \<open>
  The multiplexer of UDP connections over one HTTP stream (\<open>core/src/http_udp_multiplexer.cpp\<close>):
  the composition of outgoing packets, the table of connections, the deferred tasks and the timer
  of a connection, and the incremental parser of the incoming stream.

  The events that the code raises to the handler of its upstream and the calls of its callbacks are
  a log; a failed assertion is a fault. The handler does not call the multiplexer back.
  A deferred task belongs to its connection, whose destruction cancels it: it is a flag of the
  connection. Buffer sizes are \<open>nat\<close>.
\<close>

section \<open>Packets\<close>

definition UDPPKT_LENGTH_SIZE :: nat where
  "UDPPKT_LENGTH_SIZE = 4"

definition UDPPKT_ADDR_SIZE :: nat where
  "UDPPKT_ADDR_SIZE = 16"

definition UDPPKT_PORT_SIZE :: nat where
  "UDPPKT_PORT_SIZE = 2"

definition UDPPKT_IN_PREFIX_SIZE :: nat where
  "UDPPKT_IN_PREFIX_SIZE = UDPPKT_LENGTH_SIZE + 2 * (UDPPKT_ADDR_SIZE + UDPPKT_PORT_SIZE)"

definition UDPPKT_APPLEN_SIZE :: nat where
  "UDPPKT_APPLEN_SIZE = 1"

definition MAX_UDP_PAYLOAD_SIZE :: nat where
  "MAX_UDP_PAYLOAD_SIZE = 65535 - 8"

definition MAX_UDP_IN_PACKET_LENGTH :: nat where
  "MAX_UDP_IN_PACKET_LENGTH = MAX_UDP_PAYLOAD_SIZE + UDPPKT_IN_PREFIX_SIZE - UDPPKT_LENGTH_SIZE"

lemmas udppkt_sizes = UDPPKT_LENGTH_SIZE_def UDPPKT_ADDR_SIZE_def UDPPKT_PORT_SIZE_def
  UDPPKT_IN_PREFIX_SIZE_def UDPPKT_APPLEN_SIZE_def MAX_UDP_PAYLOAD_SIZE_def MAX_UDP_IN_PACKET_LENGTH_def

lemma prefix_size [simp]: "UDPPKT_IN_PREFIX_SIZE = 40" "MAX_UDP_IN_PACKET_LENGTH = 65563"
  by (simp_all add: udppkt_sizes)

definition compose_udp_packet :: "sock_addr \<Rightarrow> sock_addr \<Rightarrow> bytes \<Rightarrow> bytes \<Rightarrow> bytes option" where
  "compose_udp_packet s d app_name data =
     (let full_length = UDPPKT_IN_PREFIX_SIZE + UDPPKT_APPLEN_SIZE + length app_name + length data;
          app = take 255 app_name;
          steps = [put_u32 (of_nat (full_length - UDPPKT_LENGTH_SIZE)), put_ip_padded s, put_u16 (sa_port s),
                   put_ip_padded d, put_u16 (sa_port d), put_u8 (of_nat (length app)), put_data app, put_data data]
      in map_option writer_buffer (fold (\<lambda>f w. Option.bind w f) steps (Some (writer_of full_length))))"

section \<open>State\<close>

datatype multiplexer_state = MS_IDLE | MS_ESTABLISHED

datatype recv_state = RCS_IDLE | RCS_PAYLOAD | RCS_DROPPING

record udp_conn =
  read_enabled :: bool
  conn_addr :: addr_pair
  conn_app :: bytes
  sent_bytes_since_flush :: nat
  conn_timeout :: time_point
  open_task_id :: bool
  close_task_id :: bool

record recv_connection =
  rc_state :: recv_state
  rc_id :: u64
  bytes_left :: nat
  rc_buffer :: bytes

definition recv_idle :: recv_connection where
  "recv_idle = \<lparr>rc_state = RCS_IDLE, rc_id = NON_ID, bytes_left = 0, rc_buffer = []\<rparr>"

datatype mux_effect =
    MuxConnectionOpened u64
  | MuxConnectionClosed u64
  | MuxConnectionError u64 vpn_error
  | MuxRead u64 bytes
  | MuxDataSent u64 nat
  | MuxSendData u64 bytes
  | MuxConsume u64 nat

record udp_mux =
  m_state :: multiplexer_state
  m_stream_id :: u64
  m_recv_connection :: recv_connection
  m_addr_to_id :: "(addr_pair \<times> u64) list"
  m_connections :: "(u64 \<times> udp_conn) list"
  m_timer_event :: bool
  m_pending_error :: "vpn_error option"
  mux_out :: "mux_effect list"
  mux_faults :: "fault list"

definition udp_mux_init :: udp_mux where
  "udp_mux_init = \<lparr>m_state = MS_IDLE, m_stream_id = 0, m_recv_connection = recv_idle, m_addr_to_id = [],
     m_connections = [], m_timer_event = False, m_pending_error = None, mux_out = [], mux_faults = []\<rparr>"

definition mux_emit :: "mux_effect \<Rightarrow> udp_mux \<Rightarrow> udp_mux" where
  "mux_emit x m = m\<lparr>mux_out := mux_out m @ [x]\<rparr>"

definition mux_fault :: "fault \<Rightarrow> udp_mux \<Rightarrow> udp_mux" where
  "mux_fault f m = m\<lparr>mux_faults := mux_faults m @ [f]\<rparr>"

definition VPN_DEFAULT_UDP_TIMEOUT_MS :: millis where
  "VPN_DEFAULT_UDP_TIMEOUT_MS = 5 * 60 * 1000"

definition conn_deadline :: "time_point \<Rightarrow> time_point" where
  "conn_deadline t = t + ns_of_millis VPN_DEFAULT_UDP_TIMEOUT_MS"

section \<open>Operations\<close>

definition clean_connection_data :: "u64 \<Rightarrow> udp_mux \<Rightarrow> bool \<times> udp_mux" where
  "clean_connection_data i m =
     (case map_of (m_connections m) i of
        None \<Rightarrow> (False, m)
      | Some c \<Rightarrow>
          (let m1 = (if rc_id (m_recv_connection m) = i
                     then m\<lparr>m_recv_connection := (m_recv_connection m)\<lparr>rc_state := RCS_DROPPING\<rparr>\<rparr> else m)
           in (True, m1\<lparr>m_addr_to_id := AList.delete (conn_addr c) (m_addr_to_id m1),
                        m_connections := AList.delete i (m_connections m1)\<rparr>)))"

definition mux_reset :: "udp_mux \<Rightarrow> udp_mux" where
  "mux_reset m = m\<lparr>m_state := MS_IDLE, m_stream_id := 0, m_addr_to_id := [], m_recv_connection := recv_idle,
     m_timer_event := False\<rparr>"

definition close_one :: "vpn_error option \<Rightarrow> u64 \<Rightarrow> udp_mux \<Rightarrow> udp_mux" where
  "close_one e i m =
     snd (clean_connection_data i
       (mux_emit (case e of Some x \<Rightarrow> MuxConnectionError i x | None \<Rightarrow> MuxConnectionClosed i) m))"

definition mux_close :: "vpn_error \<Rightarrow> udp_mux \<Rightarrow> udp_mux" where
  "mux_close serv_err m =
     (let e = (case m_pending_error m of
                 Some x \<Rightarrow> Some x
               | None \<Rightarrow> if ec serv_err \<noteq> 0 then Some serv_err else None)
      in mux_reset (fold (close_one e) (map fst (m_connections m)) m))"

definition complete_udp_connection :: "u64 \<Rightarrow> udp_mux \<Rightarrow> udp_mux" where
  "complete_udp_connection i m =
     (if m_state m = MS_ESTABLISHED
      then case map_of (m_connections m) i of
             None \<Rightarrow> m
           | Some c \<Rightarrow>
               mux_emit (MuxConnectionOpened i)
                 (m\<lparr>m_connections := AList.update i (c\<lparr>open_task_id := False\<rparr>) (m_connections m),
                    m_addr_to_id := AList.update (conn_addr c) i (m_addr_to_id m)\<rparr>)
      else m)"

text \<open>\<open>stream\<close> is what the connect request callback returns.\<close>

definition open_connection ::
  "u64 option \<Rightarrow> time_point \<Rightarrow> u64 \<Rightarrow> addr_pair \<Rightarrow> bytes \<Rightarrow> udp_mux \<Rightarrow> bool \<times> udp_mux" where
  "open_connection stream t conn_id a app m =
     (if (case dst a of TA_Sock _ \<Rightarrow> False | TA_Name _ _ \<Rightarrow> True) then (False, mux_fault (AssertFailed ''0'') m)
      else if map_of (m_connections m) conn_id \<noteq> None then (False, mux_fault (AssertFailed ''0'') m)
      else
        (let m1 = (if m_state m = MS_IDLE \<and> m_stream_id m \<noteq> 0 then mux_fault (AssertFailed ''m_stream_id == 0'') m else m);
             m2 = (if m_state m1 = MS_IDLE
                   then map_option (\<lambda>sid. m1\<lparr>m_stream_id := sid, m_state := MS_ESTABLISHED\<rparr>) stream
                   else Some m1)
         in case m2 of
              None \<Rightarrow> (False, m1)
            | Some m3 \<Rightarrow>
                (True, m3\<lparr>m_connections := m_connections m3 @
                     [(conn_id, \<lparr>read_enabled = False, conn_addr = a, conn_app = app, sent_bytes_since_flush = 0,
                        conn_timeout = conn_deadline t, open_task_id = True, close_task_id = False\<rparr>)],
                   m_timer_event := True\<rparr>)))"

definition close_connection_now :: "u64 \<Rightarrow> udp_mux \<Rightarrow> udp_mux" where
  "close_connection_now i m =
     (let (existed, m1) = clean_connection_data i m in
      if \<not> existed then m1 else mux_emit (MuxConnectionClosed i) m1)"

definition close_connection :: "u64 \<Rightarrow> bool \<Rightarrow> udp_mux \<Rightarrow> udp_mux" where
  "close_connection i async m =
     (if \<not> async then close_connection_now i m
      else case map_of (m_connections m) i of
             None \<Rightarrow> mux_emit (MuxConnectionClosed i) m
           | Some c \<Rightarrow> m\<lparr>m_connections := AList.update i (c\<lparr>close_task_id := True\<rparr>) (m_connections m)\<rparr>)"

definition check_connection :: "u64 \<Rightarrow> udp_mux \<Rightarrow> bool" where
  "check_connection i m \<longleftrightarrow> map_of (m_connections m) i \<noteq> None"

text \<open>\<open>r\<close> is what the data callback returns for the packet; the result is \<open>None\<close> for -1.\<close>

definition mux_send :: "(bytes \<Rightarrow> int) \<Rightarrow> time_point \<Rightarrow> u64 \<Rightarrow> bytes \<Rightarrow> udp_mux \<Rightarrow> nat option \<times> udp_mux" where
  "mux_send r t i data m0 =
     (let m = (if m_state m0 = MS_ESTABLISHED then m0 else mux_fault (AssertFailed ''m_state == MS_ESTABLISHED'') m0) in
      case map_of (m_connections m) i of
        None \<Rightarrow> (None, m)
      | Some c \<Rightarrow>
          (case dst (conn_addr c) of
             TA_Name _ _ \<Rightarrow> (None, mux_fault (NullDeref ''dst'') m)
           | TA_Sock d \<Rightarrow>
               (case compose_udp_packet (src (conn_addr c)) d (conn_app c) data of
                  None \<Rightarrow> (None, mux_fault (AssertFailed ''m_buffer.size()'') m)
                | Some packet \<Rightarrow>
                    (let m1 = mux_emit (MuxSendData (m_stream_id m) packet) m in
                     if r packet = 0
                     then (Some (length data),
                           m1\<lparr>m_connections := AList.update i (c\<lparr>conn_timeout := conn_deadline t,
                                sent_bytes_since_flush := sent_bytes_since_flush c + length data\<rparr>) (m_connections m1)\<rparr>)
                     else (None, m1)))))"

record packet_info =
  pi_id :: u64
  payload_length :: nat

text \<open>\<open>None\<close> is the exception of an empty \<open>std::optional\<close>.\<close>

definition read_prefix :: "udp_mux \<Rightarrow> bytes \<Rightarrow> packet_info option" where
  "read_prefix m data =
     (case get_u32 data of
        (None, _) \<Rightarrow> None
      | (Some len, r1) \<Rightarrow>
          if unat len < UDPPKT_IN_PREFIX_SIZE - UDPPKT_LENGTH_SIZE then Some \<lparr>pi_id = NON_ID, payload_length = 0\<rparr>
          else
            (case get_ip_padded r1 of
               (None, _) \<Rightarrow> None
             | (Some s, r2) \<Rightarrow>
                 (case get_u16 r2 of
                    (None, _) \<Rightarrow> None
                  | (Some sp, r3) \<Rightarrow>
                      (case get_ip_padded r3 of
                         (None, _) \<Rightarrow> None
                       | (Some d, r4) \<Rightarrow>
                           (case get_u16 r4 of
                              (None, _) \<Rightarrow> None
                            | (Some dp, _) \<Rightarrow>
                                if MAX_UDP_IN_PACKET_LENGTH < unat len
                                then Some \<lparr>pi_id = NON_ID, payload_length = 0\<rparr>
                                else
                                  Some \<lparr>pi_id = (case map_of (m_addr_to_id m)
                                          \<lparr>src = set_port d dp, dst = TA_Sock (set_port s sp)\<rparr> of
                                            Some i \<Rightarrow> i | None \<Rightarrow> NON_ID),
                                        payload_length = unat len - (UDPPKT_IN_PREFIX_SIZE - UDPPKT_LENGTH_SIZE)\<rparr>)))))"

text \<open>
  One turn of the loop of \<open>process_read_event\<close>, with the data that is left after it. An exception
  ends the loop.
\<close>

definition drop_packet :: "udp_mux \<Rightarrow> u64 \<Rightarrow> bool" where
  "drop_packet m i \<longleftrightarrow>
     i = NON_ID \<or> (case map_of (m_connections m) i of None \<Rightarrow> True | Some c \<Rightarrow> \<not> read_enabled c)"

definition read_turn_idle :: "bytes \<Rightarrow> udp_mux \<Rightarrow> bytes \<times> udp_mux" where
  "read_turn_idle data m0 =
     (let rc = m_recv_connection m0;
          m = (if length (rc_buffer rc) < UDPPKT_IN_PREFIX_SIZE then m0 else mux_fault (AssertFailed ''buffer.size()'') m0);
          to_read = min (UDPPKT_IN_PREFIX_SIZE - length (rc_buffer rc)) (length data);
          buf = rc_buffer rc @ take to_read data
      in if length buf < UDPPKT_IN_PREFIX_SIZE
         then (drop to_read data, m\<lparr>m_recv_connection := rc\<lparr>rc_buffer := buf\<rparr>\<rparr>)
         else case read_prefix m buf of
                None \<Rightarrow> ([], mux_fault (NullDeref ''optional'') m)
              | Some info \<Rightarrow>
                  (drop to_read data,
                   m\<lparr>m_recv_connection :=
                      (if drop_packet m (pi_id info) then rc\<lparr>rc_state := RCS_DROPPING\<rparr>
                       else rc\<lparr>rc_state := RCS_PAYLOAD, rc_id := pi_id info\<rparr>)
                      \<lparr>bytes_left := payload_length info, rc_buffer := []\<rparr>\<rparr>))"

definition read_turn_payload :: "time_point \<Rightarrow> bytes \<Rightarrow> udp_mux \<Rightarrow> bytes \<times> udp_mux" where
  "read_turn_payload t data m =
     (let rc = m_recv_connection m in
      case map_of (m_connections m) (rc_id rc) of
        None \<Rightarrow> ([], mux_fault (AssertFailed ''m_connections.count(rconn->id)'') m)
      | Some c \<Rightarrow>
          (let m1 = m\<lparr>m_connections := AList.update (rc_id rc) (c\<lparr>conn_timeout := conn_deadline t\<rparr>) (m_connections m)\<rparr>;
               to_read = min (bytes_left rc) (length data);
               buf = rc_buffer rc @ take to_read data;
               left = bytes_left rc - to_read
           in (drop to_read data,
               if left = 0
               then (mux_emit (MuxRead (rc_id rc) buf) m1)\<lparr>m_recv_connection := recv_idle\<rparr>
               else m1\<lparr>m_recv_connection := rc\<lparr>rc_buffer := buf, bytes_left := left\<rparr>\<rparr>)))"

definition read_turn_dropping :: "bytes \<Rightarrow> udp_mux \<Rightarrow> bytes \<times> udp_mux" where
  "read_turn_dropping data m =
     (let rc = m_recv_connection m;
          to_drop = min (bytes_left rc) (length data);
          left = bytes_left rc - to_drop
      in (drop to_drop data,
          m\<lparr>m_recv_connection := (if left = 0 then recv_idle else rc\<lparr>bytes_left := left\<rparr>)\<rparr>))"

definition read_turn :: "time_point \<Rightarrow> bytes \<Rightarrow> udp_mux \<Rightarrow> bytes \<times> udp_mux" where
  "read_turn t data m =
     (case rc_state (m_recv_connection m) of
        RCS_IDLE \<Rightarrow> read_turn_idle data m
      | RCS_PAYLOAD \<Rightarrow> read_turn_payload t data m
      | RCS_DROPPING \<Rightarrow> read_turn_dropping data m)"

text \<open>
  Every turn consumes a byte, or leaves a packet without payload for the idle state, or leaves the
  idle state with a full prefix.
\<close>

definition read_rank :: "udp_mux \<Rightarrow> nat" where
  "read_rank m =
     (let rc = m_recv_connection m in
      case rc_state rc of
        RCS_IDLE \<Rightarrow> if length (rc_buffer rc) < UDPPKT_IN_PREFIX_SIZE then 0 else 2
      | _ \<Rightarrow> 1)"

lemma read_turn_progress:
  assumes "data \<noteq> []" and "read_turn t data m = (data', m')"
  shows "3 * length data' + read_rank m' < 3 * length data + read_rank m"
  using assms
  by (cases "rc_state (m_recv_connection m)")
     (auto simp: read_turn_def read_turn_idle_def read_turn_payload_def read_turn_dropping_def read_rank_def Let_def
       recv_idle_def mux_fault_def mux_emit_def min_def neq_Nil_conv split: if_splits option.splits)

function read_loop :: "time_point \<Rightarrow> bytes \<Rightarrow> udp_mux \<Rightarrow> udp_mux" where
  "read_loop t data m =
     (if data = [] then m else (let (data', m') = read_turn t data m in read_loop t data' m'))"
  by auto

termination
proof (relation "measure (\<lambda>(t, data, m). 3 * length data + read_rank m)")
qed (auto dest: read_turn_progress [OF _ sym] simp del: prefix_size split: prod.splits)

declare read_loop.simps [simp del]

definition process_read_event :: "time_point \<Rightarrow> bytes \<Rightarrow> udp_mux \<Rightarrow> udp_mux" where
  "process_read_event t data m0 =
     (let m = (if m_state m0 = MS_ESTABLISHED then m0 else mux_fault (AssertFailed ''m_state == MS_ESTABLISHED'') m0);
          m1 = read_loop t data m
      in mux_emit (MuxConsume (m_stream_id m1) (length data)) m1)"

definition timer_one :: "time_point \<Rightarrow> u64 \<times> udp_conn \<Rightarrow> udp_mux \<Rightarrow> udp_mux" where
  "timer_one t ic m =
     (if conn_timeout (snd ic) \<le> t
      then mux_emit (MuxConnectionClosed (fst ic)) (snd (clean_connection_data (fst ic) m))
      else m)"

definition timer_callback :: "time_point \<Rightarrow> udp_mux \<Rightarrow> udp_mux" where
  "timer_callback t m = fold (timer_one t) (m_connections m) m"

text \<open>The code of the error is the platform's \<open>ECONNREFUSED\<close>.\<close>

definition handle_response :: "int \<Rightarrow> nat \<Rightarrow> udp_mux \<Rightarrow> udp_mux" where
  "handle_response econnrefused status_code m0 =
     (let m = (if m_state m0 = MS_ESTABLISHED then m0 else mux_fault (AssertFailed ''m_state == MS_ESTABLISHED'') m0) in
      if status_code \<noteq> 200
      then m\<lparr>m_pending_error := Some (VpnError econnrefused ''HTTP stream creation failed'')\<rparr> else m)"

definition get_stream_id :: "udp_mux \<Rightarrow> u64 option" where
  "get_stream_id m = (case m_state m of MS_IDLE \<Rightarrow> None | MS_ESTABLISHED \<Rightarrow> Some (m_stream_id m))"

definition report_one :: "u64 \<times> udp_conn \<Rightarrow> udp_mux \<Rightarrow> udp_mux" where
  "report_one ic m =
     (if 0 < sent_bytes_since_flush (snd ic)
      then (mux_emit (MuxDataSent (fst ic) (sent_bytes_since_flush (snd ic))) m)
        \<lparr>m_connections := AList.update (fst ic) ((snd ic)\<lparr>sent_bytes_since_flush := 0\<rparr>) (m_connections m)\<rparr>
      else m)"

definition report_sent_bytes :: "udp_mux \<Rightarrow> udp_mux" where
  "report_sent_bytes m = fold report_one (m_connections m) m"

definition set_read_enabled :: "u64 \<Rightarrow> bool \<Rightarrow> udp_mux \<Rightarrow> udp_mux" where
  "set_read_enabled i v m =
     (case map_of (m_connections m) i of
        None \<Rightarrow> m
      | Some c \<Rightarrow> m\<lparr>m_connections := AList.update i (c\<lparr>read_enabled := v\<rparr>) (m_connections m)\<rparr>)"

definition connections_num :: "udp_mux \<Rightarrow> nat" where
  "connections_num m = length (m_connections m)"

section \<open>The stream parser\<close>

lemma mux_emit_frame [simp]:
  "m_state (mux_emit x m) = m_state m" "m_stream_id (mux_emit x m) = m_stream_id m"
  "m_recv_connection (mux_emit x m) = m_recv_connection m" "m_addr_to_id (mux_emit x m) = m_addr_to_id m"
  "m_connections (mux_emit x m) = m_connections m" "m_pending_error (mux_emit x m) = m_pending_error m"
  "m_timer_event (mux_emit x m) = m_timer_event m"
  "mux_faults (mux_emit x m) = mux_faults m" "mux_out (mux_emit x m) = mux_out m @ [x]"
  by (simp_all add: mux_emit_def)

definition udp_ready :: "udp_mux \<Rightarrow> bool" where
  "udp_ready m \<longleftrightarrow>
     (rc_state (m_recv_connection m) = RCS_IDLE \<longrightarrow>
        length (rc_buffer (m_recv_connection m)) < UDPPKT_IN_PREFIX_SIZE) \<and>
     (rc_state (m_recv_connection m) = RCS_PAYLOAD \<longrightarrow>
        map_of (m_connections m) (rc_id (m_recv_connection m)) \<noteq> None)"

lemma read_prefix_total:
  assumes "40 \<le> length b"
  shows "\<exists>info. read_prefix m b = Some info"
proof -
  have "get_u32 b = (Some (of_be32 b), drop 4 b)" using assms by (simp add: get_u32_def)
  moreover obtain s where "get_ip_padded (drop 4 b) = (Some s, drop 20 b)"
    using get_ip_padded_total [of 4 b] assms by auto
  moreover obtain sp where "get_u16 (drop 20 b) = (Some sp, drop 22 b)"
    using get_u16_total [of 20 b] assms by auto
  moreover obtain d where "get_ip_padded (drop 22 b) = (Some d, drop 38 b)"
    using get_ip_padded_total [of 22 b] assms by auto
  moreover obtain dp where "get_u16 (drop 38 b) = (Some dp, drop 40 b)"
    using get_u16_total [of 38 b] assms by auto
  ultimately show ?thesis unfolding read_prefix_def by simp
qed

lemma read_prefix_cong:
  assumes "m_addr_to_id m' = m_addr_to_id m"
  shows "read_prefix m' b = read_prefix m b"
  unfolding read_prefix_def assms ..

lemma read_prefix_recv [simp]: "read_prefix (m\<lparr>m_recv_connection := r\<rparr>) b = read_prefix m b"
  by (rule read_prefix_cong) simp

lemma drop_packet_recv [simp]: "drop_packet (m\<lparr>m_recv_connection := r\<rparr>) i = drop_packet m i"
  by (simp add: drop_packet_def)

lemma alist_update_twice [simp]: "AList.update k v (AList.update k w xs) = AList.update k v xs"
  by (induction xs) auto

lemma read_turn_idle_eq:
  assumes "length (rc_buffer (m_recv_connection m)) < 40" and "rc_state (m_recv_connection m) = RCS_IDLE"
  shows "read_turn t data m =
    (let rc = m_recv_connection m; need = 40 - length (rc_buffer rc); buf = rc_buffer rc @ take need data;
         info = the (read_prefix m buf)
     in if length data < need then ([], m\<lparr>m_recv_connection := rc\<lparr>rc_buffer := buf\<rparr>\<rparr>)
        else (drop need data,
              m\<lparr>m_recv_connection :=
                 (if drop_packet m (pi_id info) then rc\<lparr>rc_state := RCS_DROPPING\<rparr>
                  else rc\<lparr>rc_state := RCS_PAYLOAD, rc_id := pi_id info\<rparr>)
                 \<lparr>bytes_left := payload_length info, rc_buffer := []\<rparr>\<rparr>))"
proof (cases "length data < 40 - length (rc_buffer (m_recv_connection m))")
  case True
  then have "length (rc_buffer (m_recv_connection m)) + length data < 40" using assms(1) by linarith
  with True show ?thesis using assms by (simp add: read_turn_def read_turn_idle_def Let_def min_def)
next
  case False
  then have "40 \<le> length (rc_buffer (m_recv_connection m) @ take (40 - length (rc_buffer (m_recv_connection m))) data)"
    by simp
  from read_prefix_total [OF this, of m] False show ?thesis
    using assms by (auto simp: read_turn_def read_turn_idle_def Let_def)
qed

lemma read_turn_payload_eq:
  assumes "rc_state (m_recv_connection m) = RCS_PAYLOAD"
    and "map_of (m_connections m) (rc_id (m_recv_connection m)) = Some c"
  shows "read_turn t data m =
    (let rc = m_recv_connection m;
         m1 = m\<lparr>m_connections := AList.update (rc_id rc) (c\<lparr>conn_timeout := conn_deadline t\<rparr>) (m_connections m)\<rparr>
     in if bytes_left rc \<le> length data
        then (drop (bytes_left rc) data,
              (mux_emit (MuxRead (rc_id rc) (rc_buffer rc @ take (bytes_left rc) data)) m1)\<lparr>m_recv_connection := recv_idle\<rparr>)
        else ([], m1\<lparr>m_recv_connection := rc\<lparr>rc_buffer := rc_buffer rc @ data, bytes_left := bytes_left rc - length data\<rparr>\<rparr>))"
  using assms by (simp add: read_turn_def read_turn_payload_def Let_def min_def)

lemma read_turn_dropping_eq:
  assumes "rc_state (m_recv_connection m) = RCS_DROPPING"
  shows "read_turn t data m =
    (let rc = m_recv_connection m
     in if bytes_left rc \<le> length data then (drop (bytes_left rc) data, m\<lparr>m_recv_connection := recv_idle\<rparr>)
        else ([], m\<lparr>m_recv_connection := rc\<lparr>bytes_left := bytes_left rc - length data\<rparr>\<rparr>))"
  using assms by (simp add: read_turn_def read_turn_dropping_def Let_def min_def)

lemma read_turn_append:
  assumes ready: "udp_ready m" and xs: "xs \<noteq> []" and turn: "read_turn t xs m = (d, m')"
  shows "read_turn t (xs @ ys) m = (d @ ys, m') \<or> (d = [] \<and> (ys \<noteq> [] \<longrightarrow> read_turn t (xs @ ys) m = read_turn t ys m'))"
proof (cases "rc_state (m_recv_connection m)")
  case RCS_IDLE
  then have b: "length (rc_buffer (m_recv_connection m)) < 40" using ready by (simp add: udp_ready_def)
  show ?thesis
  proof (cases "length xs < 40 - length (rc_buffer (m_recv_connection m))")
    case True
    then have m': "d = []" "m' = m\<lparr>m_recv_connection := (m_recv_connection m)\<lparr>rc_buffer := rc_buffer (m_recv_connection m) @ xs\<rparr>\<rparr>"
      using turn by (simp_all add: read_turn_idle_eq [OF b RCS_IDLE] Let_def)
    then have b': "length (rc_buffer (m_recv_connection m')) < 40" "rc_state (m_recv_connection m') = RCS_IDLE"
      using True b RCS_IDLE by auto
    have need: "40 - length (rc_buffer (m_recv_connection m)) - length xs = 40 - (length (rc_buffer (m_recv_connection m)) + length xs)"
      by simp
    have "read_turn t (xs @ ys) m = read_turn t ys m'"
      unfolding read_turn_idle_eq [OF b RCS_IDLE] read_turn_idle_eq [OF b']
      using True by (auto simp: m' Let_def need)
    then show ?thesis using m'(1) by simp
  next
    case False
    then have z: "40 - length (rc_buffer (m_recv_connection m)) - length xs = 0"
      "\<not> length (xs @ ys) < 40 - length (rc_buffer (m_recv_connection m))" by simp_all
    have "read_turn t (xs @ ys) m = (d @ ys, m')"
      using turn False z unfolding read_turn_idle_eq [OF b RCS_IDLE] Let_def
      by (simp only: if_False take_append drop_append z take_0 drop_0 append_Nil2 prod.inject)
    then show ?thesis ..
  qed
next
  case RCS_PAYLOAD
  then obtain c where c: "map_of (m_connections m) (rc_id (m_recv_connection m)) = Some c"
    using ready by (auto simp: udp_ready_def)
  show ?thesis
  proof (cases "bytes_left (m_recv_connection m) \<le> length xs")
    case True
    then show ?thesis using turn by (auto simp: read_turn_payload_eq [OF RCS_PAYLOAD c] Let_def)
  next
    case False
    then have d: "d = []" and st: "rc_state (m_recv_connection m') = RCS_PAYLOAD"
      and c': "map_of (m_connections m') (rc_id (m_recv_connection m')) = Some (c\<lparr>conn_timeout := conn_deadline t\<rparr>)"
      and m': "m' = m\<lparr>m_connections := AList.update (rc_id (m_recv_connection m)) (c\<lparr>conn_timeout := conn_deadline t\<rparr>)
          (m_connections m), m_recv_connection := (m_recv_connection m)\<lparr>rc_buffer := rc_buffer (m_recv_connection m) @ xs,
            bytes_left := bytes_left (m_recv_connection m) - length xs\<rparr>\<rparr>"
      using turn RCS_PAYLOAD by (auto simp: read_turn_payload_eq [OF RCS_PAYLOAD c] Let_def)
    have "read_turn t (xs @ ys) m = read_turn t ys m'"
      unfolding read_turn_payload_eq [OF RCS_PAYLOAD c] read_turn_payload_eq [OF st c'] Let_def
      using False by (auto simp: m' mux_emit_def)
    then show ?thesis using d by simp
  qed
next
  case RCS_DROPPING
  show ?thesis
  proof (cases "bytes_left (m_recv_connection m) \<le> length xs")
    case True
    then show ?thesis using turn by (auto simp: read_turn_dropping_eq [OF RCS_DROPPING] Let_def)
  next
    case False
    then have d: "d = []" and st: "rc_state (m_recv_connection m') = RCS_DROPPING"
      and m': "m' = m\<lparr>m_recv_connection := (m_recv_connection m)
        \<lparr>bytes_left := bytes_left (m_recv_connection m) - length xs\<rparr>\<rparr>"
      using turn RCS_DROPPING by (auto simp: read_turn_dropping_eq [OF RCS_DROPPING] Let_def)
    have "read_turn t (xs @ ys) m = read_turn t ys m'"
      unfolding read_turn_dropping_eq [OF RCS_DROPPING] read_turn_dropping_eq [OF st] Let_def
      using False by (auto simp: m')
    then show ?thesis using d by simp
  qed
qed

lemma read_turn_ready:
  assumes "udp_ready m" and "read_turn t data m = (d, m')"
  shows "udp_ready m'"
proof (cases "rc_state (m_recv_connection m)")
  case RCS_IDLE
  then have "length (rc_buffer (m_recv_connection m)) < 40" using assms(1) by (simp add: udp_ready_def)
  from read_turn_idle_eq [OF this RCS_IDLE, of t data] assms(2) RCS_IDLE show ?thesis
    by (auto simp: udp_ready_def Let_def drop_packet_def split: if_splits option.splits)
next
  case RCS_PAYLOAD
  then obtain c where c: "map_of (m_connections m) (rc_id (m_recv_connection m)) = Some c"
    using assms(1) by (auto simp: udp_ready_def)
  from read_turn_payload_eq [OF RCS_PAYLOAD c, of t data] assms(2) RCS_PAYLOAD show ?thesis
    by (auto simp: udp_ready_def Let_def recv_idle_def split: if_splits)
next
  case RCS_DROPPING
  from read_turn_dropping_eq [OF this, of t data] assms(2) RCS_DROPPING show ?thesis
    by (auto simp: udp_ready_def Let_def recv_idle_def split: if_splits)
qed

lemma read_loop_nil [simp]: "read_loop t [] m = m"
  by (simp add: read_loop.simps)

lemma read_loop_turn: "data \<noteq> [] \<Longrightarrow> read_loop t data m = (let (data', m') = read_turn t data m in read_loop t data' m')"
  by (subst read_loop.simps) simp

lemma read_loop_ready: "udp_ready m \<Longrightarrow> udp_ready (read_loop t data m)"
proof (induction t data m rule: read_loop.induct)
  case (1 t data m)
  show ?case
  proof (cases "data = []")
    case False
    obtain d m' where turn: "read_turn t data m = (d, m')" by force
    then show ?thesis using 1(1) [OF False, of "(d, m')" d m'] read_turn_ready [OF 1(2) turn]
      by (simp add: read_loop_turn [OF False])
  qed (use 1 in simp)
qed

lemma read_loop_append: "udp_ready m \<Longrightarrow> read_loop t (xs @ ys) m = read_loop t ys (read_loop t xs m)"
proof (induction t xs m rule: read_loop.induct)
  case (1 t xs m)
  show ?case
  proof (cases "xs = []")
    case False
    obtain d m' where turn: "read_turn t xs m = (d, m')" by force
    have ih: "read_loop t (d @ ys) m' = read_loop t ys (read_loop t d m')"
      using 1(1) [OF False, of "(d, m')" d m'] turn read_turn_ready [OF 1(2) turn] by simp
    show ?thesis
      using read_turn_append [OF 1(2) False turn, of ys] ih turn False
      by (cases "ys = []") (auto simp: read_loop_turn)
  qed simp
qed

interpretation udp_stream: chunked_reader "read_loop t" udp_ready for t
  by unfold_locales (simp_all add: read_loop_ready read_loop_append)

section \<open>Delivery\<close>

text \<open>A packet as the endpoint sends it: the format documented in \<open>http_udp_multiplexer.h\<close>.\<close>

definition in_prefix :: "u32 \<Rightarrow> sock_addr \<Rightarrow> sock_addr \<Rightarrow> bytes" where
  "in_prefix len s d = be32 len @ padded_ip s @ be16 (sa_port s) @ padded_ip d @ be16 (sa_port d)"

definition in_packet :: "sock_addr \<Rightarrow> sock_addr \<Rightarrow> bytes \<Rightarrow> bytes" where
  "in_packet s d payload = in_prefix (of_nat (36 + length payload)) s d @ payload"

lemma length_in_prefix: "addr_ok s \<Longrightarrow> addr_ok d \<Longrightarrow> length (in_prefix len s d) = 40"
  by (simp add: in_prefix_def)

lemma read_prefix_in_prefix:
  assumes "addr_ok s" and "addr_ok d"
  shows "read_prefix m (in_prefix len s d) =
    Some (if unat len < 36 \<or> 65563 < unat len then \<lparr>pi_id = NON_ID, payload_length = 0\<rparr>
          else \<lparr>pi_id = (case map_of (m_addr_to_id m) \<lparr>src = d, dst = TA_Sock s\<rparr> of Some i \<Rightarrow> i | None \<Rightarrow> NON_ID),
                payload_length = unat len - 36\<rparr>)"
proof -
  have "get_u16 (be16 p) = (Some p, [])" for p using get_u16_be16 [of p "[]"] by simp
  then show ?thesis
    using assms by (simp add: read_prefix_def in_prefix_def wire_simps UDPPKT_LENGTH_SIZE_def)
qed

lemma read_turn_in_prefix:
  assumes "m_recv_connection m = recv_idle" and "addr_ok s" and "addr_ok d"
    and "read_prefix m (in_prefix len s d) = Some info"
  shows "read_turn t (in_prefix len s d @ rest) m =
    (rest, m\<lparr>m_recv_connection :=
       (if drop_packet m (pi_id info) then recv_idle\<lparr>rc_state := RCS_DROPPING\<rparr>
        else recv_idle\<lparr>rc_state := RCS_PAYLOAD, rc_id := pi_id info\<rparr>)\<lparr>bytes_left := payload_length info\<rparr>\<rparr>)"
proof -
  have i: "length (rc_buffer (m_recv_connection m)) < 40" "rc_state (m_recv_connection m) = RCS_IDLE"
    using assms(1) by (simp_all add: recv_idle_def)
  show ?thesis
    unfolding read_turn_idle_eq [OF i] using assms length_in_prefix [OF assms(2,3), of len]
    by (simp add: Let_def recv_idle_def)
qed

text \<open>
  A packet for a connection that has been opened and reads is handed over whole.
\<close>

lemma read_loop_in_packet:
  assumes idle: "m_recv_connection m = recv_idle" and s: "addr_ok s" and d: "addr_ok d"
    and a: "map_of (m_addr_to_id m) \<lparr>src = d, dst = TA_Sock s\<rparr> = Some i" and i: "i \<noteq> NON_ID"
    and c: "map_of (m_connections m) i = Some c" "read_enabled c"
    and p: "payload \<noteq> []" "length payload \<le> MAX_UDP_PAYLOAD_SIZE"
  shows "read_loop t (in_packet s d payload) m =
    (mux_emit (MuxRead i payload)
      (m\<lparr>m_connections := AList.update i (c\<lparr>conn_timeout := conn_deadline t\<rparr>) (m_connections m)\<rparr>))"
proof -
  let ?len = "of_nat (36 + length payload) :: u32"
  have "36 + length payload < 2 ^ 32" using p(2) by (simp add: MAX_UDP_PAYLOAD_SIZE_def)
  then have len: "unat ?len = 36 + length payload" unfolding unat_of_nat by simp
  define info where "info = \<lparr>pi_id = i, payload_length = length payload\<rparr>"
  have info: "read_prefix m (in_prefix ?len s d) = Some info"
    using p(2) a len by (simp add: read_prefix_in_prefix [OF s d] info_def MAX_UDP_PAYLOAD_SIZE_def)
  have keep: "\<not> drop_packet m (pi_id info)" using i c by (simp add: drop_packet_def info_def)
  define m1 where "m1 = m\<lparr>m_recv_connection := recv_idle\<lparr>rc_state := RCS_PAYLOAD, rc_id := i, bytes_left := length payload\<rparr>\<rparr>"
  have m1: "rc_state (m_recv_connection m1) = RCS_PAYLOAD" "map_of (m_connections m1) (rc_id (m_recv_connection m1)) = Some c"
    using c(1) by (simp_all add: m1_def)
  have "in_packet s d payload \<noteq> []" using p(1) by (simp add: in_packet_def)
  then have "read_loop t (in_packet s d payload) m = read_loop t payload m1"
    using read_turn_in_prefix [OF idle s d info, of t payload] keep
    by (simp add: read_loop_turn in_packet_def info_def m1_def)
  also have "... = (mux_emit (MuxRead i payload)
      (m1\<lparr>m_connections := AList.update i (c\<lparr>conn_timeout := conn_deadline t\<rparr>) (m_connections m)\<rparr>))\<lparr>m_recv_connection := recv_idle\<rparr>"
    unfolding read_loop_turn [OF p(1)] read_turn_payload_eq [OF m1] by (simp add: m1_def recv_idle_def Let_def)
  also have "... = mux_emit (MuxRead i payload)
      (m\<lparr>m_connections := AList.update i (c\<lparr>conn_timeout := conn_deadline t\<rparr>) (m_connections m)\<rparr>)"
    using idle by (simp add: m1_def mux_emit_def)
  finally show ?thesis .
qed


text \<open>
  C25: an oversized packet is not dropped. A packet whose length field exceeds the maximum is left out,
  but the code takes its payload for the prefix of the next packet.
\<close>

theorem udp_oversized_not_dropped:
  assumes "m_recv_connection m = recv_idle" and "addr_ok s" and "addr_ok d"
    and "MAX_UDP_IN_PACKET_LENGTH < unat len" and "payload \<noteq> []"
  shows "read_loop t (in_prefix len s d @ payload) m = read_loop t payload m"
proof -
  have info: "read_prefix m (in_prefix len s d) = Some \<lparr>pi_id = NON_ID, payload_length = 0\<rparr>"
    using assms(4) by (simp add: read_prefix_in_prefix [OF assms(2,3)])
  define m1 where "m1 = m\<lparr>m_recv_connection := recv_idle\<lparr>rc_state := RCS_DROPPING\<rparr>\<rparr>"
  have m1: "rc_state (m_recv_connection m1) = RCS_DROPPING" by (simp add: m1_def)
  have "read_loop t (in_prefix len s d @ payload) m = read_loop t payload m1"
    using read_turn_in_prefix [OF assms(1-3) info, of t payload] assms(5)
    by (simp add: read_loop_turn m1_def drop_packet_def recv_idle_def)
  also have "... = read_loop t payload (m\<lparr>m_recv_connection := recv_idle\<rparr>)"
    unfolding read_loop_turn [OF assms(5), of t m1] read_turn_dropping_eq [OF m1]
    by (simp add: m1_def recv_idle_def)
  also have "m\<lparr>m_recv_connection := recv_idle\<rparr> = m" using assms(1) [symmetric] by simp
  finally show ?thesis .
qed

section \<open>Outgoing packets\<close>

text \<open>
  A reader of the outgoing format documented in \<open>http_udp_multiplexer.h\<close>: the length, the two
  addresses with their ports, the application name behind its length, and what is left of the
  length as the payload.
\<close>

definition parse_out_packet :: "bytes \<Rightarrow> ((sock_addr \<times> sock_addr \<times> bytes \<times> bytes) \<times> bytes) option" where
  "parse_out_packet b =
     (case get_u32 b of (Some len, r1) \<Rightarrow>
       (case get_ip_padded r1 of (Some s, r2) \<Rightarrow>
         (case get_u16 r2 of (Some sp, r3) \<Rightarrow>
           (case get_ip_padded r3 of (Some d, r4) \<Rightarrow>
             (case get_u16 r4 of (Some dp, r5) \<Rightarrow>
               (case get_u8 r5 of (Some n, r6) \<Rightarrow>
                 (case get_bytes (unat n) r6 of (Some app, r7) \<Rightarrow>
                   (case get_bytes (unat len - (37 + unat n)) r7 of (Some payload, rest) \<Rightarrow>
                      Some ((set_port s sp, set_port d dp, app, payload), rest)
                    | _ \<Rightarrow> None) | _ \<Rightarrow> None) | _ \<Rightarrow> None) | _ \<Rightarrow> None) | _ \<Rightarrow> None) | _ \<Rightarrow> None) | _ \<Rightarrow> None) | _ \<Rightarrow> None)"

lemma compose_udp_packet_bytes:
  assumes "sa_wf s" and "s \<noteq> SA_Unspec" and "sa_wf d" and "d \<noteq> SA_Unspec"
  shows "compose_udp_packet s d app data =
    Some (be32 (of_nat (37 + length app + length data)) @ padded_ip s @ be16 (sa_port s) @ padded_ip d @
          be16 (sa_port d) @ of_nat (length (take 255 app)) # take 255 app @ data @ replicate (length app - 255) 0)"
  using assms
  by (simp add: compose_udp_packet_def Let_def writer_of_def put_u32_def put_u16_def put_u8_def wire_simps
      udppkt_sizes writer_buffer_def add.assoc min_def)

text \<open>
  C23: what an outgoing packet says. Read in the documented format, a composed packet gives back both
  addresses, the first 255 bytes of the application's name, and the payload; but a longer name,
  which is cut after the length of the packet was computed, adds a zero byte to the payload for
  every byte that was cut.
\<close>

theorem compose_udp_packet_parses:
  assumes "addr_ok s" and "addr_ok d" and "37 + length app + length data < 2 ^ 32"
  shows "\<exists>packet. compose_udp_packet s d app data = Some packet \<and>
    parse_out_packet (packet @ rest) =
      Some ((s, d, take 255 app, data @ replicate (length app - 255) 0), rest)"
proof -
  let ?len = "of_nat (37 + length app + length data) :: u32" and ?n = "of_nat (length (take 255 app)) :: u8"
  have len: "unat ?len = 37 + length app + length data" using assms(3) unfolding unat_of_nat by simp
  have n: "unat ?n = length (take 255 app)" unfolding unat_of_nat by simp
  have k: "unat ?len - (37 + unat ?n) = length (data @ replicate (length app - 255) 0)"
    unfolding len n by (simp add: min_def add.commute)
  have "parse_out_packet ((be32 ?len @ padded_ip s @ be16 (sa_port s) @ padded_ip d @ be16 (sa_port d) @
      ?n # take 255 app @ data @ replicate (length app - 255) 0) @ rest) =
      Some ((s, d, take 255 app, data @ replicate (length app - 255) 0), rest)"
    using assms(1,2) get_bytes_append [OF n, of "(data @ replicate (length app - 255) 0) @ rest"]
      get_bytes_append [OF k, of rest]
    unfolding parse_out_packet_def append.assoc append_Cons
    by (simp only: wire_simps prod.case option.case addr_ok_spec) simp
  then show ?thesis using assms(1,2) by (subst compose_udp_packet_bytes) simp_all
qed

theorem compose_udp_packet_parses_witness:
  "\<exists>packet. compose_udp_packet (SA_V4 [10, 0, 0, 1] 53) (SA_V4 [8, 8, 8, 8] 53) [1, 2] [7, 8, 9] = Some packet \<and>
     parse_out_packet (packet @ [5]) =
       Some ((SA_V4 [10, 0, 0, 1] 53, SA_V4 [8, 8, 8, 8] 53, [1, 2], [7, 8, 9]), [5])"
  using compose_udp_packet_parses [of "SA_V4 [10, 0, 0, 1] 53" "SA_V4 [8, 8, 8, 8] 53" "[1, 2]" "[7, 8, 9]" "[5]"]
  by (simp add: addr_ok_def padded_unambiguous_def)

section \<open>Steps of the multiplexer\<close>

text \<open>
  What the upstream and the event loop do with a multiplexer, under the conditions that the callers
  check: a connection is opened under a new id between two socket addresses, data is sent on a
  connection that exists, the stream is read and answered while it is open, and a deferred task runs
  while its connection holds it.
\<close>

datatype udp_call =
    UdpOpen "u64 option" time_point u64 addr_pair bytes
  | UdpOpenTask u64
  | UdpClose u64 bool
  | UdpCloseTask u64
  | UdpSend "bytes \<Rightarrow> int" time_point u64 bytes
  | UdpRead time_point bytes
  | UdpTimer time_point
  | UdpResponse int nat
  | UdpCloseAll vpn_error
  | UdpReport
  | UdpSetRead u64 bool

definition conn_addr_ok :: "addr_pair \<Rightarrow> bool" where
  "conn_addr_ok a \<longleftrightarrow> sa_wf (src a) \<and> src a \<noteq> SA_Unspec \<and>
     (case dst a of TA_Sock d \<Rightarrow> sa_wf d \<and> d \<noteq> SA_Unspec | TA_Name _ _ \<Rightarrow> False)"

fun udp_step :: "udp_call \<Rightarrow> udp_mux \<Rightarrow> udp_mux option" where
  "udp_step (UdpOpen stream t i a app) m =
     (if i \<noteq> NON_ID \<and> \<not> check_connection i m \<and> conn_addr_ok a
      then Some (snd (open_connection stream t i a app m)) else None)"
| "udp_step (UdpOpenTask i) m =
     (case map_of (m_connections m) i of
        Some c \<Rightarrow> if open_task_id c then Some (complete_udp_connection i m) else None
      | None \<Rightarrow> None)"
| "udp_step (UdpClose i async) m = Some (close_connection i async m)"
| "udp_step (UdpCloseTask i) m =
     (case map_of (m_connections m) i of
        Some c \<Rightarrow> if close_task_id c then Some (close_connection_now i m) else None
      | None \<Rightarrow> None)"
| "udp_step (UdpSend r t i data) m = (if check_connection i m then Some (snd (mux_send r t i data m)) else None)"
| "udp_step (UdpRead t data) m = (if get_stream_id m \<noteq> None then Some (process_read_event t data m) else None)"
| "udp_step (UdpTimer t) m = (if m_timer_event m then Some (timer_callback t m) else None)"
| "udp_step (UdpResponse e code) m = (if get_stream_id m \<noteq> None then Some (handle_response e code m) else None)"
| "udp_step (UdpCloseAll e) m = Some (mux_close e m)"
| "udp_step UdpReport m = Some (report_sent_bytes m)"
| "udp_step (UdpSetRead i v) m = Some (set_read_enabled i v m)"

inductive udp_reachable :: "udp_mux \<Rightarrow> bool" where
  udp_start: "udp_reachable udp_mux_init"
| udp_next: "udp_reachable m \<Longrightarrow> udp_step call m = Some m' \<Longrightarrow> udp_reachable m'"

text \<open>The tables agree, the parser can go on, and no assertion has failed.\<close>

definition tables_ok :: "(u64 \<rightharpoonup> udp_conn) \<Rightarrow> (addr_pair \<rightharpoonup> u64) \<Rightarrow> bool" where
  "tables_ok C A \<longleftrightarrow>
     (\<forall>a i. A a = Some i \<longrightarrow> (\<exists>c. C i = Some c \<and> conn_addr c = a)) \<and>
     (\<forall>i c. C i = Some c \<longrightarrow> i \<noteq> NON_ID \<and> conn_addr_ok (conn_addr c))"

definition udp_inv :: "udp_mux \<Rightarrow> bool" where
  "udp_inv m \<longleftrightarrow>
     mux_faults m = [] \<and> udp_ready m \<and> tables_ok (map_of (m_connections m)) (map_of (m_addr_to_id m)) \<and>
     (m_state m = MS_IDLE \<longrightarrow> m_connections m = [] \<and> m_stream_id m = 0) \<and> distinct (map fst (m_connections m))"

lemma udp_inv_init: "udp_inv udp_mux_init"
  by (simp add: udp_inv_def udp_mux_init_def udp_ready_def recv_idle_def tables_ok_def)

text \<open>A change of a connection that keeps its address.\<close>

lemma tables_ok_update:
  assumes "tables_ok C A" and "C i = Some c" and "conn_addr c' = conn_addr c"
  shows "tables_ok (C(i \<mapsto> c')) A"
proof -
  have "\<exists>x. (C(i \<mapsto> c')) k = Some x \<and> conn_addr x = a" if "A a = Some k" for a k
    using assms that by (cases "k = i") (fastforce simp: tables_ok_def)+
  then show ?thesis using assms by (auto simp: tables_ok_def)
qed

lemma tables_ok_delete:
  assumes "tables_ok C A" and "C i = Some c"
  shows "tables_ok (C(i := None)) (A(conn_addr c := None))"
proof -
  have "k \<noteq> i" if "A a = Some k" "a \<noteq> conn_addr c" for a k
    using assms that by (fastforce simp: tables_ok_def)
  then show ?thesis using assms(1) by (auto simp: tables_ok_def)
qed

lemma tables_ok_insert:
  "tables_ok C A \<Longrightarrow> C i = None \<Longrightarrow> i \<noteq> NON_ID \<Longrightarrow> conn_addr_ok (conn_addr c) \<Longrightarrow> tables_ok (C(i \<mapsto> c)) A"
  by (fastforce simp: tables_ok_def)

lemma tables_ok_open:
  "tables_ok C A \<Longrightarrow> C i = Some c \<Longrightarrow> tables_ok C (A(conn_addr c \<mapsto> i))"
  by (auto simp: tables_ok_def)

lemma udp_inv_update:
  assumes "udp_inv m" and "map_of (m_connections m) i = Some c" and "conn_addr c' = conn_addr c"
  shows "udp_inv (m\<lparr>m_connections := AList.update i c' (m_connections m)\<rparr>)"
proof -
  have "m_connections m \<noteq> []" using assms(2) by auto
  then show ?thesis using assms tables_ok_update unfolding udp_inv_def udp_ready_def
    by (auto simp: update_conv' distinct_update)
qed

lemma udp_inv_frame [simp]:
  "udp_inv (mux_emit x m) = udp_inv m" "udp_inv (m\<lparr>m_timer_event := b\<rparr>) = udp_inv m"
  "udp_inv (m\<lparr>m_pending_error := e\<rparr>) = udp_inv m"
  by (simp_all add: udp_inv_def udp_ready_def)

lemma delete_absent: "map_of xs k = None \<Longrightarrow> AList.delete k xs = xs"
  by (simp add: map_of_eq_None_iff delete_idem)

lemma clean_connection_frame [simp]:
  "m_state (snd (clean_connection_data i m)) = m_state m"
  "mux_out (snd (clean_connection_data i m)) = mux_out m"
  "m_connections (snd (clean_connection_data i m)) = AList.delete i (m_connections m)"
  "fst (clean_connection_data i m) \<longleftrightarrow> map_of (m_connections m) i \<noteq> None"
  by (auto simp: clean_connection_data_def Let_def delete_absent split: option.split)

lemma udp_inv_clean:
  assumes "udp_inv m"
  shows "udp_inv (snd (clean_connection_data i m))"
proof (cases "map_of (m_connections m) i")
  case None
  then show ?thesis using assms by (simp add: clean_connection_data_def)
next
  case (Some c)
  let ?m = "snd (clean_connection_data i m)"
  have ne: "m_connections m \<noteq> []" using Some by auto
  have "tables_ok (map_of (m_connections ?m)) (map_of (m_addr_to_id ?m))"
    using assms Some tables_ok_delete
    by (simp add: clean_connection_data_def Let_def delete_conv' udp_inv_def del: clean_connection_frame)
  moreover have "udp_ready m" using assms by (simp add: udp_inv_def)
  then have "udp_ready ?m"
    using Some
    by (simp add: clean_connection_data_def Let_def udp_ready_def delete_conv' del: clean_connection_frame)
  ultimately show ?thesis
    using assms Some ne
    by (simp add: clean_connection_data_def Let_def udp_inv_def distinct_delete del: clean_connection_frame)
qed

lemma udp_inv_open:
  assumes "udp_inv m" and "i \<noteq> NON_ID" and "\<not> check_connection i m" and "conn_addr_ok a"
  shows "udp_inv (snd (open_connection stream t i a app m))"
proof -
  have new: "map_of (m_connections m) i = None" using assms(3) by (simp add: check_connection_def)
  then have "i \<notin> fst ` set (m_connections m)" by (simp add: map_of_eq_None_iff)
  moreover have d: "\<not> (case dst a of TA_Sock _ \<Rightarrow> False | TA_Name _ _ \<Rightarrow> True)"
    using assms(4) by (simp add: conn_addr_ok_def split: tunnel_address.splits)
  define c where "c = \<lparr>read_enabled = False, conn_addr = a, conn_app = app, sent_bytes_since_flush = 0,
      conn_timeout = conn_deadline t, open_task_id = True, close_task_id = False\<rparr>"
  moreover have mo: "[i \<mapsto> c] ++ map_of (m_connections m) = (map_of (m_connections m))(i \<mapsto> c)"
    using new by (auto simp: fun_eq_iff map_add_def split: option.split)
  moreover have "tables_ok ((map_of (m_connections m))(i \<mapsto> c)) (map_of (m_addr_to_id m))"
    using assms new tables_ok_insert [of _ _ i c] by (simp add: udp_inv_def c_def)
  moreover have "udp_ready (m\<lparr>m_connections := m_connections m @ [(i, c)]\<rparr>)"
    using assms(1) new unfolding udp_inv_def udp_ready_def by (auto simp: mo)
  ultimately have "udp_inv (m\<lparr>m_stream_id := sid, m_state := MS_ESTABLISHED, m_connections := m_connections m @ [(i, c)]\<rparr>)"
    "m_state m \<noteq> MS_IDLE \<Longrightarrow> udp_inv (m\<lparr>m_connections := m_connections m @ [(i, c)]\<rparr>)" for sid
    using assms(1) by (simp_all add: udp_inv_def mo udp_ready_def)
  moreover have "m_state m = MS_IDLE \<Longrightarrow> m_stream_id m = 0" using assms(1) by (simp add: udp_inv_def)
  ultimately show ?thesis
    using d new assms(1)
    by (cases "m_state m"; cases stream) (simp_all add: open_connection_def Let_def c_def)
qed

lemma udp_inv_complete:
  assumes "udp_inv m"
  shows "udp_inv (complete_udp_connection i m)"
proof (cases "map_of (m_connections m) i")
  case (Some c)
  let ?m = "m\<lparr>m_connections := AList.update i (c\<lparr>open_task_id := False\<rparr>) (m_connections m)\<rparr>"
  have i1: "udp_inv ?m" using udp_inv_update [OF assms Some] by simp
  have "tables_ok (map_of (m_connections ?m)) ((map_of (m_addr_to_id m))(conn_addr c \<mapsto> i))"
    using i1 tables_ok_open [of "map_of (m_connections ?m)" "map_of (m_addr_to_id m)" i "c\<lparr>open_task_id := False\<rparr>"]
    by (simp add: udp_inv_def update_conv')
  then have "udp_inv (?m\<lparr>m_addr_to_id := AList.update (conn_addr c) i (m_addr_to_id m)\<rparr>)"
    using i1 by (simp add: udp_inv_def udp_ready_def update_conv')
  then show ?thesis using Some assms by (simp add: complete_udp_connection_def)
qed (use assms in \<open>simp add: complete_udp_connection_def\<close>)

lemma close_connection_now_eq:
  "close_connection_now i m = (if map_of (m_connections m) i = None then m
     else mux_emit (MuxConnectionClosed i) (snd (clean_connection_data i m)))"
  by (cases "map_of (m_connections m) i") (simp_all add: close_connection_now_def clean_connection_data_def Let_def)

lemma udp_inv_send:
  assumes "udp_inv m" and "check_connection i m"
  shows "udp_inv (snd (mux_send r t i data m))"
proof -
  obtain c where c: "map_of (m_connections m) i = Some c" using assms(2) by (auto simp: check_connection_def)
  then have st: "m_state m = MS_ESTABLISHED" using assms(1) by (cases "m_state m") (auto simp: udp_inv_def)
  have "conn_addr_ok (conn_addr c)" using assms(1) c by (auto simp: udp_inv_def tables_ok_def)
  then obtain d where d: "dst (conn_addr c) = TA_Sock d" "sa_wf d" "d \<noteq> SA_Unspec"
    and s: "sa_wf (src (conn_addr c))" "src (conn_addr c) \<noteq> SA_Unspec"
    by (auto simp: conn_addr_ok_def split: tunnel_address.splits)
  have u: "udp_inv (mux_emit x m\<lparr>m_connections := AList.update i (c\<lparr>conn_timeout := u, sent_bytes_since_flush := n\<rparr>)
      (m_connections m)\<rparr>)" for x u n
    using udp_inv_update [of "mux_emit x m" i c "c\<lparr>conn_timeout := u, sent_bytes_since_flush := n\<rparr>"] assms(1) c by simp
  show ?thesis
    using c st d(1) u assms(1)
    by (simp add: mux_send_def compose_udp_packet_bytes [OF s d(2,3)] Let_def)
qed

lemma udp_inv_read_turn:
  assumes "udp_inv m" and "read_turn t data m = (d, m')"
  shows "udp_inv m'" and "m_state m' = m_state m" and "m_stream_id m' = m_stream_id m"
proof -
  have r: "udp_ready m" using assms(1) by (simp add: udp_inv_def)
  have r': "udp_ready m'" using read_turn_ready [OF r assms(2)] .
  have "udp_inv m' \<and> m_state m' = m_state m \<and> m_stream_id m' = m_stream_id m"
  proof (cases "rc_state (m_recv_connection m)")
    case RCS_IDLE
    then have "length (rc_buffer (m_recv_connection m)) < 40" using r by (simp add: udp_ready_def)
    from read_turn_idle_eq [OF this RCS_IDLE, of t data] assms r' show ?thesis
      by (auto simp: udp_inv_def Let_def split: if_splits)
  next
    case RCS_PAYLOAD
    then obtain c where c: "map_of (m_connections m) (rc_id (m_recv_connection m)) = Some c"
      using r by (auto simp: udp_ready_def)
    have "udp_inv (m\<lparr>m_connections := AList.update (rc_id (m_recv_connection m)) (c\<lparr>conn_timeout := conn_deadline t\<rparr>)
        (m_connections m)\<rparr>)" using udp_inv_update [OF assms(1) c] by simp
    with read_turn_payload_eq [OF RCS_PAYLOAD c, of t data] assms(2) r' show ?thesis
      by (auto simp: udp_inv_def Let_def split: if_splits)
  next
    case RCS_DROPPING
    from read_turn_dropping_eq [OF this, of t data] assms r' show ?thesis
      by (auto simp: udp_inv_def Let_def split: if_splits)
  qed
  then show "udp_inv m'" "m_state m' = m_state m" "m_stream_id m' = m_stream_id m" by auto
qed

lemma udp_inv_read_loop:
  "udp_inv m \<Longrightarrow> udp_inv (read_loop t data m) \<and> m_state (read_loop t data m) = m_state m \<and>
     m_stream_id (read_loop t data m) = m_stream_id m"
proof (induction t data m rule: read_loop.induct)
  case (1 t data m)
  show ?case
  proof (cases "data = []")
    case False
    obtain d m' where turn: "read_turn t data m = (d, m')" by force
    then show ?thesis using 1(1) [OF False, of "(d, m')" d m'] udp_inv_read_turn [OF 1(2) turn]
      by (simp add: read_loop_turn [OF False])
  qed (use 1 in simp)
qed

lemma udp_inv_process_read:
  assumes "udp_inv m" and "get_stream_id m \<noteq> None"
  shows "udp_inv (process_read_event t data m)"
proof -
  have "m_state m = MS_ESTABLISHED" using assms(2) by (simp add: get_stream_id_def split: multiplexer_state.splits)
  then show ?thesis using udp_inv_read_loop [OF assms(1), of t data] by (simp add: process_read_event_def Let_def)
qed

lemma udp_inv_fold:
  assumes "udp_inv m" and "\<And>x m. x \<in> set xs \<Longrightarrow> udp_inv m \<Longrightarrow> udp_inv (f x m)"
  shows "udp_inv (fold f xs m)"
  using assms by (induction xs arbitrary: m) auto

lemma fold_close_one:
  "m_connections (fold (close_one e) is m) = fold AList.delete is (m_connections m)"
  by (induction "is" arbitrary: m) (simp_all add: close_one_def)

lemma fold_delete_all: "fold AList.delete (map fst xs) xs = []"
proof -
  have "fold AList.delete ks xs = filter (\<lambda>(k, v). k \<notin> set ks) xs" for ks and xs :: "('a \<times> 'b) list"
  proof (induction ks arbitrary: xs)
    case (Cons k ks)
    then show ?case by (auto simp: AList.delete_eq filter_filter case_prod_beta intro: filter_cong)
  qed (simp add: case_prod_beta)
  then show ?thesis by (force simp: filter_empty_conv)
qed

lemma udp_inv_close:
  assumes "udp_inv m"
  shows "udp_inv (mux_close e m)" and "m_connections (mux_close e m) = []"
proof -
  let ?e = "case m_pending_error m of Some x \<Rightarrow> Some x | None \<Rightarrow> if ec e \<noteq> 0 then Some e else None"
  let ?m = "fold (close_one ?e) (map fst (m_connections m)) m"
  have "udp_inv ?m" by (rule udp_inv_fold [OF assms]) (simp add: close_one_def udp_inv_clean)
  moreover have c: "m_connections ?m = []" by (simp add: fold_close_one fold_delete_all)
  ultimately show "udp_inv (mux_close e m)" "m_connections (mux_close e m) = []"
    unfolding mux_close_def Let_def
    by (simp_all add: mux_reset_def udp_inv_def udp_ready_def recv_idle_def tables_ok_def)
qed

lemma report_one_keys:
  assumes "map_of (m_connections m) (fst ic) = Some c" and "conn_addr (snd ic) = conn_addr c" and "udp_inv m"
  shows "udp_inv (report_one ic m)"
  using assms udp_inv_update [of "mux_emit x m" "fst ic" c "(snd ic)\<lparr>sent_bytes_since_flush := 0\<rparr>" for x]
  by (simp add: report_one_def)

lemma report_fold_inv:
  assumes "udp_inv m" and "distinct (map fst xs)" and "\<And>i c. (i, c) \<in> set xs \<Longrightarrow> map_of (m_connections m) i = Some c"
  shows "udp_inv (fold report_one xs m)"
  using assms
proof (induction xs arbitrary: m)
  case (Cons x xs)
  obtain i c where x: "x = (i, c)" by force
  have "map_of (m_connections (report_one x m)) j = Some d" if "(j, d) \<in> set xs" for j d
    using Cons.prems(2,3) that x by (auto simp: report_one_def update_conv' rev_image_eqI)
  moreover have "udp_inv (report_one x m)"
    using report_one_keys [of m x c] Cons.prems(1,3) x by simp
  ultimately show ?case using Cons.IH [of "report_one x m"] Cons.prems(2) by simp
qed simp

lemma timer_one_inv: "udp_inv m \<Longrightarrow> udp_inv (timer_one t ic m)"
  by (simp add: timer_one_def udp_inv_clean)

lemma udp_inv_timer: "udp_inv m \<Longrightarrow> udp_inv (timer_callback t m)"
  unfolding timer_callback_def by (rule udp_inv_fold) (simp_all add: timer_one_inv)

lemma udp_inv_set_read: "udp_inv m \<Longrightarrow> udp_inv (set_read_enabled i v m)"
  using udp_inv_update by (auto simp: set_read_enabled_def split: option.split)

lemma udp_inv_close_connection: "udp_inv m \<Longrightarrow> udp_inv (close_connection i async m)"
  using udp_inv_update udp_inv_clean
  by (auto simp: close_connection_def close_connection_now_eq split: option.split)

lemma udp_step_inv:
  assumes "udp_inv m" and "udp_step call m = Some m'"
  shows "udp_inv m'"
proof (cases call)
  case UdpReport
  have "distinct (map fst (m_connections m))" using assms(1) by (simp add: udp_inv_def)
  then show ?thesis using assms UdpReport by (auto simp: report_sent_bytes_def intro!: report_fold_inv)
next
  case (UdpCloseTask i)
  then show ?thesis using assms
    by (auto simp: close_connection_now_eq udp_inv_clean split: option.splits if_splits)
next
  case (UdpResponse e code)
  then show ?thesis using assms
    by (auto simp: handle_response_def Let_def get_stream_id_def split: if_splits multiplexer_state.splits)
qed (use assms in \<open>auto simp: udp_inv_open udp_inv_complete udp_inv_close_connection udp_inv_send udp_inv_process_read
  udp_inv_timer udp_inv_close udp_inv_set_read split: if_splits option.splits\<close>)

lemma udp_reachable_inv: "udp_reachable m \<Longrightarrow> udp_inv m"
  by (induction rule: udp_reachable.induct) (auto simp: udp_inv_init intro: udp_step_inv)

text \<open>
  C22: the multiplexer never fails an assertion and its tables stay consistent. However its upstream
  and the event loop drive it, no assertion of the code fails and no missing connection is
  accessed; every address that incoming packets are matched with belongs to an open connection
  between these very addresses; and an idle multiplexer has no connections.
\<close>

theorem udp_mux_consistent:
  assumes "udp_reachable m"
  shows "mux_faults m = [] \<and>
    (\<forall>a i. map_of (m_addr_to_id m) a = Some i \<longrightarrow> (\<exists>c. map_of (m_connections m) i = Some c \<and> conn_addr c = a)) \<and>
    (rc_state (m_recv_connection m) = RCS_PAYLOAD \<longrightarrow> check_connection (rc_id (m_recv_connection m)) m) \<and>
    (get_stream_id m = None \<longrightarrow> connections_num m = 0)"
  using udp_reachable_inv [OF assms]
  by (auto simp: udp_inv_def tables_ok_def udp_ready_def check_connection_def get_stream_id_def connections_num_def
      split: multiplexer_state.splits)

definition final_event :: "vpn_error option \<Rightarrow> u64 \<Rightarrow> mux_effect" where
  "final_event e i = (case e of Some x \<Rightarrow> MuxConnectionError i x | None \<Rightarrow> MuxConnectionClosed i)"

lemma fold_close_one_out: "mux_out (fold (close_one e) is m) = mux_out m @ map (final_event e) is"
  by (induction "is" arbitrary: m) (simp_all add: close_one_def final_event_def)

lemma fold_close_one_error: "m_pending_error (fold (close_one e) is m) = m_pending_error m"
proof -
  have "m_pending_error (snd (clean_connection_data i m)) = m_pending_error m" for i and m :: udp_mux
    by (simp add: clean_connection_data_def Let_def split: option.split)
  then show ?thesis by (induction "is" arbitrary: m) (simp_all add: close_one_def)
qed

text \<open>
  C24: closing the multiplexer. In every reachable state each connection gets exactly one final event,
  in the order of the table, the error that is pending or given if there is one; afterwards the
  multiplexer is idle and empty, but an error that was pending stays pending, so that the
  connections of the next stream will be closed with it.
\<close>

theorem udp_mux_close_events:
  assumes "udp_reachable m"
  shows "let e = (if m_pending_error m \<noteq> None then m_pending_error m else if ec err \<noteq> 0 then Some err else None);
             m' = mux_close err m
    in mux_out m' = mux_out m @ map (final_event e) (map fst (m_connections m)) \<and>
       connections_num m' = 0 \<and> get_stream_id m' = None \<and> m_recv_connection m' = recv_idle \<and>
       m_pending_error m' = m_pending_error m"
proof -
  have "(case m_pending_error m of None \<Rightarrow> if ec err \<noteq> 0 then Some err else None | Some x \<Rightarrow> Some x) =
      (if m_pending_error m \<noteq> None then m_pending_error m else if ec err \<noteq> 0 then Some err else None)"
    by (simp split: option.split)
  then show ?thesis
    using udp_inv_close(2) [OF udp_reachable_inv [OF assms], of err]
    by (simp add: Let_def mux_close_def mux_reset_def connections_num_def get_stream_id_def fold_close_one_out
        fold_close_one_error)
qed
section \<open>A sample run\<close>

text \<open>One connection is opened on a new stream, its task runs, and it is read from.\<close>

definition sample_src :: sock_addr where
  "sample_src = SA_V4 [10, 0, 0, 2] 4000"

definition sample_dst :: sock_addr where
  "sample_dst = SA_V4 [8, 8, 8, 8] 53"

definition sample_udp :: udp_mux where
  "sample_udp = udp_mux_init\<lparr>m_state := MS_ESTABLISHED, m_stream_id := 5, m_timer_event := True,
     m_addr_to_id := [(\<lparr>src = sample_src, dst = TA_Sock sample_dst\<rparr>, 1)],
     m_connections := [(1, \<lparr>read_enabled = True, conn_addr = \<lparr>src = sample_src, dst = TA_Sock sample_dst\<rparr>,
        conn_app = [], sent_bytes_since_flush = 0, conn_timeout = conn_deadline 0, open_task_id = False,
        close_task_id = False\<rparr>)],
     mux_out := [MuxConnectionOpened 1]\<rparr>"

lemma sample_udp_reachable: "udp_reachable sample_udp"
proof -
  let ?a = "\<lparr>src = sample_src, dst = TA_Sock sample_dst\<rparr>"
  let ?m1 = "snd (open_connection (Some 5) 0 1 ?a [] udp_mux_init)"
  have a: "conn_addr_ok ?a" by (simp add: conn_addr_ok_def sample_src_def sample_dst_def)
  have ne: "(1 :: u64) \<noteq> NON_ID" by (simp add: NON_ID_def)
  have "udp_step (UdpOpen (Some 5) 0 1 ?a []) udp_mux_init = Some ?m1"
    using a ne by (simp add: check_connection_def udp_mux_init_def)
  then have "udp_reachable ?m1" by (rule udp_next [OF udp_start])
  moreover have "udp_step (UdpOpenTask 1) ?m1 = Some (complete_udp_connection 1 ?m1)"
    by (simp add: open_connection_def udp_mux_init_def Let_def)
  ultimately have "udp_reachable (complete_udp_connection 1 ?m1)" by (rule udp_next)
  moreover have "udp_step (UdpSetRead 1 True) (complete_udp_connection 1 ?m1) = Some sample_udp"
    by (simp add: open_connection_def udp_mux_init_def Let_def complete_udp_connection_def set_read_enabled_def
        sample_udp_def mux_emit_def)
  ultimately show ?thesis by (rule udp_next)
qed

lemma sample_addr_ok: "addr_ok sample_src" "addr_ok sample_dst"
  by (simp_all add: addr_ok_def padded_unambiguous_def sample_src_def sample_dst_def)

theorem udp_oversized_not_dropped_witness:
  "read_loop 9 (in_prefix 70000 sample_dst sample_src @ [7, 8]) sample_udp = read_loop 9 [7, 8] sample_udp"
  using udp_oversized_not_dropped [of sample_udp sample_dst sample_src 70000 "[7, 8]" 9]
  by (simp add: sample_udp_def udp_mux_init_def sample_addr_ok)

theorem udp_mux_consistent_witness:
  "mux_faults sample_udp = [] \<and> map_of (m_addr_to_id sample_udp) \<lparr>src = sample_src, dst = TA_Sock sample_dst\<rparr> = Some 1 \<and>
   (\<exists>c. map_of (m_connections sample_udp) 1 = Some c)"
  using udp_mux_consistent [OF sample_udp_reachable] by (simp add: sample_udp_def)

theorem udp_mux_close_events_witness:
  "mux_out (mux_close (VpnError 0 []) sample_udp) = [MuxConnectionOpened 1, MuxConnectionClosed 1]"
  using udp_mux_close_events [OF sample_udp_reachable, of "VpnError 0 []"]
  by (simp add: Let_def sample_udp_def udp_mux_init_def final_event_def)

end
