(* ===== verification/TT_Domain_Filter.thy ===== *)
theory TT_Domain_Filter
  imports TT_Vpn_Types
begin

text \<open>
  The exclusion list of the split tunnel (\<open>core/src/domain_filter.cpp\<close>): the parser of its
  entries, the tables it fills, and the matching of domain names and of addresses.

  The address classes and the caches come from another library. They are the fields of a record
  that the definitions take as an argument: the splitting of a host and a port, the reading of
  numbers, addresses and address ranges, the test of a set of ranges, and the two timed caches, of
  which only the present contents matter here. \<open>std::string\<close> is a list of bytes as characters, in
  the C locale. A hash table is an association list in the order of its iteration.
\<close>

section \<open>Characters\<close>

definition char_code :: "char \<Rightarrow> nat" where
  "char_code c = of_char c"

definition tolower :: "char \<Rightarrow> char" where
  "tolower c = (if 65 \<le> char_code c \<and> char_code c \<le> 90 then char_of (char_code c + 32) else c)"

definition isalnum :: "char \<Rightarrow> bool" where
  "isalnum c \<longleftrightarrow>
     (let n = char_code c in (48 \<le> n \<and> n \<le> 57) \<or> (65 \<le> n \<and> n \<le> 90) \<or> (97 \<le> n \<and> n \<le> 122))"

definition isspace :: "char \<Rightarrow> bool" where
  "isspace c \<longleftrightarrow> (let n = char_code c in n = 32 \<or> (9 \<le> n \<and> n \<le> 13))"

definition starts_with :: "string \<Rightarrow> string \<Rightarrow> bool" where
  "starts_with str pre \<longleftrightarrow> take (length pre) str = pre"

section \<open>Parsing\<close>

record sock_addr_tag =
  tag_addr :: sock_addr
  tag_appname :: string

record ('c, 't, 's) filter_lib =
  split_host_port :: "string \<Rightarrow> (string \<times> string) option"
  to_integer :: "string \<Rightarrow> nat option"
  socket_address :: "string \<Rightarrow> nat \<Rightarrow> sock_addr"
  cidr_range :: "string \<Rightarrow> 'c option"
  cidr_includes :: "'c list \<Rightarrow> bytes \<Rightarrow> bool"
  tags_empty :: 't
  tags_get :: "'t \<Rightarrow> sock_addr_tag \<Rightarrow> string option"
  tags_insert :: "sock_addr_tag \<Rightarrow> string \<Rightarrow> 't \<Rightarrow> 't"
  suspects_empty :: 's
  suspects_get :: "'s \<Rightarrow> sock_addr \<Rightarrow> bool"
  suspects_insert :: "sock_addr \<Rightarrow> int \<Rightarrow> 's \<Rightarrow> 's"

definition WWW_PREFIX :: string where
  "WWW_PREFIX = ''www.''"

definition WILDCARD_PREFIX :: string where
  "WILDCARD_PREFIX = ''*.''"

record match_flags =
  DFMM_EXACT :: bool
  DFMM_SUBDOMAINS :: bool

datatype 'c parse_result =
    ParsedAddr sock_addr
  | ParsedCidr 'c
  | ParsedDomain string match_flags
  | ParsedPort u16
  | ParsedMalformed

datatype validation_status = DFVS_OK_ADDR | DFVS_OK_CIDR | DFVS_OK_DOMAIN | DFVS_OK_PORT | DFVS_MALFORMED

text \<open>The loop over the characters of a domain, from the last character seen.\<close>

fun domain_chars_ok :: "char \<Rightarrow> string \<Rightarrow> bool" where
  "domain_chars_ok last_ch [] = True"
| "domain_chars_ok last_ch (ch # rest) =
     (if \<not> isalnum ch \<and> ch \<noteq> CHR ''-'' \<and> ch \<noteq> CHR ''_'' \<and> ch \<noteq> CHR ''.'' then False
      else if ch = CHR ''.'' \<and> last_ch = CHR ''.'' then False
      else domain_chars_ok ch rest)"

definition parse_domain :: "string \<Rightarrow> 'c parse_result" where
  "parse_domain entry0 =
     (let entry = map tolower entry0;
          domain = (if starts_with entry ''*.'' then drop 2 entry else entry)
      in if domain = [] then ParsedMalformed
         else if \<not> domain_chars_ok CHR ''.'' domain then ParsedMalformed
         else if starts_with entry WILDCARD_PREFIX
              then ParsedDomain (drop (length WILDCARD_PREFIX) entry) \<lparr>DFMM_EXACT = False, DFMM_SUBDOMAINS = True\<rparr>
              else ParsedDomain (if starts_with entry WWW_PREFIX then drop (length WWW_PREFIX) entry else entry)
                     \<lparr>DFMM_EXACT = True, DFMM_SUBDOMAINS = False\<rparr>)"

definition parse_range_or_domain :: "('c, 't, 's) filter_lib \<Rightarrow> string \<Rightarrow> 'c parse_result" where
  "parse_range_or_domain lib entry =
     (case cidr_range lib entry of Some r \<Rightarrow> ParsedCidr r | None \<Rightarrow> parse_domain entry)"

definition parse_entry :: "('c, 't, 's) filter_lib \<Rightarrow> string \<Rightarrow> 'c parse_result" where
  "parse_entry lib entry =
     (case split_host_port lib entry of
        None \<Rightarrow> parse_range_or_domain lib entry
      | Some (host, port_str) \<Rightarrow>
          (case to_integer lib port_str of
             Some port \<Rightarrow>
               if port_str \<noteq> []
               then if 0 < port \<and> port \<le> 65535
                    then if host = ''*'' then ParsedPort (of_nat port)
                         else (let addr = socket_address lib host port in
                               if addr \<noteq> SA_Unspec then ParsedAddr addr else parse_range_or_domain lib entry)
                    else parse_range_or_domain lib entry
               else (let addr = socket_address lib host 0 in
                     if addr \<noteq> SA_Unspec then ParsedAddr addr else parse_range_or_domain lib entry)
           | None \<Rightarrow>
               (let addr = socket_address lib host 0 in
                if addr \<noteq> SA_Unspec then ParsedAddr addr else parse_range_or_domain lib entry)))"

definition is_mark :: "char \<Rightarrow> bool" where
  "is_mark c \<longleftrightarrow> c = CHR ''!'' \<or> c = CHR ''+'' \<or> c = CHR ''^''"

definition is_marked :: "string \<Rightarrow> bool" where
  "is_marked entry \<longleftrightarrow> entry \<noteq> [] \<and> is_mark (hd entry)"

definition validate_entry :: "('c, 't, 's) filter_lib \<Rightarrow> string \<Rightarrow> validation_status" where
  "validate_entry lib entry =
     (case parse_entry lib (if is_marked entry then tl entry else entry) of
        ParsedAddr _ \<Rightarrow> DFVS_OK_ADDR
      | ParsedCidr _ \<Rightarrow> DFVS_OK_CIDR
      | ParsedDomain _ _ \<Rightarrow> DFVS_OK_DOMAIN
      | ParsedPort _ \<Rightarrow> DFVS_OK_PORT
      | ParsedMalformed \<Rightarrow> DFVS_MALFORMED)"

section \<open>Filling the tables\<close>

datatype ('c, 't, 's) domain_filter = DomainFilter
  (m_mode: vpn_mode)
  (m_domains: "(string \<times> match_flags) list")
  (m_addresses: "sock_addr list")
  (m_ports_only: "u16 list")
  (m_cidr_ranges: "'c list")
  (m_default_overrides: "('c, 't, 's) domain_filter option")
  (m_explicit_exclusions: "('c, 't, 's) domain_filter option")
  (m_explicit_defaults: "('c, 't, 's) domain_filter option")
  (m_resolved_tags: 't)
  (m_exclusion_suspects: 's)

definition domain_filter_new :: "('c, 't, 's) filter_lib \<Rightarrow> ('c, 't, 's) domain_filter" where
  "domain_filter_new lib =
     DomainFilter VPN_MODE_GENERAL [] [] [] [] None None None (tags_empty lib) (suspects_empty lib)"

record 'c tables =
  t_domains :: "(string \<times> match_flags) list"
  t_addresses :: "sock_addr list"
  t_ports :: "u16 list"
  t_cidrs :: "'c list"
  t_overrides :: string
  t_exclusions :: string
  t_defaults :: string

definition tables_empty :: "'c tables" where
  "tables_empty =
     \<lparr>t_domains = [], t_addresses = [], t_ports = [], t_cidrs = [], t_overrides = [], t_exclusions = [], t_defaults = []\<rparr>"

definition or_flags :: "match_flags \<Rightarrow> match_flags \<Rightarrow> match_flags" where
  "or_flags a b =
     \<lparr>DFMM_EXACT = DFMM_EXACT a \<or> DFMM_EXACT b, DFMM_SUBDOMAINS = DFMM_SUBDOMAINS a \<or> DFMM_SUBDOMAINS b\<rparr>"

definition add_domain :: "string \<Rightarrow> match_flags \<Rightarrow> (string \<times> match_flags) list \<Rightarrow> (string \<times> match_flags) list" where
  "add_domain text flags ds =
     AList.update text (case map_of ds text of None \<Rightarrow> flags | Some old \<Rightarrow> or_flags old flags) ds"

definition newline :: char where
  "newline = CHR 0x0A"

definition add_entry :: "('c, 't, 's) filter_lib \<Rightarrow> string \<Rightarrow> 'c tables \<Rightarrow> 'c tables" where
  "add_entry lib entry t =
     (if is_marked entry
      then case parse_entry lib (tl entry) of
             ParsedMalformed \<Rightarrow> t
           | _ \<Rightarrow>
               if hd entry = CHR ''+'' then t\<lparr>t_exclusions := t_exclusions t @ tl entry @ [newline]\<rparr>
               else if hd entry = CHR ''^'' then t\<lparr>t_defaults := t_defaults t @ tl entry @ [newline]\<rparr>
               else t\<lparr>t_overrides := t_overrides t @ tl entry @ [newline]\<rparr>
      else case parse_entry lib entry of
             ParsedAddr a \<Rightarrow> t\<lparr>t_addresses := List.insert a (t_addresses t)\<rparr>
           | ParsedDomain text flags \<Rightarrow> t\<lparr>t_domains := add_domain text flags (t_domains t)\<rparr>
           | ParsedCidr r \<Rightarrow> t\<lparr>t_cidrs := t_cidrs t @ [r]\<rparr>
           | ParsedPort p \<Rightarrow> t\<lparr>t_ports := List.insert p (t_ports t)\<rparr>
           | ParsedMalformed \<Rightarrow> t)"

text \<open>The loop over the characters of the list, with its buffer: the entries it finds.\<close>

fun read_entries :: "string \<Rightarrow> string \<Rightarrow> string list" where
  "read_entries [] buffer = (if buffer \<noteq> [] then [buffer] else [])"
| "read_entries (ch # rest) buffer =
     (if \<not> isspace ch then read_entries rest (buffer @ [ch])
      else if buffer \<noteq> [] then buffer # read_entries rest [] else read_entries rest [])"

definition fill_tables :: "('c, 't, 's) filter_lib \<Rightarrow> string \<Rightarrow> 'c tables" where
  "fill_tables lib exclusions = fold (add_entry lib) (read_entries exclusions []) tables_empty"

text \<open>
  Every nested list has fewer marks than the list it comes from.
\<close>

definition marks :: "string \<Rightarrow> nat" where
  "marks s = length (filter is_mark s)"

lemma marks_simps [simp]:
  "marks [] = 0" "marks (xs @ ys) = marks xs + marks ys" "marks (c # xs) = of_bool (is_mark c) + marks xs"
  by (simp_all add: marks_def)

lemma not_mark_newline [simp]: "\<not> is_mark newline"
  by (simp add: is_mark_def newline_def)

lemma not_mark_space: "isspace c \<Longrightarrow> \<not> is_mark c"
  by (auto simp: is_mark_def isspace_def char_code_def)

lemma marks_read_entries: "sum_list (map marks (read_entries s buf)) = marks s + marks buf"
  by (induction s buf rule: read_entries.induct) (auto simp: not_mark_space)

lemma marks_tl: "is_marked e \<Longrightarrow> marks e = Suc (marks (tl e))"
  by (cases e) (auto simp: is_marked_def)

definition nested_marks :: "'c tables \<Rightarrow> nat" where
  "nested_marks t = marks (t_overrides t) + marks (t_exclusions t) + marks (t_defaults t)
     + of_bool (t_overrides t \<noteq> [] \<or> t_exclusions t \<noteq> [] \<or> t_defaults t \<noteq> [])"

lemma nested_marks_add: "nested_marks (add_entry lib e t) \<le> nested_marks t + marks e"
  by (auto simp: add_entry_def nested_marks_def marks_tl split: parse_result.splits)

lemma nested_marks_fold: "nested_marks (fold (add_entry lib) es t) \<le> nested_marks t + sum_list (map marks es)"
proof (induction es arbitrary: t)
  case (Cons e es)
  show ?case using Cons [of "add_entry lib e t"] nested_marks_add [of lib e t] by simp
qed simp

lemma nested_marks_fill: "nested_marks (fill_tables lib s) \<le> marks s"
  using nested_marks_fold [of lib "read_entries s []" tables_empty] marks_read_entries [of s "[]"]
  by (simp add: fill_tables_def nested_marks_def tables_empty_def)

lemma nested_marks_less:
  "t_overrides (fill_tables lib s) \<noteq> [] \<Longrightarrow> marks (t_overrides (fill_tables lib s)) < marks s"
  "t_exclusions (fill_tables lib s) \<noteq> [] \<Longrightarrow> marks (t_exclusions (fill_tables lib s)) < marks s"
  "t_defaults (fill_tables lib s) \<noteq> [] \<Longrightarrow> marks (t_defaults (fill_tables lib s)) < marks s"
  using nested_marks_fill [of lib s] by (auto simp: nested_marks_def)

function update_exclusions ::
  "('c, 't, 's) filter_lib \<Rightarrow> vpn_mode \<Rightarrow> string \<Rightarrow> ('c, 't, 's) domain_filter \<Rightarrow> ('c, 't, 's) domain_filter" where
  "update_exclusions lib mode exclusions f =
     (let t = fill_tables lib exclusions in
      DomainFilter mode (t_domains t) (t_addresses t) (t_ports t) (t_cidrs t)
        (if t_overrides t \<noteq> [] then Some (update_exclusions lib mode (t_overrides t) (domain_filter_new lib)) else None)
        (if t_exclusions t \<noteq> [] then Some (update_exclusions lib mode (t_exclusions t) (domain_filter_new lib)) else None)
        (if t_defaults t \<noteq> [] then Some (update_exclusions lib mode (t_defaults t) (domain_filter_new lib)) else None)
        (m_resolved_tags f) (suspects_empty lib))"
  by pat_completeness auto

termination
  by (relation "measure (\<lambda>(lib, mode, s, f). marks s)") (auto simp: nested_marks_less)

declare update_exclusions.simps [simp del]

section \<open>Matching\<close>

datatype match_status = DFMS_DEFAULT | DFMS_EXCLUSION | DFMS_SUSPECT_EXCLUSION | DFMS_DEFAULT_OVERRIDE

record match_result =
  mr_status :: match_status
  mr_domain :: "string option"

definition flags_match :: "bool \<Rightarrow> nat \<Rightarrow> nat \<Rightarrow> match_flags \<Rightarrow> bool" where
  "flags_match www_prefixed seek_len domain_len flags \<longleftrightarrow>
     (DFMM_EXACT flags \<and>
        (seek_len = domain_len \<or> (www_prefixed \<and> seek_len + length WWW_PREFIX = domain_len))) \<or>
     (DFMM_SUBDOMAINS flags \<and> seek_len < domain_len)"

text \<open>\<open>seek.find('.')\<close>; \<open>None\<close> is \<open>npos\<close>.\<close>

fun find_dot :: "string \<Rightarrow> nat option" where
  "find_dot [] = None"
| "find_dot (c # s) = (if c = CHR ''.'' then Some 0 else map_option Suc (find_dot s))"

function seek_loop :: "(string \<times> match_flags) list \<Rightarrow> bool \<Rightarrow> nat \<Rightarrow> string \<Rightarrow> nat option" where
  "seek_loop ds www_prefixed domain_len seek =
     (if (case map_of ds seek of
            Some flags \<Rightarrow> flags_match www_prefixed (length seek) domain_len flags
          | None \<Rightarrow> False)
      then Some (length seek)
      else case find_dot seek of
             None \<Rightarrow> None
           | Some next_dot \<Rightarrow>
               if next_dot + 1 = length seek then None
               else seek_loop ds www_prefixed domain_len (drop (next_dot + 1) seek))"
  by pat_completeness auto

termination
proof (relation "measure (\<lambda>(ds, w, n, seek). length seek)")
  fix ds :: "(string \<times> match_flags) list" and w :: bool and n seek i
  assume "find_dot seek = Some i"
  then have "seek \<noteq> []" by auto
  then show "((ds, w, n, drop (i + 1) seek), (ds, w, n, seek)) \<in> measure (\<lambda>(ds, w, n, seek). length seek)" by simp
qed simp

declare seek_loop.simps [simp del]

definition matched_domain_length :: "('c, 't, 's) domain_filter \<Rightarrow> string \<Rightarrow> nat option" where
  "matched_domain_length f domain0 =
     (let d = map tolower domain0;
          www_prefixed = starts_with d WWW_PREFIX;
          seek = (if \<not> www_prefixed then d else drop (length WWW_PREFIX) d)
      in seek_loop (m_domains f) www_prefixed (length d) seek)"

definition match_explicit_domain :: "('c, 't, 's) domain_filter \<Rightarrow> string \<Rightarrow> match_status option" where
  "match_explicit_domain f d =
     (let direct = Option.bind (m_explicit_exclusions f) (\<lambda>g. matched_domain_length g d);
          defaults = Option.bind (m_explicit_defaults f) (\<lambda>g. matched_domain_length g d)
      in case (direct, defaults) of
           (None, None) \<Rightarrow> None
         | (Some _, None) \<Rightarrow> Some DFMS_EXCLUSION
         | (None, Some _) \<Rightarrow> Some DFMS_DEFAULT_OVERRIDE
         | (Some x, Some y) \<Rightarrow> Some (if x \<le> y then DFMS_DEFAULT_OVERRIDE else DFMS_EXCLUSION))"

fun match_domain :: "('c, 't, 's) domain_filter \<Rightarrow> string \<Rightarrow> match_status" where
  "match_domain (DomainFilter mode ds addrs ports cidrs overrides ex de tags suspects) d =
     (let f = DomainFilter mode ds addrs ports cidrs overrides ex de tags suspects in
      case match_explicit_domain f d of
        Some s \<Rightarrow> s
      | None \<Rightarrow>
          if (case overrides of Some g \<Rightarrow> match_domain g d = DFMS_EXCLUSION | None \<Rightarrow> False) then DFMS_DEFAULT_OVERRIDE
          else if matched_domain_length f d \<noteq> None then DFMS_EXCLUSION
          else DFMS_DEFAULT)"

definition listed_address :: "('c, 't, 's) filter_lib \<Rightarrow> ('c, 't, 's) domain_filter \<Rightarrow> sock_addr \<Rightarrow> bool" where
  "listed_address lib f a \<longleftrightarrow>
     a \<in> set (m_addresses f) \<or> set_port a 0 \<in> set (m_addresses f) \<or>
     cidr_includes lib (m_cidr_ranges f) (sa_addr a) \<or> sa_port a \<in> set (m_ports_only f)"

definition has_domains :: "('c, 't, 's) domain_filter option \<Rightarrow> bool" where
  "has_domains g \<longleftrightarrow> (case g of Some h \<Rightarrow> m_domains h \<noteq> [] | None \<Rightarrow> False)"

fun match_tag ::
  "('c, 't, 's) filter_lib \<Rightarrow> ('c, 't, 's) domain_filter \<Rightarrow> sock_addr_tag \<Rightarrow> match_result" where
  "match_tag lib (DomainFilter mode ds addrs ports cidrs overrides ex de tags suspects) tag =
     (let f = DomainFilter mode ds addrs ports cidrs overrides ex de tags suspects;
          dom = tags_get lib tags tag;
          by_default = (case de of Some g \<Rightarrow> mr_status (match_tag lib g tag) = DFMS_EXCLUSION | None \<Rightarrow> False);
          explicit_address = (case ex of Some g \<Rightarrow> mr_status (match_tag lib g tag) = DFMS_EXCLUSION | None \<Rightarrow> False);
          by_override = (case overrides of
              Some g \<Rightarrow>
                (case dom of Some d \<Rightarrow> match_domain g d = DFMS_EXCLUSION | None \<Rightarrow> False) \<or>
                mr_status (match_tag lib g tag) = DFMS_EXCLUSION
            | None \<Rightarrow> False)
      in case Option.bind dom (match_explicit_domain f) of
           Some s \<Rightarrow> \<lparr>mr_status = s, mr_domain = dom\<rparr>
         | None \<Rightarrow>
             if by_default then \<lparr>mr_status = DFMS_DEFAULT_OVERRIDE, mr_domain = dom\<rparr>
             else if \<not> explicit_address \<and> by_override
                then \<lparr>mr_status = DFMS_DEFAULT_OVERRIDE, mr_domain = dom\<rparr>
                else if explicit_address \<or> listed_address lib f (tag_addr tag)
                then
                  (let has_domain_override = (\<not> explicit_address \<and> has_domains overrides) \<or> has_domains de
                   in \<lparr>mr_status = (if dom = None \<and> has_domain_override then DFMS_SUSPECT_EXCLUSION else DFMS_EXCLUSION),
                       mr_domain = dom\<rparr>)
                else
                  (case dom of
                     Some d \<Rightarrow> \<lparr>mr_status = match_domain f d, mr_domain = Some d\<rparr>
                   | None \<Rightarrow>
                       \<lparr>mr_status = (if suspects_get lib suspects (set_port (tag_addr tag) 0)
                                  then DFMS_SUSPECT_EXCLUSION else DFMS_DEFAULT),
                        mr_domain = None\<rparr>))"

definition add_resolved_tag ::
  "('c, 't, 's) filter_lib \<Rightarrow> sock_addr_tag \<Rightarrow> string \<Rightarrow> ('c, 't, 's) domain_filter \<Rightarrow> ('c, 't, 's) domain_filter" where
  "add_resolved_tag lib tag d f =
     (case f of DomainFilter mode ds addrs ports cidrs ov ex de tags suspects \<Rightarrow>
        DomainFilter mode ds addrs ports cidrs ov ex de (tags_insert lib tag d tags) suspects)"

definition add_exclusion_suspect ::
  "('c, 't, 's) filter_lib \<Rightarrow> sock_addr \<Rightarrow> int \<Rightarrow> ('c, 't, 's) domain_filter \<Rightarrow> ('c, 't, 's) domain_filter" where
  "add_exclusion_suspect lib a ttl f =
     (case f of DomainFilter mode ds addrs ports cidrs ov ex de tags suspects \<Rightarrow>
        DomainFilter mode ds addrs ports cidrs ov ex de tags (suspects_insert lib (set_port a 0) ttl suspects))"

fun get_resolvable_exclusions :: "('c, 't, 's) domain_filter \<Rightarrow> string list" where
  "get_resolvable_exclusions (DomainFilter mode ds addrs ports cidrs ov ex de tags suspects) =
     (let names0 = (case ov of Some g \<Rightarrow> get_resolvable_exclusions g | None \<Rightarrow> []);
          names1 = (case ex of Some g \<Rightarrow> get_resolvable_exclusions g | None \<Rightarrow> []) @ names0;
          names2 = (case de of Some g \<Rightarrow> get_resolvable_exclusions g | None \<Rightarrow> []) @ names1
      in names2 @ map fst (filter (\<lambda>(name, flags). DFMM_EXACT flags) ds))"

definition get_mode :: "('c, 't, 's) domain_filter \<Rightarrow> vpn_mode" where
  "get_mode f = m_mode f"

section \<open>Which names an entry matches\<close>

text \<open>
  The rules of the documentation of \<open>VpnSettings.exclusions\<close>: a plain entry matches the domain and its
  www-subdomain, a wildcard entry any subdomain. A plain entry whose domain itself begins with
  \<open>www.\<close>, after the prefix of the entry was taken off, does not match that domain.
\<close>

definition entry_matches :: "string \<Rightarrow> match_flags \<Rightarrow> string \<Rightarrow> bool" where
  "entry_matches e flags q \<longleftrightarrow>
     (DFMM_EXACT flags \<and> ((q = e \<and> \<not> starts_with q WWW_PREFIX) \<or> q = WWW_PREFIX @ e)) \<or>
     (DFMM_SUBDOMAINS flags \<and> (\<exists>x. q = x @ CHR ''.'' # e))"

definition match_lengths :: "(string \<times> match_flags) list \<Rightarrow> string \<Rightarrow> nat set" where
  "match_lengths ds q = {length e | e flags. map_of ds e = Some flags \<and> entry_matches e flags q}"

text \<open>The most specific match: the longest one.\<close>

definition longest :: "nat set \<Rightarrow> nat option" where
  "longest N = (if N = {} then None else Some (Max N))"

lemma longest_Some: "finite N \<Longrightarrow> n \<in> N \<Longrightarrow> \<forall>m \<in> N. m \<le> n \<Longrightarrow> longest N = Some n"
  by (auto simp: longest_def intro: Max_eqI)

lemma longest_None [simp]: "longest N = None \<longleftrightarrow> N = {}"
  by (simp add: longest_def)

lemma finite_match_lengths: "finite (match_lengths ds q)"
proof (rule finite_subset)
  show "match_lengths ds q \<subseteq> (length \<circ> fst) ` set ds"
    by (auto simp: match_lengths_def image_iff dest!: map_of_SomeD) force
qed simp

subsection \<open>The loop over the suffixes\<close>

definition is_candidate :: "string \<Rightarrow> string \<Rightarrow> bool" where
  "is_candidate seek e \<longleftrightarrow> e = seek \<or> (e \<noteq> [] \<and> (\<exists>x. seek = x @ CHR ''.'' # e))"

lemma find_dot_None: "find_dot s = None \<longleftrightarrow> CHR ''.'' \<notin> set s"
  by (induction s) auto

lemma find_dot_first: "CHR ''.'' \<notin> set x \<Longrightarrow> find_dot (x @ CHR ''.'' # y) = Some (length x)"
  by (induction x) auto

lemma find_dot_Some:
  assumes "find_dot s = Some i"
  obtains x y where "s = x @ CHR ''.'' # y" and "CHR ''.'' \<notin> set x" and "i = length x"
proof -
  have "CHR ''.'' \<in> set s" using assms find_dot_None [of s] by fastforce
  then obtain x y where "s = x @ CHR ''.'' # y" "CHR ''.'' \<notin> set x" by (metis split_list_first)
  then show thesis using that assms find_dot_first [of x y] by simp
qed

lemma first_dot_split:
  "CHR ''.'' \<notin> set x \<Longrightarrow>
     x @ CHR ''.'' # y = z @ CHR ''.'' # e \<longleftrightarrow> (z = x \<and> e = y) \<or> (\<exists>z'. z = x @ CHR ''.'' # z' \<and> y = z' @ CHR ''.'' # e)"
proof (induction x arbitrary: z)
  case Nil
  then show ?case by (cases z) auto
next
  case (Cons c x)
  then show ?case by (cases z) auto
qed

lemma candidate_step:
  assumes "find_dot seek = Some i" and "i + 1 \<noteq> length seek"
  shows "is_candidate seek e \<longleftrightarrow> e = seek \<or> is_candidate (drop (i + 1) seek) e"
proof -
  obtain x y where s: "seek = x @ CHR ''.'' # y" "CHR ''.'' \<notin> set x" "i = length x"
    using find_dot_Some [OF assms(1)] .
  have d: "drop (i + 1) seek = y" "y \<noteq> []" using s assms(2) by auto
  have "(\<exists>z. x @ CHR ''.'' # y = z @ CHR ''.'' # e) \<longleftrightarrow> e = y \<or> (\<exists>z. y = z @ CHR ''.'' # e)"
    by (auto simp: first_dot_split [OF s(2)])
  then show ?thesis using d by (auto simp: is_candidate_def s(1))
qed

lemma candidate_last:
  assumes "find_dot seek = None \<or> (\<exists>i. find_dot seek = Some i \<and> i + 1 = length seek)"
  shows "is_candidate seek e \<longleftrightarrow> e = seek"
proof -
  have "e = []" if "seek = x @ CHR ''.'' # e" for x
  proof (cases "find_dot seek")
    case None
    then show ?thesis using that find_dot_None [of seek] by simp
  next
    case (Some i)
    then obtain y z where s: "seek = y @ CHR ''.'' # z" "CHR ''.'' \<notin> set y" "i = length y"
      using find_dot_Some [OF Some] by blast
    then have "z = []" using Some assms by auto
    then show ?thesis using that s first_dot_split [OF s(2), of z x e] by auto
  qed
  then show ?thesis by (auto simp: is_candidate_def)
qed

lemma candidate_length: "is_candidate seek e \<Longrightarrow> length e \<le> length seek"
  by (auto simp: is_candidate_def)

definition entry_fires :: "(string \<times> match_flags) list \<Rightarrow> bool \<Rightarrow> nat \<Rightarrow> string \<Rightarrow> bool" where
  "entry_fires ds w n e \<longleftrightarrow> (case map_of ds e of Some flags \<Rightarrow> flags_match w (length e) n flags | None \<Rightarrow> False)"

lemma seek_loop_step:
  "seek_loop ds w n seek =
     (if entry_fires ds w n seek then Some (length seek)
      else case find_dot seek of
             None \<Rightarrow> None
           | Some i \<Rightarrow> if i + 1 = length seek then None else seek_loop ds w n (drop (i + 1) seek))"
  by (subst seek_loop.simps) (simp add: entry_fires_def)

lemma seek_loop_longest:
  "seek_loop ds w n seek = longest {length e | e. is_candidate seek e \<and> entry_fires ds w n e}"
proof (induction "length seek" arbitrary: seek rule: less_induct)
  case less
  let ?N = "\<lambda>s. {length e | e. is_candidate s e \<and> entry_fires ds w n e}"
  have fin: "finite (?N seek)" by (rule finite_subset [of _ "{..length seek}"]) (auto dest: candidate_length)
  show ?case
  proof (cases "entry_fires ds w n seek")
    case True
    then have "longest (?N seek) = Some (length seek)"
      by (intro longest_Some [OF fin]) (auto simp: is_candidate_def)
    then show ?thesis using True by (subst seek_loop_step) simp
  next
    case False
    show ?thesis
    proof (cases "\<exists>i. find_dot seek = Some i \<and> i + 1 \<noteq> length seek")
      case True
      then obtain i where i: "find_dot seek = Some i" "i + 1 \<noteq> length seek" by blast
      have "seek \<noteq> []" using i(1) by auto
      then have "seek_loop ds w n (drop (i + 1) seek) = longest (?N (drop (i + 1) seek))"
        by (intro less) simp
      moreover have "?N (drop (i + 1) seek) = ?N seek"
        using False candidate_step [OF i] by auto
      ultimately show ?thesis using False i by (subst seek_loop_step) simp
    next
      case last: False
      then have "find_dot seek = None \<or> (\<exists>i. find_dot seek = Some i \<and> i + 1 = length seek)"
        by (cases "find_dot seek") auto
      then have "is_candidate seek e \<longleftrightarrow> e = seek" for e by (rule candidate_last)
      then have "longest (?N seek) = None" using False by simp
      moreover have "seek_loop ds w n seek = None"
        using False last by (subst seek_loop_step) (auto split: option.splits)
      ultimately show ?thesis by (simp only:)
    qed
  qed
qed

subsection \<open>Matching against a table\<close>

text \<open>What an entry needs to be found: a wildcard entry has a domain.\<close>

definition domains_ok :: "(string \<times> match_flags) list \<Rightarrow> bool" where
  "domains_ok ds \<longleftrightarrow> (\<forall>flags. map_of ds [] = Some flags \<longrightarrow> \<not> DFMM_SUBDOMAINS flags)"

lemma www_no_dot: "WWW_PREFIX @ b = x @ CHR ''.'' # e \<Longrightarrow> (x = ''www'' \<and> b = e) \<or> (\<exists>z. b = z @ CHR ''.'' # e)"
  using first_dot_split [of "''www''" b x e] by (auto simp: WWW_PREFIX_def)

lemma dotted_length: "\<exists>x. q = x @ CHR ''.'' # e \<Longrightarrow> length e < length q"
  by auto

lemma candidate_matches_plain:
  assumes "\<not> starts_with q WWW_PREFIX" and "DFMM_SUBDOMAINS flags \<Longrightarrow> e \<noteq> []"
  shows "is_candidate q e \<and> flags_match False (length e) (length q) flags \<longleftrightarrow> entry_matches e flags q"
proof -
  have www: "q \<noteq> WWW_PREFIX @ e" using assms(1) by (auto simp: starts_with_def)
  show ?thesis
  proof (cases "e = q")
    case True
    then have "\<not> (\<exists>x. q = x @ CHR ''.'' # e)" using dotted_length [of q e] by (metis less_irrefl)
    then show ?thesis using True www assms(1) unfolding is_candidate_def flags_match_def entry_matches_def by simp
  next
    case False
    show ?thesis
    proof (cases "\<exists>x. q = x @ CHR ''.'' # e")
      case True
      then have "length e < length q" by (rule dotted_length)
      then show ?thesis using True False www assms(2) unfolding is_candidate_def flags_match_def entry_matches_def by auto
    next
      case none: False
      then show ?thesis using False www unfolding is_candidate_def flags_match_def entry_matches_def by auto
    qed
  qed
qed

lemma www_subdomain: "(\<exists>x. WWW_PREFIX @ b = x @ CHR ''.'' # e) \<longleftrightarrow> b = e \<or> (\<exists>z. b = z @ CHR ''.'' # e)"
proof
  assume "b = e \<or> (\<exists>z. b = z @ CHR ''.'' # e)"
  then show "\<exists>x. WWW_PREFIX @ b = x @ CHR ''.'' # e"
  proof
    assume "b = e"
    then show ?thesis by (intro exI [of _ "''www''"]) (simp add: WWW_PREFIX_def)
  next
    assume "\<exists>z. b = z @ CHR ''.'' # e"
    then obtain z where "b = z @ CHR ''.'' # e" ..
    then show ?thesis by (intro exI [of _ "WWW_PREFIX @ z"]) simp
  qed
qed (use www_no_dot in blast)

lemma candidate_matches_www:
  assumes "DFMM_SUBDOMAINS flags \<Longrightarrow> e \<noteq> []"
  shows "is_candidate b e \<and> flags_match True (length e) (length (WWW_PREFIX @ b)) flags \<longleftrightarrow>
    entry_matches e flags (WWW_PREFIX @ b)"
proof -
  have "starts_with (WWW_PREFIX @ b) WWW_PREFIX" by (simp add: starts_with_def)
  then have entry: "entry_matches e flags (WWW_PREFIX @ b) \<longleftrightarrow>
      (DFMM_EXACT flags \<and> b = e) \<or> (DFMM_SUBDOMAINS flags \<and> (b = e \<or> (\<exists>z. b = z @ CHR ''.'' # e)))"
    unfolding entry_matches_def www_subdomain by auto
  have len: "length WWW_PREFIX = 4" by (simp add: WWW_PREFIX_def)
  show ?thesis
  proof (cases "b = e")
    case True
    then show ?thesis unfolding entry is_candidate_def flags_match_def by (simp add: len)
  next
    case False
    have "length e < length b \<Longrightarrow> flags_match True (length e) (length (WWW_PREFIX @ b)) flags = DFMM_SUBDOMAINS flags"
      by (simp add: flags_match_def len)
    then show ?thesis
      using False assms dotted_length [of b e] unfolding entry is_candidate_def by metis
  qed
qed

lemma matched_domain_length_longest:
  assumes "domains_ok (m_domains f)"
  shows "matched_domain_length f d = longest (match_lengths (m_domains f) (map tolower d))"
proof -
  let ?q = "map tolower d" and ?ds = "m_domains f"
  have ne: "DFMM_SUBDOMAINS flags \<Longrightarrow> e \<noteq> []" if "map_of ?ds e = Some flags" for e flags
    using assms that by (auto simp: domains_ok_def)
  show ?thesis
  proof (cases "starts_with ?q WWW_PREFIX")
    case True
    then obtain b where b: "?q = WWW_PREFIX @ b" "drop (length WWW_PREFIX) ?q = b"
      by (metis append_take_drop_id starts_with_def)
    have "{length e | e. is_candidate b e \<and> entry_fires ?ds True (length ?q) e} = match_lengths ?ds ?q"
      unfolding b(1) match_lengths_def entry_fires_def
      using candidate_matches_www ne by (auto split: option.splits)
    then show ?thesis using True b(2) by (simp add: matched_domain_length_def seek_loop_longest)
  next
    case False
    have "{length e | e. is_candidate ?q e \<and> entry_fires ?ds False (length ?q) e} = match_lengths ?ds ?q"
      unfolding match_lengths_def entry_fires_def
      using candidate_matches_plain [OF False] ne by (auto split: option.splits)
    then show ?thesis using False by (simp add: matched_domain_length_def seek_loop_longest)
  qed
qed

section \<open>The tables of an exclusion list\<close>

text \<open>The domain rules among some entries, and the length of the most specific one that matches.\<close>

definition rule_lengths :: "('c, 't, 's) filter_lib \<Rightarrow> string list \<Rightarrow> string \<Rightarrow> nat set" where
  "rule_lengths lib es q =
     {length text | e text flags. e \<in> set es \<and> parse_entry lib e = ParsedDomain text flags \<and> entry_matches text flags q}"

lemma entry_matches_or [simp]:
  "entry_matches e (or_flags a b) q \<longleftrightarrow> entry_matches e a q \<or> entry_matches e b q"
  unfolding entry_matches_def or_flags_def by simp blast

lemma matched_add_domain:
  "(\<exists>fl. map_of (add_domain text flags ds) e = Some fl \<and> entry_matches e fl q) \<longleftrightarrow>
     (\<exists>fl. map_of ds e = Some fl \<and> entry_matches e fl q) \<or> (e = text \<and> entry_matches text flags q)"
  by (cases "e = text"; cases "map_of ds text") (simp_all add: add_domain_def)

lemma match_lengths_image: "match_lengths ds q = length ` {e. \<exists>fl. map_of ds e = Some fl \<and> entry_matches e fl q}"
  by (auto simp: match_lengths_def)

lemma match_lengths_add_domain:
  "match_lengths (add_domain text flags ds) q =
     match_lengths ds q \<union> (if entry_matches text flags q then {length text} else {})"
  unfolding match_lengths_image matched_add_domain by auto

lemma t_domains_marked: "is_marked e \<Longrightarrow> t_domains (add_entry lib e t) = t_domains t"
  by (simp add: add_entry_def split: parse_result.splits)

lemma match_lengths_add_entry:
  "match_lengths (t_domains (add_entry lib e t)) q =
     match_lengths (t_domains t) q \<union> (if is_marked e then {} else rule_lengths lib [e] q)"
proof (cases "is_marked e")
  case False
  then show ?thesis
    by (cases "parse_entry lib e") (auto simp: add_entry_def rule_lengths_def match_lengths_add_domain)
qed (simp add: t_domains_marked)

lemma rule_lengths_Cons: "rule_lengths lib (e # es) q = rule_lengths lib [e] q \<union> rule_lengths lib es q"
  by (auto simp: rule_lengths_def)

lemma match_lengths_fold:
  "match_lengths (t_domains (fold (add_entry lib) es t)) q =
     match_lengths (t_domains t) q \<union> rule_lengths lib (filter (\<lambda>e. \<not> is_marked e) es) q"
proof (induction es arbitrary: t)
  case Nil
  then show ?case by (simp add: rule_lengths_def)
next
  case (Cons e es)
  then show ?case
    by (simp add: match_lengths_add_entry rule_lengths_Cons [of lib e "filter (\<lambda>e. \<not> is_marked e) es"] Un_assoc)
qed

text \<open>A wildcard entry has a domain.\<close>

lemma parse_entry_domain: "parse_entry lib e = ParsedDomain text flags \<Longrightarrow> parse_domain e = (ParsedDomain text flags :: 'c parse_result)"
  for lib :: "('c, 't, 's) filter_lib"
  by (auto simp: parse_entry_def parse_range_or_domain_def Let_def split: option.splits prod.splits if_splits)

lemma parse_domain_wildcard: "parse_domain e = ParsedDomain text flags \<Longrightarrow> DFMM_SUBDOMAINS flags \<Longrightarrow> text \<noteq> []"
  by (auto simp: parse_domain_def Let_def WILDCARD_PREFIX_def split: if_splits)

lemma domains_ok_add: "domains_ok (t_domains t) \<Longrightarrow> domains_ok (t_domains (add_entry lib e t))"
proof (cases "is_marked e")
  case False
  assume ok: "domains_ok (t_domains t)"
  show ?thesis
  proof (cases "parse_entry lib e")
    case (ParsedDomain name flags)
    have "DFMM_SUBDOMAINS flags \<Longrightarrow> name \<noteq> []"
      using parse_domain_wildcard [OF parse_entry_domain [OF ParsedDomain]] .
    then show ?thesis using False ParsedDomain ok
      by (auto simp: add_entry_def domains_ok_def add_domain_def update_conv' or_flags_def split: option.splits if_splits)
  qed (use False ok in \<open>simp_all add: add_entry_def\<close>)
qed (simp add: t_domains_marked)

lemma domains_ok_fold: "domains_ok (t_domains t) \<Longrightarrow> domains_ok (t_domains (fold (add_entry lib) es t))"
  by (induction es arbitrary: t) (simp_all add: domains_ok_add)

lemma fill_tables_match:
  "domains_ok (t_domains (fill_tables lib s))"
  "match_lengths (t_domains (fill_tables lib s)) q = rule_lengths lib (filter (\<lambda>e. \<not> is_marked e) (read_entries s [])) q"
proof -
  have empty: "domains_ok (t_domains tables_empty)" "match_lengths (t_domains tables_empty) q = {}"
    by (simp_all add: tables_empty_def domains_ok_def match_lengths_def)
  show "domains_ok (t_domains (fill_tables lib s))"
    "match_lengths (t_domains (fill_tables lib s)) q = rule_lengths lib (filter (\<lambda>e. \<not> is_marked e) (read_entries s [])) q"
    by (simp_all add: fill_tables_def domains_ok_fold match_lengths_fold empty)
qed

subsection \<open>The nested lists\<close>

definition marked_with :: "('c, 't, 's) filter_lib \<Rightarrow> char \<Rightarrow> string list \<Rightarrow> string list" where
  "marked_with lib c es =
     map tl (filter (\<lambda>e. is_marked e \<and> hd e = c \<and> parse_entry lib (tl e) \<noteq> ParsedMalformed) es)"

definition as_list :: "string list \<Rightarrow> string" where
  "as_list es = concat (map (\<lambda>e. e @ [newline]) es)"

lemma nested_texts_add:
  "t_overrides (add_entry lib e t) = t_overrides t @ as_list (marked_with lib (CHR ''!'') [e])"
  "t_exclusions (add_entry lib e t) = t_exclusions t @ as_list (marked_with lib (CHR ''+'') [e])"
  "t_defaults (add_entry lib e t) = t_defaults t @ as_list (marked_with lib (CHR ''^'') [e])"
  by (auto simp: add_entry_def marked_with_def as_list_def is_marked_def is_mark_def split: parse_result.splits)

lemma as_list_Cons: "as_list (marked_with lib c (e # es)) = as_list (marked_with lib c [e]) @ as_list (marked_with lib c es)"
  by (simp add: as_list_def marked_with_def)

lemma nested_texts_fold:
  "t_overrides (fold (add_entry lib) es t) = t_overrides t @ as_list (marked_with lib (CHR ''!'') es)"
  "t_exclusions (fold (add_entry lib) es t) = t_exclusions t @ as_list (marked_with lib (CHR ''+'') es)"
  "t_defaults (fold (add_entry lib) es t) = t_defaults t @ as_list (marked_with lib (CHR ''^'') es)"
proof (induction es arbitrary: t)
  case (Cons e es)
  {
    case 1
    show ?case by (simp add: Cons nested_texts_add as_list_Cons [of lib _ e es])
  next
    case 2
    show ?case by (simp add: Cons nested_texts_add as_list_Cons [of lib _ e es])
  next
    case 3
    show ?case by (simp add: Cons nested_texts_add as_list_Cons [of lib _ e es])
  }
qed (simp_all add: as_list_def marked_with_def)

definition is_word :: "string \<Rightarrow> bool" where
  "is_word e \<longleftrightarrow> (\<forall>c \<in> set e. \<not> isspace c)"

lemma read_word: "is_word e \<Longrightarrow> read_entries (e @ s) buf = read_entries s (buf @ e)"
  by (induction e arbitrary: buf) (auto simp: is_word_def)

lemma read_entries_words: "is_word buf \<Longrightarrow> e \<in> set (read_entries s buf) \<Longrightarrow> is_word e \<and> e \<noteq> []"
proof (induction s buf rule: read_entries.induct)
  case (1 buf)
  then show ?case by (simp split: if_splits)
next
  case (2 ch s buf)
  show ?case
  proof (cases "isspace ch")
    case True
    then show ?thesis using 2 by (cases "buf = []") (auto simp: is_word_def)
  next
    case False
    then have "is_word (buf @ [ch])" using 2(4) by (auto simp: is_word_def)
    then show ?thesis using False 2(1,5) by simp
  qed
qed

lemma isspace_newline [simp]: "isspace newline"
  by (simp add: isspace_def newline_def char_code_def)

lemma read_as_list: "\<forall>e \<in> set es. is_word e \<Longrightarrow> read_entries (as_list es) [] = filter (\<lambda>e. e \<noteq> []) es"
proof (induction es)
  case (Cons e es)
  then show ?case by (simp add: as_list_def read_word)
qed (simp add: as_list_def)

lemma is_word_tl: "is_word e \<Longrightarrow> is_word (tl e)"
  by (cases e) (auto simp: is_word_def)

text \<open>
  What the code relies on of the address library: no address and no address range begins with one of the
  marks of the list.
\<close>

definition rejects_marks :: "('c, 't, 's) filter_lib \<Rightarrow> bool" where
  "rejects_marks lib \<longleftrightarrow>
     (\<forall>e. is_marked e \<longrightarrow> cidr_range lib e = None \<and>
        (\<forall>host port n. split_host_port lib e = Some (host, port) \<longrightarrow> host \<noteq> ''*'' \<and> socket_address lib host n = SA_Unspec))"

lemma mark_not_alnum: "is_mark c \<Longrightarrow> tolower c = c \<and> \<not> isalnum c \<and> c \<noteq> CHR ''-'' \<and> c \<noteq> CHR ''_'' \<and> c \<noteq> CHR ''.'' \<and> c \<noteq> CHR ''*''"
  by (auto simp: is_mark_def tolower_def isalnum_def char_code_def)

lemma parse_marked: "rejects_marks lib \<Longrightarrow> is_marked e \<Longrightarrow> parse_entry lib e = ParsedMalformed"
proof -
  assume lib: "rejects_marks lib" and e: "is_marked e"
  then obtain c r where c: "e = c # r" "is_mark c" by (cases e) (auto simp: is_marked_def)
  then have "parse_domain e = (ParsedMalformed :: 'a parse_result)"
    by (auto simp: parse_domain_def Let_def starts_with_def mark_not_alnum)
  then show ?thesis
    using lib e by (auto simp: rejects_marks_def parse_entry_def parse_range_or_domain_def Let_def split: option.splits prod.splits)
qed

lemma marked_with_unmarked:
  "rejects_marks lib \<Longrightarrow> e \<in> set (marked_with lib c es) \<Longrightarrow> \<not> is_marked e"
  by (auto simp: marked_with_def dest: parse_marked)

section \<open>The policy of an exclusion list\<close>

text \<open>The entries of a list that carry a mark, without it.\<close>

definition marked_group :: "char \<Rightarrow> string list \<Rightarrow> string list" where
  "marked_group c es = filter (\<lambda>e. e \<noteq> []) (map tl (filter (\<lambda>e. is_marked e \<and> hd e = c) es))"

definition plain :: "string list \<Rightarrow> string list" where
  "plain es = filter (\<lambda>e. \<not> is_marked e) es"

text \<open>
  The route of a known domain: the explicit entries of the user come first, the more specific one
  wins, and on a tie the default route does; then the overrides of groups, then the plain entries.
\<close>

definition domain_policy :: "('c, 't, 's) filter_lib \<Rightarrow> string list \<Rightarrow> string \<Rightarrow> match_status" where
  "domain_policy lib es q =
     (case (longest (rule_lengths lib (marked_group (CHR ''+'') es) q), longest (rule_lengths lib (marked_group (CHR ''^'') es) q)) of
        (Some x, Some y) \<Rightarrow> if x \<le> y then DFMS_DEFAULT_OVERRIDE else DFMS_EXCLUSION
      | (Some _, None) \<Rightarrow> DFMS_EXCLUSION
      | (None, Some _) \<Rightarrow> DFMS_DEFAULT_OVERRIDE
      | (None, None) \<Rightarrow>
          if rule_lengths lib (marked_group (CHR ''!'') es) q \<noteq> {} then DFMS_DEFAULT_OVERRIDE
          else if rule_lengths lib (plain es) q \<noteq> {} then DFMS_EXCLUSION
          else DFMS_DEFAULT)"

lemma parse_nil_not_domain: "parse_entry lib [] \<noteq> ParsedDomain name flags"
proof
  assume "parse_entry lib [] = ParsedDomain name flags"
  from parse_entry_domain [OF this] show False by (simp add: parse_domain_def starts_with_def)
qed

lemma group_marked_with:
  "filter (\<lambda>e. e \<noteq> []) (marked_with lib c es) = filter (\<lambda>e. parse_entry lib e \<noteq> ParsedMalformed) (marked_group c es)"
  by (induction es) (auto simp: marked_with_def marked_group_def)

lemma rule_lengths_filter: "rule_lengths lib (filter (\<lambda>e. parse_entry lib e \<noteq> ParsedMalformed) es) q = rule_lengths lib es q"
proof -
  have "e \<in> set (filter (\<lambda>e. parse_entry lib e \<noteq> ParsedMalformed) es) \<and> parse_entry lib e = ParsedDomain name flags \<and> b \<longleftrightarrow>
      e \<in> set es \<and> parse_entry lib e = ParsedDomain name flags \<and> b" for e name flags b
    by auto
  then show ?thesis unfolding rule_lengths_def by (simp only:)
qed

text \<open>A nested list holds no marks, so its filter has no nested filters of its own.\<close>

lemma nested_filter:
  assumes "rejects_marks lib" and words: "\<forall>e \<in> set es. is_word e"
    and g: "g = update_exclusions lib mode (as_list (marked_with lib c es)) (domain_filter_new lib)"
    and xs: "xs = filter (\<lambda>e. parse_entry lib e \<noteq> ParsedMalformed) (marked_group c es)"
  shows "g = (let t = fold (add_entry lib) xs tables_empty in
    DomainFilter mode (t_domains t) (t_addresses t) (t_ports t) (t_cidrs t) None None None (tags_empty lib) (suspects_empty lib))"
    and "plain xs = xs"
proof -
  have unmarked: "\<not> is_marked e" if "e \<in> set xs" for e
    using that parse_marked [OF assms(1), of e] by (auto simp: xs)
  then show "plain xs = xs" by (simp add: plain_def)
  have "\<forall>e \<in> set (marked_with lib c es). is_word e" using words by (auto simp: marked_with_def is_word_tl)
  then have read: "read_entries (as_list (marked_with lib c es)) [] = xs"
    by (simp add: read_as_list group_marked_with xs)
  have "marked_with lib c' xs = []" for c' using unmarked by (auto simp: marked_with_def filter_empty_conv)
  then have "t_overrides (fold (add_entry lib) xs tables_empty) = []" "t_exclusions (fold (add_entry lib) xs tables_empty) = []"
    "t_defaults (fold (add_entry lib) xs tables_empty) = []"
    by (simp_all add: nested_texts_fold) (simp_all add: tables_empty_def as_list_def)
  then show "g = (let t = fold (add_entry lib) xs tables_empty in
    DomainFilter mode (t_domains t) (t_addresses t) (t_ports t) (t_cidrs t) None None None (tags_empty lib) (suspects_empty lib))"
    unfolding g by (subst update_exclusions.simps) (simp add: fill_tables_def read Let_def domain_filter_new_def)
qed

text \<open>The filter of a list: its own tables, and the filters of the marked entries.\<close>

definition nested_of :: "('c, 't, 's) filter_lib \<Rightarrow> vpn_mode \<Rightarrow> char \<Rightarrow> string list \<Rightarrow> ('c, 't, 's) domain_filter option" where
  "nested_of lib mode c es =
     (let s = as_list (marked_with lib c es) in
      if s \<noteq> [] then Some (update_exclusions lib mode s (domain_filter_new lib)) else None)"

lemma update_exclusions_eq:
  "update_exclusions lib mode s f =
     (let es = read_entries s []; t = fold (add_entry lib) es tables_empty in
      DomainFilter mode (t_domains t) (t_addresses t) (t_ports t) (t_cidrs t)
        (nested_of lib mode (CHR ''!'') es) (nested_of lib mode (CHR ''+'') es) (nested_of lib mode (CHR ''^'') es)
        (m_resolved_tags f) (suspects_empty lib))"
proof -
  have empty: "t_overrides tables_empty = []" "t_exclusions tables_empty = []" "t_defaults tables_empty = []"
    by (simp_all add: tables_empty_def)
  show ?thesis
    by (subst update_exclusions.simps) (simp add: fill_tables_def nested_texts_fold empty nested_of_def Let_def)
qed

lemma tables_empty_match: "domains_ok (t_domains tables_empty)" "match_lengths (t_domains tables_empty) q = {}"
  by (simp_all add: tables_empty_def domains_ok_def match_lengths_def)

lemma nested_none: "nested_of lib mode c es = None \<Longrightarrow> filter (\<lambda>e. parse_entry lib e \<noteq> ParsedMalformed) (marked_group c es) = []"
  by (auto simp: nested_of_def Let_def as_list_def group_marked_with [symmetric] split: if_splits)

lemma nested_domain_match:
  assumes "rejects_marks lib" and "\<forall>e \<in> set es. is_word e"
  shows "Option.bind (nested_of lib mode c es) (\<lambda>g. matched_domain_length g d) =
      longest (rule_lengths lib (marked_group c es) (map tolower d))" (is ?length)
    and "(case nested_of lib mode c es of Some g \<Rightarrow> match_domain g d = DFMS_EXCLUSION | None \<Rightarrow> False) \<longleftrightarrow>
      rule_lengths lib (marked_group c es) (map tolower d) \<noteq> {}" (is ?excl)
proof -
  define xs where "xs = filter (\<lambda>e. parse_entry lib e \<noteq> ParsedMalformed) (marked_group c es)"
  have same: "rule_lengths lib (marked_group c es) q = rule_lengths lib xs q" for q
    by (simp add: xs_def rule_lengths_filter)
  have "?length \<and> ?excl"
  proof (cases "nested_of lib mode c es")
    case None
    then have "xs = []" by (simp add: xs_def nested_none)
    then have "rule_lengths lib xs q = {}" for q by (simp add: rule_lengths_def)
    then show ?thesis using None by (simp add: same longest_def)
  next
    case (Some g)
    then have g: "g = update_exclusions lib mode (as_list (marked_with lib c es)) (domain_filter_new lib)"
      by (simp add: nested_of_def Let_def split: if_splits)
    note nested = nested_filter [OF assms g xs_def]
    let ?t = "fold (add_entry lib) xs tables_empty"
    have "domains_ok (t_domains ?t)" by (simp add: domains_ok_fold tables_empty_match)
    then have len: "matched_domain_length g d = longest (rule_lengths lib xs (map tolower d))"
      using nested(2) by (simp add: matched_domain_length_longest nested(1) Let_def match_lengths_fold tables_empty_match plain_def)
    have "match_domain g d = DFMS_EXCLUSION \<longleftrightarrow> matched_domain_length g d \<noteq> None"
      unfolding nested(1) Let_def by (simp add: match_explicit_domain_def)
    then show ?thesis using Some len by (simp add: same)
  qed
  then show ?length ?excl by blast+
qed

lemma match_domain_eq:
  "match_domain f d =
     (case match_explicit_domain f d of
        Some s \<Rightarrow> s
      | None \<Rightarrow>
          if (case m_default_overrides f of Some g \<Rightarrow> match_domain g d = DFMS_EXCLUSION | None \<Rightarrow> False) then DFMS_DEFAULT_OVERRIDE
          else if matched_domain_length f d \<noteq> None then DFMS_EXCLUSION
          else DFMS_DEFAULT)"
  by (cases f) (simp only: match_domain.simps Let_def domain_filter.sel)

lemma entries_words: "\<forall>e \<in> set (read_entries s []). is_word e"
  using read_entries_words [of "[]" _ s] by (auto simp: is_word_def)

text \<open>
  C30: the routing of domains follows the exclusion list. For every list and every domain name, in
  upper or lower case, the answer of the filter is the one of the policy over the entries of the list: user
  entries (\<open>+\<close> and \<open>^\<close>) outrank group entries, of two user entries that match the more specific one wins and
  the default route on a tie, an override (\<open>!\<close>) outranks a plain entry, and an entry matches the names that
  the documentation of the list says.
\<close>

theorem exclusion_list_routes_domains:
  assumes "rejects_marks lib"
  shows "match_domain (update_exclusions lib mode exclusions f) d =
    domain_policy lib (read_entries exclusions []) (map tolower d)"
proof -
  let ?es = "read_entries exclusions []" and ?t = "fold (add_entry lib) (read_entries exclusions []) tables_empty"
  define F where "F = update_exclusions lib mode exclusions f"
  have F: "F = DomainFilter mode (t_domains ?t) (t_addresses ?t) (t_ports ?t) (t_cidrs ?t)
      (nested_of lib mode (CHR ''!'') ?es) (nested_of lib mode (CHR ''+'') ?es) (nested_of lib mode (CHR ''^'') ?es)
      (m_resolved_tags f) (suspects_empty lib)"
    unfolding F_def by (subst update_exclusions_eq) (simp add: Let_def)
  note nested = nested_domain_match [OF assms entries_words, where mode = mode and d = d]
  have "domains_ok (t_domains ?t)" by (simp add: domains_ok_fold tables_empty_match)
  then have own: "matched_domain_length F d \<noteq> None \<longleftrightarrow> rule_lengths lib (plain ?es) (map tolower d) \<noteq> {}"
    by (simp add: F matched_domain_length_longest match_lengths_fold tables_empty_match plain_def)
  have explicit: "match_explicit_domain F d =
      (case (longest (rule_lengths lib (marked_group (CHR ''+'') ?es) (map tolower d)),
             longest (rule_lengths lib (marked_group (CHR ''^'') ?es) (map tolower d))) of
         (None, None) \<Rightarrow> None
       | (Some _, None) \<Rightarrow> Some DFMS_EXCLUSION
       | (None, Some _) \<Rightarrow> Some DFMS_DEFAULT_OVERRIDE
       | (Some x, Some y) \<Rightarrow> Some (if x \<le> y then DFMS_DEFAULT_OVERRIDE else DFMS_EXCLUSION))"
    by (simp add: match_explicit_domain_def F nested(1) Let_def)
  have ov: "(case m_default_overrides F of Some g \<Rightarrow> match_domain g d = DFMS_EXCLUSION | None \<Rightarrow> False) \<longleftrightarrow>
      rule_lengths lib (marked_group (CHR ''!'') ?es) (map tolower d) \<noteq> {}"
    using nested(2) by (simp add: F)
  have "match_domain F d = domain_policy lib ?es (map tolower d)"
    unfolding match_domain_eq [of F d] explicit own ov domain_policy_def
    by (cases "longest (rule_lengths lib (marked_group (CHR ''+'') ?es) (map tolower d))";
        cases "longest (rule_lengths lib (marked_group (CHR ''^'') ?es) (map tolower d))")
       (simp_all del: longest_None)
  then show ?thesis by (simp add: F_def)
qed

definition in6_loopback :: bytes where
  "in6_loopback = replicate 15 0 @ [1]"

definition sample_lib :: "(unit, unit, unit) filter_lib" where
  "sample_lib =
     \<lparr>split_host_port = (\<lambda>e. if e = ''::1'' then Some (''::1'', []) else None), to_integer = (\<lambda>p. None),
      socket_address = (\<lambda>h _. if h = ''::1'' then SA_V6 in6_loopback 0 else SA_Unspec), cidr_range = (\<lambda>_. None),
      cidr_includes = (\<lambda>_ _. False), tags_empty = (), tags_get = (\<lambda>_ _. None), tags_insert = (\<lambda>_ _ _. ()),
      suspects_empty = (), suspects_get = (\<lambda>_ _. False), suspects_insert = (\<lambda>_ _ _. ())\<rparr>"

lemma sample_lib_rejects: "rejects_marks sample_lib"
  by (auto simp: rejects_marks_def sample_lib_def is_marked_def is_mark_def)

lemma sample_list_match:
  "match_domain (update_exclusions sample_lib VPN_MODE_GENERAL ''a.b +*.b ^v.b''
     (domain_filter_new sample_lib)) ''P.b'' = DFMS_EXCLUSION"
  by code_simp

theorem exclusion_list_routes_domains_witness:
  "rejects_marks sample_lib \<and>
   domain_policy sample_lib (read_entries ''a.b +*.b ^v.b'' []) (map tolower ''P.b'') = DFMS_EXCLUSION"
  using exclusion_list_routes_domains [OF sample_lib_rejects, of VPN_MODE_GENERAL
      "''a.b +*.b ^v.b''" "domain_filter_new sample_lib" "''P.b''"]
    sample_list_match sample_lib_rejects by simp

section \<open>Addresses\<close>

definition ranges_of :: "('c, 't, 's) filter_lib \<Rightarrow> string list \<Rightarrow> 'c list" where
  "ranges_of lib es = concat (map (\<lambda>e. case parse_entry lib e of ParsedCidr r \<Rightarrow> [r] | _ \<Rightarrow> []) es)"

text \<open>An address that some entries list: itself, with or without its port, by a range or by its port.\<close>

definition lists_address :: "('c, 't, 's) filter_lib \<Rightarrow> string list \<Rightarrow> sock_addr \<Rightarrow> bool" where
  "lists_address lib es a \<longleftrightarrow>
     ParsedAddr a \<in> parse_entry lib ` set es \<or> ParsedAddr (set_port a 0) \<in> parse_entry lib ` set es \<or>
     cidr_includes lib (ranges_of lib es) (sa_addr a) \<or> ParsedPort (sa_port a) \<in> parse_entry lib ` set es"

definition names_domain :: "('c, 't, 's) filter_lib \<Rightarrow> string list \<Rightarrow> bool" where
  "names_domain lib es \<longleftrightarrow> (\<exists>e \<in> set es. \<exists>name flags. parse_entry lib e = ParsedDomain name flags)"

definition address_policy :: "('c, 't, 's) filter_lib \<Rightarrow> string list \<Rightarrow> sock_addr \<Rightarrow> match_status" where
  "address_policy lib es a =
     (let direct = lists_address lib (marked_group (CHR ''+'') es) a in
      if lists_address lib (marked_group (CHR ''^'') es) a then DFMS_DEFAULT_OVERRIDE
      else if \<not> direct \<and> lists_address lib (marked_group (CHR ''!'') es) a then DFMS_DEFAULT_OVERRIDE
      else if direct \<or> lists_address lib (plain es) a
      then if (\<not> direct \<and> names_domain lib (marked_group (CHR ''!'') es)) \<or> names_domain lib (marked_group (CHR ''^'') es)
           then DFMS_SUSPECT_EXCLUSION else DFMS_EXCLUSION
      else DFMS_DEFAULT)"

lemma add_entry_addresses:
  "set (t_addresses (add_entry lib e t)) = set (t_addresses t) \<union> (if is_marked e then {} else {a. parse_entry lib e = ParsedAddr a})"
  "set (t_ports (add_entry lib e t)) = set (t_ports t) \<union> (if is_marked e then {} else {p. parse_entry lib e = ParsedPort p})"
  "t_cidrs (add_entry lib e t) = t_cidrs t @ (if is_marked e then [] else ranges_of lib [e])"
  "t_domains (add_entry lib e t) = [] \<longleftrightarrow> t_domains t = [] \<and> (is_marked e \<or> \<not> names_domain lib [e])"
  by (auto simp: add_entry_def ranges_of_def names_domain_def add_domain_def split: parse_result.splits)

lemma fold_entry_addresses:
  "set (t_addresses (fold (add_entry lib) es t)) = set (t_addresses t) \<union> {a. ParsedAddr a \<in> parse_entry lib ` set (plain es)}"
  "set (t_ports (fold (add_entry lib) es t)) = set (t_ports t) \<union> {p. ParsedPort p \<in> parse_entry lib ` set (plain es)}"
  "t_cidrs (fold (add_entry lib) es t) = t_cidrs t @ ranges_of lib (plain es)"
  "t_domains (fold (add_entry lib) es t) = [] \<longleftrightarrow> t_domains t = [] \<and> \<not> names_domain lib (plain es)"
proof (induction es arbitrary: t)
  case (Cons e es)
  {
    case 1
    show ?case by (auto simp: Cons add_entry_addresses plain_def)
  next
    case 2
    show ?case by (auto simp: Cons add_entry_addresses plain_def)
  next
    case 3
    show ?case by (simp add: Cons add_entry_addresses plain_def ranges_of_def)
  next
    case 4
    show ?case by (auto simp: Cons add_entry_addresses plain_def names_domain_def)
  }
qed (simp_all add: plain_def ranges_of_def names_domain_def)

lemma listed_address_fold:
  assumes "t = fold (add_entry lib) es tables_empty"
  shows "listed_address lib (DomainFilter mode (t_domains t) (t_addresses t) (t_ports t) (t_cidrs t) ov ex de tags susp) a =
    lists_address lib (plain es) a"
proof -
  have empty: "t_addresses tables_empty = []" "t_ports tables_empty = []" "t_cidrs tables_empty = []"
    by (simp_all add: tables_empty_def)
  show ?thesis
    unfolding assms listed_address_def lists_address_def by (simp add: fold_entry_addresses empty)
qed

text \<open>What the code relies on of the caches and of the set of ranges: fresh ones are empty.\<close>

definition fresh_is_empty :: "('c, 't, 's) filter_lib \<Rightarrow> bool" where
  "fresh_is_empty lib \<longleftrightarrow>
     (\<forall>tag. tags_get lib (tags_empty lib) tag = None) \<and> (\<forall>a. \<not> suspects_get lib (suspects_empty lib) a) \<and>
     (\<forall>b. \<not> cidr_includes lib [] b)"

lemma lists_address_filter:
  "lists_address lib (filter (\<lambda>e. parse_entry lib e \<noteq> ParsedMalformed) es) a = lists_address lib es a"
proof -
  have "ranges_of lib (filter (\<lambda>e. parse_entry lib e \<noteq> ParsedMalformed) es) = ranges_of lib es"
    by (induction es) (auto simp: ranges_of_def)
  moreover have "r \<in> parse_entry lib ` set (filter (\<lambda>e. parse_entry lib e \<noteq> ParsedMalformed) es) \<longleftrightarrow>
      r \<in> parse_entry lib ` set es" if "r \<noteq> ParsedMalformed" for r
    using that by auto
  ultimately show ?thesis by (simp add: lists_address_def)
qed

lemma nested_address_match:
  assumes "rejects_marks lib" and "\<forall>e \<in> set es. is_word e" and fresh: "fresh_is_empty lib"
  shows "(case nested_of lib mode c es of Some g \<Rightarrow> mr_status (match_tag lib g tag) = DFMS_EXCLUSION | None \<Rightarrow> False) \<longleftrightarrow>
      lists_address lib (marked_group c es) (tag_addr tag)" (is ?listed)
    and "has_domains (nested_of lib mode c es) \<longleftrightarrow> names_domain lib (marked_group c es)" (is ?named)
proof -
  define xs where "xs = filter (\<lambda>e. parse_entry lib e \<noteq> ParsedMalformed) (marked_group c es)"
  have same: "lists_address lib (marked_group c es) a = lists_address lib xs a" "names_domain lib (marked_group c es) = names_domain lib xs" for a
    by (simp_all add: xs_def lists_address_filter) (auto simp: names_domain_def)
  have "?listed \<and> ?named"
  proof (cases "nested_of lib mode c es")
    case None
    then have "xs = []" by (simp add: xs_def nested_none)
    then show ?thesis
      using None fresh by (simp add: same has_domains_def fresh_is_empty_def) (simp add: lists_address_def names_domain_def ranges_of_def)
  next
    case (Some g)
    then have g: "g = update_exclusions lib mode (as_list (marked_with lib c es)) (domain_filter_new lib)"
      by (simp add: nested_of_def Let_def split: if_splits)
    note nested = nested_filter [OF assms(1,2) g xs_def]
    let ?t = "fold (add_entry lib) xs tables_empty"
    have "listed_address lib g a = lists_address lib xs a" for a
      unfolding nested(1) Let_def by (simp add: listed_address_fold nested(2))
    then have "mr_status (match_tag lib g tag) = DFMS_EXCLUSION \<longleftrightarrow> lists_address lib xs (tag_addr tag)"
      using fresh unfolding nested(1) Let_def by (simp add: fresh_is_empty_def has_domains_def Let_def)
    moreover have "m_domains g \<noteq> [] \<longleftrightarrow> names_domain lib xs"
      unfolding nested(1) Let_def by (simp add: fold_entry_addresses nested(2)) (simp add: tables_empty_def)
    ultimately show ?thesis using Some by (simp add: same has_domains_def)
  qed
  then show ?listed ?named by blast+
qed

text \<open>
  C31: the routing of addresses follows the exclusion list. An address whose domain is not known is routed
  by the entries that list it: an explicit default first, then an explicit exclusion, then the override
  of a group, then a plain entry. While the list has domains that restore the default route, an
  address that a broader rule excludes is only a suspect, so that it is not taken out of the tunnel
  before its domain is known.
\<close>

theorem exclusion_list_routes_addresses:
  assumes "rejects_marks lib" and "fresh_is_empty lib" and "tags_get lib (m_resolved_tags f) tag = None"
  shows "match_tag lib (update_exclusions lib mode exclusions f) tag =
    \<lparr>mr_status = address_policy lib (read_entries exclusions []) (tag_addr tag), mr_domain = None\<rparr>"
proof -
  let ?es = "read_entries exclusions []" and ?t = "fold (add_entry lib) (read_entries exclusions []) tables_empty"
  let ?nested = "\<lambda>c. nested_of lib mode c ?es"
  note nested = nested_address_match [OF assms(1) entries_words [of exclusions] assms(2), where mode = mode]
  have own: "listed_address lib (DomainFilter mode (t_domains ?t) (t_addresses ?t) (t_ports ?t) (t_cidrs ?t)
      (?nested (CHR ''!'')) (?nested (CHR ''+'')) (?nested (CHR ''^'')) (m_resolved_tags f) (suspects_empty lib)) a =
      lists_address lib (plain ?es) a" for a
    by (simp add: listed_address_fold)
  have ov: "(case ?nested (CHR ''!'') of
        Some g \<Rightarrow> (case None of Some d \<Rightarrow> match_domain g d = DFMS_EXCLUSION | None \<Rightarrow> False) \<or>
          mr_status (match_tag lib g tag) = DFMS_EXCLUSION
      | None \<Rightarrow> False) \<longleftrightarrow> lists_address lib (marked_group (CHR ''!'') ?es) (tag_addr tag)"
    using nested(1) [where c = "CHR ''!''" and tag = tag] by (cases "?nested (CHR ''!'')") simp_all
  have "\<not> suspects_get lib (suspects_empty lib) a" for a using assms(2) by (simp add: fresh_is_empty_def)
  then show ?thesis
    by (subst update_exclusions_eq) (simp add: Let_def assms(3) own ov nested address_policy_def)
qed

definition sample_tag :: sock_addr_tag where
  "sample_tag = \<lparr>tag_addr = SA_V6 in6_loopback 0, tag_appname = []\<rparr>"

lemma sample_list_suspect:
  "mr_status (match_tag sample_lib (update_exclusions sample_lib VPN_MODE_GENERAL ''::1 !v.b'' (domain_filter_new sample_lib))
     sample_tag) = DFMS_SUSPECT_EXCLUSION"
  by code_simp

theorem exclusion_list_routes_addresses_witness:
  "rejects_marks sample_lib \<and> fresh_is_empty sample_lib \<and>
   address_policy sample_lib (read_entries ''::1 !v.b'' []) (SA_V6 in6_loopback 0) = DFMS_SUSPECT_EXCLUSION"
proof -
  have fresh: "fresh_is_empty sample_lib" by (simp add: fresh_is_empty_def sample_lib_def)
  have unknown: "tags_get sample_lib (m_resolved_tags (domain_filter_new sample_lib)) sample_tag = None"
    by (simp add: sample_lib_def)
  have tag: "tag_addr sample_tag = SA_V6 in6_loopback 0" by (simp add: sample_tag_def)
  have "address_policy sample_lib (read_entries ''::1 !v.b'' []) (tag_addr sample_tag) = DFMS_SUSPECT_EXCLUSION"
    using exclusion_list_routes_addresses [OF sample_lib_rejects fresh unknown, of VPN_MODE_GENERAL "''::1 !v.b''"]
      sample_list_suspect by (simp only: match_result.select_convs)
  then show ?thesis using sample_lib_rejects fresh unfolding tag by blast
qed

end
