(* ===== verification/TT_Icmp.thy ===== *)
theory TT_Icmp
  imports TT_Wire_Utils TT_Vpn_Types
begin

text \<open>
  Echo requests and replies: the manager that matches replies with outstanding requests and lets
  requests time out (\<open>core/src/icmp_manager.cpp\<close>), and the multiplexer that carries both over one HTTP
  stream (\<open>core/src/http_icmp_multiplexer.cpp\<close>).

  The handler that receives the replies is a log; a failed assertion or the exception of an empty
  \<open>std::optional\<close> is a fault. The time is an argument. \<open>m_requests\<close> never holds a null pointer, since
  the only insertion assigns it: its values are the objects themselves.
\<close>

section \<open>Messages\<close>

definition ICMP_MT_ECHO_REPLY :: u8 where
  "ICMP_MT_ECHO_REPLY = 0"

definition ICMPV6_MT_ECHO_REPLY :: u8 where
  "ICMPV6_MT_ECHO_REPLY = 129"

definition ICMP_MT_DROP :: u8 where
  "ICMP_MT_DROP = 84"

record icmp_echo_request_key =
  key_id :: u16
  key_seqno :: u16

definition echo_key_of_request :: "icmp_echo_request \<Rightarrow> icmp_echo_request_key" where
  "echo_key_of_request r = \<lparr>key_id = echo_id r, key_seqno = req_seqno r\<rparr>"

definition echo_key_of_reply :: "icmp_echo_reply \<Rightarrow> icmp_echo_request_key" where
  "echo_key_of_reply r = \<lparr>key_id = rep_id r, key_seqno = rep_seqno r\<rparr>"

definition echo_key_less :: "icmp_echo_request_key \<Rightarrow> icmp_echo_request_key \<Rightarrow> bool" where
  "echo_key_less a b \<longleftrightarrow> key_id a < key_id b \<or> key_seqno a < key_seqno b"

section \<open>The manager\<close>

datatype icmp_message_status = IM_MSGS_PASS | IM_MSGS_DROP

record request_attempt =
  try_seqno :: u16
  try_timeout_ts :: time_point

record request_info =
  original_peer :: sock_addr
  tries :: "request_attempt list"

record icmp_manager =
  m_requests :: "(u16 \<times> request_info) list"
  m_request_timeout :: "millis option"
  m_icmp_timer :: "u32 option"
  replies_ready :: "icmp_echo_reply list"
  icmp_faults :: "fault list"

definition DEFAULT_PING_REQUEST_TIMEOUT :: millis where
  "DEFAULT_PING_REQUEST_TIMEOUT = 3000"

definition icmp_manager_new :: icmp_manager where
  "icmp_manager_new =
     \<lparr>m_requests = [], m_request_timeout = None, m_icmp_timer = None, replies_ready = [], icmp_faults = []\<rparr>"

definition icmp_manager_init :: "millis option \<Rightarrow> icmp_manager \<Rightarrow> icmp_manager" where
  "icmp_manager_init timeout m =
     m\<lparr>m_request_timeout := Some (case timeout of Some t \<Rightarrow> t | None \<Rightarrow> DEFAULT_PING_REQUEST_TIMEOUT)\<rparr>"

definition icmp_manager_deinit :: "icmp_manager \<Rightarrow> icmp_manager" where
  "icmp_manager_deinit m = m\<lparr>m_icmp_timer := None, m_requests := []\<rparr>"

definition icmp_fault :: "fault \<Rightarrow> icmp_manager \<Rightarrow> icmp_manager" where
  "icmp_fault f m = m\<lparr>icmp_faults := icmp_faults m @ [f]\<rparr>"

text \<open>The timer fires ten times per timeout; its period is a \<open>uint32_t\<close> of milliseconds.\<close>

definition register_request :: "time_point \<Rightarrow> icmp_echo_request \<Rightarrow> icmp_manager \<Rightarrow> icmp_message_status \<times> icmp_manager" where
  "register_request now request m =
     (let info = (case map_of (m_requests m) (echo_id request) of
                    None \<Rightarrow> \<lparr>original_peer = req_peer request, tries = []\<rparr>
                  | Some i \<Rightarrow> i)
      in if list_ex (\<lambda>i. try_seqno i = req_seqno request) (tries info)
         then (IM_MSGS_DROP, m\<lparr>m_requests := map_put (echo_id request) info (m_requests m)\<rparr>)
         else case m_request_timeout m of
                None \<Rightarrow>
                  (IM_MSGS_DROP, icmp_fault (NullDeref ''request_timeout'')
                     (m\<lparr>m_requests := map_put (echo_id request) info (m_requests m)\<rparr>))
              | Some timeout \<Rightarrow>
                  (let attempt = \<lparr>try_seqno = req_seqno request, try_timeout_ts = now + ns_of_millis timeout\<rparr>;
                       m1 = m\<lparr>m_requests := map_put (echo_id request) (info\<lparr>tries := tries info @ [attempt]\<rparr>) (m_requests m)\<rparr>
                   in (IM_MSGS_PASS,
                       if m_icmp_timer m1 = None then m1\<lparr>m_icmp_timer := Some (word_of_int (trunc_div timeout 10))\<rparr> else m1)))"

definition is_echo_reply :: "icmp_echo_reply \<Rightarrow> bool" where
  "is_echo_reply r \<longleftrightarrow>
     \<not> (is_ipv4 (rep_peer r) \<and> rep_type r \<noteq> ICMP_MT_ECHO_REPLY) \<and>
     \<not> (is_ipv6 (rep_peer r) \<and> rep_type r \<noteq> ICMPV6_MT_ECHO_REPLY)"

text \<open>\<open>vector::erase\<close> at the first element that satisfies \<open>P\<close>.\<close>

fun erase_first :: "('a \<Rightarrow> bool) \<Rightarrow> 'a list \<Rightarrow> 'a list" where
  "erase_first P [] = []"
| "erase_first P (x # xs) = (if P x then xs else x # erase_first P xs)"

text \<open>The reply may be modified: the result has it after the call.\<close>

definition register_reply ::
  "icmp_echo_reply \<Rightarrow> icmp_manager \<Rightarrow> icmp_message_status \<times> icmp_echo_reply \<times> icmp_manager" where
  "register_reply reply m =
     (case map_of (m_requests m) (rep_id reply) of
        None \<Rightarrow> (IM_MSGS_DROP, reply, m)
      | Some info \<Rightarrow>
          (let reply1 = (if \<not> is_echo_reply reply \<and> tries info \<noteq> []
                         then reply\<lparr>rep_seqno := try_seqno (hd (tries info))\<rparr> else reply);
               found = (if is_echo_reply reply then list_ex (\<lambda>i. try_seqno i = rep_seqno reply) (tries info)
                        else tries info \<noteq> [])
           in if \<not> found then (IM_MSGS_DROP, reply1, m)
              else
                (let left = erase_first (\<lambda>i. try_seqno i = rep_seqno reply1) (tries info)
                 in (IM_MSGS_PASS, reply1,
                     m\<lparr>m_requests := (if left = [] then AList.delete (rep_id reply) (m_requests m)
                                      else map_put (rep_id reply) (info\<lparr>tries := left\<rparr>) (m_requests m))\<rparr>))))"

definition make_reply_on_timeout :: "u16 \<Rightarrow> sock_addr \<Rightarrow> u16 \<Rightarrow> icmp_echo_reply" where
  "make_reply_on_timeout key peer seqno =
     \<lparr>rep_peer = peer, rep_id = key, rep_seqno = seqno, rep_type = ICMP_MT_DROP, rep_code = 0\<rparr>"

text \<open>The two loops of \<open>timer_callback\<close>, with the replies they raise and what they leave.\<close>

fun timer_tries ::
  "time_point \<Rightarrow> u16 \<Rightarrow> sock_addr \<Rightarrow> request_attempt list \<Rightarrow> icmp_echo_reply list \<times> request_attempt list" where
  "timer_tries now key peer [] = ([], [])"
| "timer_tries now key peer (j # js) =
     (let (replies, left) = timer_tries now key peer js in
      if now < try_timeout_ts j then (replies, j # left)
      else (make_reply_on_timeout key peer (try_seqno j) # replies, left))"

fun timer_requests ::
  "time_point \<Rightarrow> (u16 \<times> request_info) list \<Rightarrow> icmp_echo_reply list \<times> (u16 \<times> request_info) list" where
  "timer_requests now [] = ([], [])"
| "timer_requests now ((key, info) # rest) =
     (let (replies, left) = timer_tries now key (original_peer info) (tries info);
          (replies', rest') = timer_requests now rest
      in (replies @ replies', if left = [] then rest' else (key, info\<lparr>tries := left\<rparr>) # rest'))"

definition icmp_timer_callback :: "time_point \<Rightarrow> icmp_manager \<Rightarrow> icmp_manager" where
  "icmp_timer_callback now m =
     (let (replies, rest) = timer_requests now (m_requests m)
      in m\<lparr>m_requests := rest, replies_ready := replies_ready m @ replies\<rparr>)"

section \<open>The multiplexer\<close>

definition ICMPPKT_ID_SIZE :: nat where
  "ICMPPKT_ID_SIZE = 2"

definition ICMPPKT_ADDR_SIZE :: nat where
  "ICMPPKT_ADDR_SIZE = 16"

definition ICMPPKT_SEQNO_SIZE :: nat where
  "ICMPPKT_SEQNO_SIZE = 2"

definition ICMPPKT_TTL_SIZE :: nat where
  "ICMPPKT_TTL_SIZE = 1"

definition ICMPPKT_DATA_SIZE :: nat where
  "ICMPPKT_DATA_SIZE = 2"

definition ICMPPKT_TYPE_SIZE :: nat where
  "ICMPPKT_TYPE_SIZE = 1"

definition ICMPPKT_CODE_SIZE :: nat where
  "ICMPPKT_CODE_SIZE = 1"

definition ICMPPKT_REQ_SIZE :: nat where
  "ICMPPKT_REQ_SIZE =
     ICMPPKT_ID_SIZE + ICMPPKT_ADDR_SIZE + ICMPPKT_SEQNO_SIZE + ICMPPKT_TTL_SIZE + ICMPPKT_DATA_SIZE"

definition ICMPPKT_REPLY_SIZE :: nat where
  "ICMPPKT_REPLY_SIZE =
     ICMPPKT_ID_SIZE + ICMPPKT_ADDR_SIZE + ICMPPKT_TYPE_SIZE + ICMPPKT_CODE_SIZE + ICMPPKT_SEQNO_SIZE"

lemma icmppkt_sizes [simp]: "ICMPPKT_REQ_SIZE = 23" "ICMPPKT_REPLY_SIZE = 22"
  by (simp_all add: ICMPPKT_REQ_SIZE_def ICMPPKT_REPLY_SIZE_def ICMPPKT_ID_SIZE_def ICMPPKT_ADDR_SIZE_def
      ICMPPKT_SEQNO_SIZE_def ICMPPKT_TTL_SIZE_def ICMPPKT_DATA_SIZE_def ICMPPKT_TYPE_SIZE_def ICMPPKT_CODE_SIZE_def)

datatype icmp_mux_state = ICMP_MS_IDLE | ICMP_MS_ESTABLISHED

datatype icmp_effect = IcmpSendData u64 bytes | IcmpConsume u64 nat | IcmpEchoReplyEvent icmp_echo_reply

record icmp_mux =
  im_state :: icmp_mux_state
  im_stream_id :: "u64 option"
  m_reply_buffer :: bytes
  im_out :: "icmp_effect list"
  im_faults :: "fault list"

definition icmp_mux_new :: icmp_mux where
  "icmp_mux_new = \<lparr>im_state = ICMP_MS_IDLE, im_stream_id = None, m_reply_buffer = [], im_out = [], im_faults = []\<rparr>"

definition im_emit :: "icmp_effect \<Rightarrow> icmp_mux \<Rightarrow> icmp_mux" where
  "im_emit x m = m\<lparr>im_out := im_out m @ [x]\<rparr>"

definition im_fault :: "fault \<Rightarrow> icmp_mux \<Rightarrow> icmp_mux" where
  "im_fault f m = m\<lparr>im_faults := im_faults m @ [f]\<rparr>"

definition icmp_mux_close :: "icmp_mux \<Rightarrow> icmp_mux" where
  "icmp_mux_close m = m\<lparr>im_state := ICMP_MS_IDLE, im_stream_id := None, m_reply_buffer := []\<rparr>"

definition icmp_get_stream_id :: "icmp_mux \<Rightarrow> u64 option" where
  "icmp_get_stream_id m = im_stream_id m"

definition compose_request :: "icmp_echo_request \<Rightarrow> bytes option" where
  "compose_request r =
     (let steps = [put_u16 (echo_id r), put_ip_padded (req_peer r), put_u16 (req_seqno r), put_u8 (req_ttl r),
                   put_u16 (req_data_size r)]
      in map_option writer_buffer (fold (\<lambda>f w. Option.bind w f) steps (Some (writer_of ICMPPKT_REQ_SIZE))))"

text \<open>\<open>r\<close> is what the data callback returns for the packet.\<close>

definition send_request_established :: "(bytes \<Rightarrow> int) \<Rightarrow> icmp_echo_request \<Rightarrow> icmp_mux \<Rightarrow> bool \<times> icmp_mux" where
  "send_request_established r request m =
     (case compose_request request of
        None \<Rightarrow> (False, im_fault (AssertFailed ''m_buffer.size()'') m)
      | Some packet \<Rightarrow>
          (case im_stream_id m of
             None \<Rightarrow> (False, im_fault (NullDeref ''m_stream_id'') m)
           | Some sid \<Rightarrow> (r packet = 0, im_emit (IcmpSendData sid packet) m)))"

text \<open>\<open>stream\<close> is what the connect request callback returns.\<close>

definition icmp_send_request ::
  "u64 option \<Rightarrow> (bytes \<Rightarrow> int) \<Rightarrow> icmp_echo_request \<Rightarrow> icmp_mux \<Rightarrow> bool \<times> icmp_mux" where
  "icmp_send_request stream r request m =
     (case im_state m of
        ICMP_MS_ESTABLISHED \<Rightarrow> send_request_established r request m
      | ICMP_MS_IDLE \<Rightarrow>
          (let m1 = (if im_stream_id m \<noteq> None then im_fault (AssertFailed ''!m_stream_id.has_value()'') m else m);
               m2 = m1\<lparr>im_stream_id := stream\<rparr>
           in if stream = None then (False, m2)
              else send_request_established r request (m2\<lparr>im_state := ICMP_MS_ESTABLISHED\<rparr>)))"

definition icmp_assert_established :: "icmp_mux \<Rightarrow> icmp_mux" where
  "icmp_assert_established m =
     (if im_state m = ICMP_MS_ESTABLISHED then m else im_fault (AssertFailed ''m_state == MS_ESTABLISHED'') m)"

definition icmp_handle_response :: "icmp_mux \<Rightarrow> icmp_mux" where
  "icmp_handle_response m = icmp_assert_established m"

definition parse_reply :: "bytes \<Rightarrow> icmp_echo_reply option" where
  "parse_reply raw =
     (case get_u16 raw of
        (None, _) \<Rightarrow> None
      | (Some i, r1) \<Rightarrow>
     (case get_ip_padded r1 of
        (None, _) \<Rightarrow> None
      | (Some peer, r2) \<Rightarrow>
     (case get_u8 r2 of
        (None, _) \<Rightarrow> None
      | (Some ty, r3) \<Rightarrow>
     (case get_u8 r3 of
        (None, _) \<Rightarrow> None
      | (Some co, r4) \<Rightarrow>
     (case get_u16 r4 of
        (None, _) \<Rightarrow> None
      | (Some seqno, _) \<Rightarrow>
          Some \<lparr>rep_peer = peer, rep_id = i, rep_seqno = seqno, rep_type = ty, rep_code = co\<rparr>)))))"

text \<open>
  One turn of the loop, with the data that is left. \<open>ICMPPKT_REPLY_SIZE - m_reply_buffer.size()\<close> is a
  \<open>size_t\<close>, which an overfull buffer would make larger than any chunk. An exception ends the loop.
\<close>

definition raise_reply :: "bytes \<Rightarrow> bytes \<Rightarrow> icmp_mux \<Rightarrow> bytes \<times> icmp_mux" where
  "raise_reply raw data m =
     (case parse_reply raw of
        None \<Rightarrow> ([], im_fault (NullDeref ''optional'') m)
      | Some reply \<Rightarrow> (data, (im_emit (IcmpEchoReplyEvent reply) m)\<lparr>m_reply_buffer := []\<rparr>))"

definition process_reply_chunk :: "bytes \<Rightarrow> icmp_mux \<Rightarrow> bytes \<times> icmp_mux" where
  "process_reply_chunk data m =
     (let buf = m_reply_buffer m in
      if buf = [] \<and> ICMPPKT_REPLY_SIZE \<le> length data
      then raise_reply (take ICMPPKT_REPLY_SIZE data) (drop ICMPPKT_REPLY_SIZE data) m
      else
        (let to_read = (if length buf \<le> ICMPPKT_REPLY_SIZE then min (length data) (ICMPPKT_REPLY_SIZE - length buf)
                        else length data);
             m1 = m\<lparr>m_reply_buffer := buf @ take to_read data\<rparr>;
             data1 = drop to_read data
         in if length (m_reply_buffer m1) < ICMPPKT_REPLY_SIZE then (data1, m1)
            else
              (let m2 = (if length (m_reply_buffer m1) = ICMPPKT_REPLY_SIZE then m1
                         else im_fault (AssertFailed ''m_reply_buffer.size() == ICMPPKT_REPLY_SIZE'') m1)
               in raise_reply (take ICMPPKT_REPLY_SIZE (m_reply_buffer m2)) data1 m2)))"

lemma process_reply_chunk_progress:
  assumes "data \<noteq> []" and "process_reply_chunk data m = (data', m')"
  shows "2 * length data' + (if length (m_reply_buffer m') < 22 then 0 else 1)
       < 2 * length data + (if length (m_reply_buffer m) < 22 then 0 else 1 :: nat)"
  using assms
  by (auto simp: process_reply_chunk_def raise_reply_def Let_def min_def im_emit_def im_fault_def neq_Nil_conv
      split: if_splits option.splits)

function reply_loop :: "bytes \<Rightarrow> icmp_mux \<Rightarrow> icmp_mux" where
  "reply_loop data m =
     (if data = [] then m else (let (data', m') = process_reply_chunk data m in reply_loop data' m'))"
  by auto

termination
proof (relation "measure (\<lambda>(data, m). 2 * length data + (if length (m_reply_buffer m) < 22 then 0 else 1))")
qed (auto dest: process_reply_chunk_progress [OF _ sym] split: prod.splits)

declare reply_loop.simps [simp del]

definition icmp_process_read_event :: "bytes \<Rightarrow> icmp_mux \<Rightarrow> icmp_mux" where
  "icmp_process_read_event data m0 =
     (let m = reply_loop data (icmp_assert_established m0)
      in case im_stream_id m of
           None \<Rightarrow> im_fault (NullDeref ''m_stream_id'') m
         | Some sid \<Rightarrow> im_emit (IcmpConsume sid (length data)) m)"

section \<open>Replies of the stream\<close>

definition icmp_ready :: "icmp_mux \<Rightarrow> bool" where
  "icmp_ready m \<longleftrightarrow> length (m_reply_buffer m) < 22"

lemma parse_reply_total:
  assumes "length raw = 22"
  shows "\<exists>reply. parse_reply raw = Some reply"
proof -
  have "get_u16 raw = (Some (of_be16 raw), drop 2 raw)" using assms by (simp add: get_u16_def)
  moreover obtain a where "get_ip_padded (drop 2 raw) = (Some a, drop 18 raw)"
    using get_ip_padded_total [of 2 raw] assms by auto
  moreover have "get_u8 (drop 18 raw) = (Some (raw ! 18), drop 19 raw)" "get_u8 (drop 19 raw) = (Some (raw ! 19), drop 20 raw)"
    using assms by (simp_all add: get_u8_def)
  moreover obtain s where "get_u16 (drop 20 raw) = (Some s, drop 22 raw)"
    using get_u16_total [of 20 raw] assms by auto
  ultimately show ?thesis unfolding parse_reply_def by simp
qed

text \<open>
  What a turn does when the buffer is not overfull: the fast path and the buffered path agree.
\<close>

lemma process_reply_chunk_eq:
  assumes "icmp_ready m"
  shows "process_reply_chunk data m =
    (let n = 22 - length (m_reply_buffer m); buf = m_reply_buffer m @ take n data in
     if length buf < 22 then ([], m\<lparr>m_reply_buffer := buf\<rparr>)
     else (drop n data, (im_emit (IcmpEchoReplyEvent (the (parse_reply buf))) m)\<lparr>m_reply_buffer := []\<rparr>))"
proof (cases "22 \<le> length (m_reply_buffer m) + length data")
  case True
  let ?buf = "m_reply_buffer m @ take (22 - length (m_reply_buffer m)) data"
  have len: "length ?buf = 22" using True assms by (simp add: icmp_ready_def)
  obtain r where r: "parse_reply ?buf = Some r" using parse_reply_total [OF len] by blast
  have "min (length data) (22 - length (m_reply_buffer m)) = 22 - length (m_reply_buffer m)"
    using True by simp
  then show ?thesis
    using True assms len r
    by (cases "m_reply_buffer m = []") (simp_all add: process_reply_chunk_def raise_reply_def icmp_ready_def Let_def im_emit_def)
next
  case False
  then show ?thesis
    using assms by (auto simp: process_reply_chunk_def icmp_ready_def Let_def)
qed

lemma process_reply_chunk_ready:
  "icmp_ready m \<Longrightarrow> process_reply_chunk data m = (data', m') \<Longrightarrow> icmp_ready m'"
  unfolding process_reply_chunk_eq by (auto simp: icmp_ready_def Let_def split: if_splits)


lemma reply_loop_Nil [simp]: "reply_loop [] m = m"
  by (simp add: reply_loop.simps)

lemma reply_loop_turn:
  "data \<noteq> [] \<Longrightarrow> reply_loop data m = (case process_reply_chunk data m of (d, m') \<Rightarrow> reply_loop d m')"
  by (subst reply_loop.simps) simp

lemma reply_loop_ready: "icmp_ready m \<Longrightarrow> icmp_ready (reply_loop data m)"
proof (induction data m rule: reply_loop.induct)
  case (1 data m)
  then show ?case
    by (cases "data = []") (auto simp: reply_loop_turn process_reply_chunk_ready split: prod.splits)
qed

lemma reply_loop_append:
  "icmp_ready m \<Longrightarrow> reply_loop (xs @ ys) m = reply_loop ys (reply_loop xs m)"
proof (induction xs m rule: reply_loop.induct)
  case (1 xs m)
  let ?n = "22 - length (m_reply_buffer m)"
  show ?case
  proof (cases "xs = [] \<or> ys = []")
    case False
    show ?thesis
    proof (cases "?n \<le> length xs")
      case True
      define m' where "m' = (im_emit (IcmpEchoReplyEvent (the (parse_reply (m_reply_buffer m @ take ?n xs)))) m)\<lparr>m_reply_buffer := []\<rparr>"
      have "process_reply_chunk xs m = (drop ?n xs, m')" "process_reply_chunk (xs @ ys) m = (drop ?n xs @ ys, m')"
        using True 1(2) by (simp_all add: process_reply_chunk_eq m'_def Let_def icmp_ready_def)
      moreover have "icmp_ready m'" by (simp add: m'_def icmp_ready_def)
      ultimately show ?thesis using 1 False by (simp add: reply_loop_turn)
    next
      case short: False
      define m' where "m' = m\<lparr>m_reply_buffer := m_reply_buffer m @ xs\<rparr>"
      have sum: "length (m_reply_buffer m) + length xs < 22" using short by linarith
      have "process_reply_chunk xs m = ([], m')"
        using sum 1(2) by (simp add: process_reply_chunk_eq m'_def Let_def icmp_ready_def)
      moreover have "process_reply_chunk (xs @ ys) m = process_reply_chunk ys m'"
        using sum 1(2) by (simp add: process_reply_chunk_eq m'_def Let_def icmp_ready_def im_emit_def)
      ultimately show ?thesis using False by (simp add: reply_loop_turn)
    qed
  qed auto
qed

interpretation icmp_stream: chunked_reader reply_loop icmp_ready
  by unfold_locales (simp_all add: reply_loop_ready reply_loop_append)

text \<open>A reply as the endpoint sends it: the format documented in \<open>http_icmp_multiplexer.cpp\<close>.\<close>

definition reply_packet :: "icmp_echo_reply \<Rightarrow> bytes" where
  "reply_packet r = be16 (rep_id r) @ padded_ip (rep_peer r) @ [rep_type r, rep_code r] @ be16 (rep_seqno r)"

lemma parse_reply_packet:
  assumes "addr_ok (rep_peer r)"
  shows "parse_reply (reply_packet r) = Some (r\<lparr>rep_peer := set_port (rep_peer r) 0\<rparr>)"
proof -
  have "get_u16 (be16 p) = (Some p, [])" for p using get_u16_be16 [of p "[]"] by simp
  then show ?thesis using assms by (simp add: parse_reply_def reply_packet_def wire_simps)
qed

lemma reply_loop_packets:
  assumes "m_reply_buffer m = []" and "\<forall>r \<in> set rs. addr_ok (rep_peer r)"
  shows "reply_loop (concat (map reply_packet rs)) m =
    m\<lparr>im_out := im_out m @ map (\<lambda>r. IcmpEchoReplyEvent (r\<lparr>rep_peer := set_port (rep_peer r) 0\<rparr>)) rs\<rparr>"
  using assms
proof (induction rs arbitrary: m)
  case (Cons r rs)
  have ready: "icmp_ready m" using Cons(2) by (simp add: icmp_ready_def)
  have len: "length (reply_packet r) = 22" using Cons(3) by (simp add: reply_packet_def)
  then have "reply_packet r \<noteq> []" by auto
  then have "reply_loop (reply_packet r) m = (im_emit (IcmpEchoReplyEvent (r\<lparr>rep_peer := set_port (rep_peer r) 0\<rparr>)) m)\<lparr>m_reply_buffer := []\<rparr>"
    using len Cons(2,3) by (simp add: reply_loop_turn process_reply_chunk_eq [OF ready] parse_reply_packet Let_def)
  then have "reply_loop (reply_packet r) m = m\<lparr>im_out := im_out m @ [IcmpEchoReplyEvent (r\<lparr>rep_peer := set_port (rep_peer r) 0\<rparr>)]\<rparr>"
    using Cons(2) [symmetric] by (simp add: im_emit_def)
  then show ?case using Cons by (simp add: reply_loop_append [OF ready])
qed simp

text \<open>
  C28: echo replies survive the stream. However the incoming stream is cut into pieces, the replies
  that were written to it in the documented format are raised one by one, in order, with their
  identifier, address, type, code and sequence number, and nothing else is raised.
\<close>

theorem icmp_replies_delivered:
  assumes "m_reply_buffer m = []" and "\<forall>r \<in> set rs. addr_ok (rep_peer r)"
    and "concat chunks = concat (map reply_packet rs)"
  shows "fold reply_loop chunks m =
    m\<lparr>im_out := im_out m @ map (\<lambda>r. IcmpEchoReplyEvent (r\<lparr>rep_peer := set_port (rep_peer r) 0\<rparr>)) rs\<rparr>"
proof -
  have ready: "icmp_ready m" using assms(1) by (simp add: icmp_ready_def)
  show ?thesis
    unfolding icmp_stream.feed_concat [OF ready] assms(3) by (rule reply_loop_packets [OF assms(1,2)])
qed

definition sample_reply :: icmp_echo_reply where
  "sample_reply = \<lparr>rep_peer = SA_V4 [8, 8, 8, 8] 0, rep_id = 7, rep_seqno = 258, rep_type = 0, rep_code = 0\<rparr>"

theorem icmp_replies_delivered_witness:
  "fold reply_loop [take 5 (reply_packet sample_reply), drop 5 (reply_packet sample_reply)] icmp_mux_new =
     icmp_mux_new\<lparr>im_out := [IcmpEchoReplyEvent sample_reply]\<rparr>"
  using icmp_replies_delivered [of icmp_mux_new "[sample_reply]"
      "[take 5 (reply_packet sample_reply), drop 5 (reply_packet sample_reply)]"]
  by (simp add: icmp_mux_new_def sample_reply_def addr_ok_def padded_unambiguous_def)

section \<open>Requests\<close>

text \<open>The documented format of a request, read back.\<close>

definition read_request :: "bytes \<Rightarrow> icmp_echo_request option" where
  "read_request b =
     (case (get_u16 b, get_ip_padded (drop 2 b), get_u16 (drop 18 b), get_u8 (drop 20 b), get_u16 (drop 21 b)) of
        ((Some i, _), (Some a, _), (Some s, _), (Some t, _), (Some n, [])) \<Rightarrow>
          Some \<lparr>req_peer = a, echo_id = i, req_seqno = s, req_ttl = t, req_data_size = n\<rparr>
      | _ \<Rightarrow> None)"

definition request_packet :: "icmp_echo_request \<Rightarrow> bytes" where
  "request_packet r = be16 (echo_id r) @ padded_ip (req_peer r) @ be16 (req_seqno r) @ [req_ttl r] @ be16 (req_data_size r)"

lemma compose_request_eq:
  assumes "sa_wf (req_peer r)" and "req_peer r \<noteq> SA_Unspec"
  shows "compose_request r = Some (request_packet r)"
  using assms
  by (simp add: compose_request_def request_packet_def writer_of_def writer_buffer_def put_u16_def put_u8_def wire_simps)

lemma read_request_packet:
  assumes "addr_ok (req_peer r)"
  shows "read_request (request_packet r) = Some (r\<lparr>req_peer := set_port (req_peer r) 0\<rparr>)"
proof -
  have "get_u16 (be16 p) = (Some p, [])" for p using get_u16_be16 [of p "[]"] by simp
  then show ?thesis using assms by (simp add: read_request_def request_packet_def wire_simps)
qed

definition icmp_mux_ok :: "icmp_mux \<Rightarrow> bool" where
  "icmp_mux_ok m \<longleftrightarrow> (im_state m = ICMP_MS_ESTABLISHED \<longleftrightarrow> im_stream_id m \<noteq> None)"

text \<open>
  C29: a request goes out in the documented format. A request is written as one packet to the stream
  that is open, or to the one that is opened for it; the packet read back in the documented format is
  the request without its port, and the result is whether the stream took it. Without a stream nothing
  is sent.
\<close>

theorem icmp_request_sent:
  assumes "icmp_mux_ok m" and "addr_ok (req_peer request)"
  shows "let (res, m') = icmp_send_request stream r request m in
    icmp_mux_ok m' \<and> im_faults m' = im_faults m \<and> m_reply_buffer m' = m_reply_buffer m \<and>
    im_stream_id m' = (if im_stream_id m = None then stream else im_stream_id m) \<and>
    (case im_stream_id m' of
       None \<Rightarrow> \<not> res \<and> im_out m' = im_out m
     | Some sid \<Rightarrow> \<exists>packet. im_out m' = im_out m @ [IcmpSendData sid packet] \<and> res = (r packet = 0) \<and>
         read_request packet = Some (request\<lparr>req_peer := set_port (req_peer request) 0\<rparr>))"
proof -
  have packet: "compose_request request = Some (request_packet request)"
    using assms(2) by (simp add: compose_request_eq)
  show ?thesis
    using assms(1) read_request_packet [OF assms(2)]
    by (cases "im_state m"; cases "im_stream_id m"; cases stream)
       (simp_all add: icmp_send_request_def send_request_established_def packet icmp_mux_ok_def im_emit_def Let_def)
qed

definition sample_request :: icmp_echo_request where
  "sample_request = \<lparr>req_peer = SA_V4 [8, 8, 8, 8] 0, echo_id = 7, req_seqno = 258, req_ttl = 64, req_data_size = 56\<rparr>"

theorem icmp_request_sent_witness:
  "\<exists>packet. im_out (snd (icmp_send_request (Some 4) (\<lambda>_. 0) sample_request icmp_mux_new)) = [IcmpSendData 4 packet] \<and>
     read_request packet = Some sample_request"
  using icmp_request_sent [of icmp_mux_new sample_request "Some 4" "\<lambda>_. 0"]
  by (auto simp: icmp_mux_ok_def icmp_mux_new_def sample_request_def addr_ok_def padded_unambiguous_def split: prod.splits)

section \<open>Outstanding requests\<close>

text \<open>The abstract state of the manager: the queue of the attempts of every identifier.\<close>

definition outstanding :: "icmp_manager \<Rightarrow> u16 \<Rightarrow> request_attempt list" where
  "outstanding m i = (case map_of (m_requests m) i of None \<Rightarrow> [] | Some info \<Rightarrow> tries info)"

definition icmp_inv :: "icmp_manager \<Rightarrow> bool" where
  "icmp_inv m \<longleftrightarrow>
     sorted_wrt (<) (map fst (m_requests m)) \<and>
     (\<forall>(i, info) \<in> set (m_requests m). tries info \<noteq> [] \<and> distinct (map try_seqno (tries info))) \<and>
     m_request_timeout m \<noteq> None \<and> (m_requests m \<noteq> [] \<longrightarrow> m_icmp_timer m \<noteq> None)"

lemma icmp_inv_init: "icmp_inv (icmp_manager_init timeout icmp_manager_new)"
  by (simp add: icmp_inv_def icmp_manager_init_def icmp_manager_new_def)

lemma icmp_inv_entry:
  "icmp_inv m \<Longrightarrow> map_of (m_requests m) i = Some info \<Longrightarrow> tries info \<noteq> [] \<and> distinct (map try_seqno (tries info))"
  by (auto simp: icmp_inv_def dest: map_of_SomeD)

lemma outstanding_distinct: "icmp_inv m \<Longrightarrow> distinct (map try_seqno (outstanding m i))"
  by (auto simp: outstanding_def dest: icmp_inv_entry split: option.splits)

lemma sorted_delete: "sorted_wrt (<) (map fst xs) \<Longrightarrow> sorted_wrt (<) (map fst (AList.delete k xs))"
  by (induction xs) (auto simp: AList.delete_eq)

lemma icmp_inv_put:
  assumes "icmp_inv m" and "tries info \<noteq> []" and "distinct (map try_seqno (tries info))" and "tm \<noteq> None"
  shows "icmp_inv (m\<lparr>m_requests := map_put i info (m_requests m), m_icmp_timer := tm\<rparr>)"
  using assms set_map_put [of i info "m_requests m"]
  by (fastforce simp: icmp_inv_def sorted_map_put)

lemma icmp_inv_put_same_timer:
  assumes "icmp_inv m" and "m_requests m \<noteq> []" and "tries info \<noteq> []" and "distinct (map try_seqno (tries info))"
  shows "icmp_inv (m\<lparr>m_requests := map_put i info (m_requests m)\<rparr>)"
  using icmp_inv_put [OF assms(1,3,4), of "m_icmp_timer m" i] assms(1,2) by (simp add: icmp_inv_def)

lemma icmp_inv_delete: "icmp_inv m \<Longrightarrow> icmp_inv (m\<lparr>m_requests := AList.delete i (m_requests m)\<rparr>)"
  by (auto simp: icmp_inv_def sorted_delete) (auto simp: AList.delete_eq)

definition has_seqno :: "u16 \<Rightarrow> request_attempt list \<Rightarrow> bool" where
  "has_seqno s q \<longleftrightarrow> s \<in> try_seqno ` set q"

lemma list_ex_seqno [simp]: "list_ex (\<lambda>i. try_seqno i = s) q \<longleftrightarrow> has_seqno s q"
  by (auto simp: list_ex_iff has_seqno_def)

text \<open>The specification of the three operations on the queues.\<close>

definition spec_request ::
  "time_point \<Rightarrow> u16 \<Rightarrow> u16 \<Rightarrow> (u16 \<Rightarrow> request_attempt list) \<Rightarrow> icmp_message_status \<times> (u16 \<Rightarrow> request_attempt list)" where
  "spec_request deadline i s q =
     (if has_seqno s (q i) then (IM_MSGS_DROP, q)
      else (IM_MSGS_PASS, q(i := q i @ [\<lparr>try_seqno = s, try_timeout_ts = deadline\<rparr>])))"

definition spec_reply ::
  "icmp_echo_reply \<Rightarrow> (u16 \<Rightarrow> request_attempt list) \<Rightarrow> (icmp_message_status \<times> u16) \<times> (u16 \<Rightarrow> request_attempt list)" where
  "spec_reply r q =
     (let s = (if is_echo_reply r \<or> q (rep_id r) = [] then rep_seqno r else try_seqno (hd (q (rep_id r)))) in
      if has_seqno s (q (rep_id r))
      then ((IM_MSGS_PASS, s), q(rep_id r := filter (\<lambda>a. try_seqno a \<noteq> s) (q (rep_id r))))
      else ((IM_MSGS_DROP, s), q))"

definition spec_timer :: "time_point \<Rightarrow> (u16 \<Rightarrow> request_attempt list) \<Rightarrow> (u16 \<Rightarrow> request_attempt list)" where
  "spec_timer now q = (\<lambda>i. filter (\<lambda>a. now < try_timeout_ts a) (q i))"

lemma outstanding_put [simp]:
  "outstanding (m\<lparr>m_requests := map_put i info rs, m_icmp_timer := tm\<rparr>) = (outstanding (m\<lparr>m_requests := rs\<rparr>))(i := tries info)"
  "outstanding (m\<lparr>m_requests := map_put i info rs\<rparr>) = (outstanding (m\<lparr>m_requests := rs\<rparr>))(i := tries info)"
  "outstanding (m\<lparr>m_requests := AList.delete i rs\<rparr>) = (outstanding (m\<lparr>m_requests := rs\<rparr>))(i := [])"
  by (auto simp: outstanding_def delete_conv')

lemma register_request_refines:
  assumes inv: "icmp_inv m" and timeout: "m_request_timeout m = Some timeout"
    and eq: "register_request now r m = (st, m')"
  shows "icmp_inv m' \<and> (st, outstanding m') = spec_request (now + ns_of_millis timeout) (echo_id r) (req_seqno r) (outstanding m)
    \<and> replies_ready m' = replies_ready m \<and> icmp_faults m' = icmp_faults m \<and> m_request_timeout m' = Some timeout"
proof -
  let ?info = "case map_of (m_requests m) (echo_id r) of None \<Rightarrow> \<lparr>original_peer = req_peer r, tries = []\<rparr> | Some i \<Rightarrow> i"
  let ?a = "\<lparr>try_seqno = req_seqno r, try_timeout_ts = now + ns_of_millis timeout\<rparr>"
  have out: "tries ?info = outstanding m (echo_id r)" by (simp add: outstanding_def split: option.splits)
  show ?thesis
  proof (cases "has_seqno (req_seqno r) (outstanding m (echo_id r))")
    case True
    then have m': "m' = m\<lparr>m_requests := map_put (echo_id r) ?info (m_requests m)\<rparr>" "st = IM_MSGS_DROP"
      using eq by (auto simp: register_request_def Let_def out)
    have ne: "outstanding m (echo_id r) \<noteq> []" using True by (auto simp: has_seqno_def)
    then have "m_requests m \<noteq> []" by (auto simp: outstanding_def)
    then have "icmp_inv m'"
      unfolding m' using ne outstanding_distinct [OF inv] by (intro icmp_inv_put_same_timer [OF inv]) (simp_all add: out)
    moreover have "outstanding m' = outstanding m"
      by (simp add: m' out)
    ultimately show ?thesis using True timeout by (simp add: m' spec_request_def)
  next
    case False
    define tm where "tm = (if m_icmp_timer m = None then Some (word_of_int (trunc_div timeout 10)) else m_icmp_timer m)"
    have m': "m' = m\<lparr>m_requests := map_put (echo_id r) (?info\<lparr>tries := tries ?info @ [?a]\<rparr>) (m_requests m), m_icmp_timer := tm\<rparr>"
      and st: "st = IM_MSGS_PASS"
      using False eq timeout by (auto simp: register_request_def Let_def out tm_def)
    have "icmp_inv m'"
      unfolding m' using False outstanding_distinct [OF inv, of "echo_id r"]
      by (intro icmp_inv_put [OF inv]) (auto simp: out has_seqno_def tm_def)
    moreover have "outstanding m' = (outstanding m)(echo_id r := outstanding m (echo_id r) @ [?a])"
      by (simp add: m' out)
    ultimately show ?thesis using False timeout by (simp add: m' st spec_request_def)
  qed
qed

lemma erase_first_distinct:
  "distinct (map try_seqno q) \<Longrightarrow> erase_first (\<lambda>i. try_seqno i = s) q = filter (\<lambda>a. try_seqno a \<noteq> s) q"
proof (induction q)
  case (Cons a q)
  then have "\<forall>b \<in> set q. try_seqno b \<noteq> try_seqno a" by (simp add: image_iff) metis
  then have "filter (\<lambda>b. try_seqno b \<noteq> try_seqno a) q = q" by (rule filter_True)
  then show ?case using Cons by auto
qed simp

lemma register_reply_refines:
  assumes inv: "icmp_inv m" and eq: "register_reply r m = (st, r', m')"
  shows "icmp_inv m' \<and> ((st, rep_seqno r'), outstanding m') = spec_reply r (outstanding m)
    \<and> r' = r\<lparr>rep_seqno := rep_seqno r'\<rparr>
    \<and> replies_ready m' = replies_ready m \<and> icmp_faults m' = icmp_faults m \<and> m_request_timeout m' = m_request_timeout m"
proof (cases "map_of (m_requests m) (rep_id r)")
  case None
  then show ?thesis using inv eq by (auto simp: register_reply_def spec_reply_def outstanding_def has_seqno_def)
next
  case (Some info)
  note entry = icmp_inv_entry [OF inv Some]
  have out: "outstanding m (rep_id r) = tries info" using Some by (simp add: outstanding_def)
  define s where "s = (if is_echo_reply r then rep_seqno r else try_seqno (hd (tries info)))"
  have hd: "has_seqno (try_seqno (hd (tries info))) (tries info)" using entry by (simp add: has_seqno_def)
  show ?thesis
  proof (cases "has_seqno s (tries info)")
    case True
    define left where "left = filter (\<lambda>a. try_seqno a \<noteq> s) (tries info)"
    have res: "st = IM_MSGS_PASS" "r' = r\<lparr>rep_seqno := s\<rparr>"
      "m' = m\<lparr>m_requests := (if left = [] then AList.delete (rep_id r) (m_requests m)
                              else map_put (rep_id r) (info\<lparr>tries := left\<rparr>) (m_requests m))\<rparr>"
      using True Some eq entry
      by (auto simp: register_reply_def Let_def s_def left_def erase_first_distinct split: if_splits)
    have "icmp_inv m'"
    proof (cases "left = []")
      case True
      then show ?thesis using icmp_inv_delete [OF inv] by (simp add: res)
    next
      case False
      have "distinct (map try_seqno left)" using entry by (simp add: left_def distinct_map_filter)
      moreover have "m_requests m \<noteq> []" using Some by auto
      ultimately show ?thesis using False icmp_inv_put_same_timer [OF inv] by (simp add: res)
    qed
    moreover have "outstanding m' = (outstanding m)(rep_id r := left)" by (simp add: res)
    moreover have "spec_reply r (outstanding m) = ((IM_MSGS_PASS, s), (outstanding m)(rep_id r := left))"
      using True entry by (cases "is_echo_reply r") (simp_all add: spec_reply_def out s_def left_def Let_def)
    ultimately show ?thesis using res by simp
  next
    case False
    then have "is_echo_reply r" "s = rep_seqno r" using hd by (auto simp: s_def split: if_splits)
    moreover from this have "st = IM_MSGS_DROP" "r' = r" "m' = m"
      using False Some eq by (auto simp: register_reply_def Let_def)
    ultimately show ?thesis using False inv by (simp add: spec_reply_def out)
  qed
qed

lemma timer_tries_eq:
  "timer_tries now key peer js =
     (map (\<lambda>j. make_reply_on_timeout key peer (try_seqno j)) (filter (\<lambda>j. \<not> now < try_timeout_ts j) js),
      filter (\<lambda>j. now < try_timeout_ts j) js)"
  by (induction js) (auto simp: Let_def)

lemma timer_requests_Cons:
  "timer_requests now (ki # rs) =
     (let left = filter (\<lambda>j. now < try_timeout_ts j) (tries (snd ki)) in
      (map (\<lambda>j. make_reply_on_timeout (fst ki) (original_peer (snd ki)) (try_seqno j))
          (filter (\<lambda>j. \<not> now < try_timeout_ts j) (tries (snd ki))) @ fst (timer_requests now rs),
       if left = [] then snd (timer_requests now rs)
       else (fst ki, (snd ki)\<lparr>tries := left\<rparr>) # snd (timer_requests now rs)))"
  by (cases ki) (simp add: timer_tries_eq Let_def split: prod.split)

declare timer_requests.simps(2) [simp del]

lemma timer_requests_keys: "fst ` set (snd (timer_requests now rs)) \<subseteq> fst ` set rs"
  by (induction rs) (auto simp: timer_requests_Cons Let_def)

lemma timer_requests_outstanding:
  "sorted_wrt (<) (map fst rs) \<Longrightarrow>
     outstanding (m\<lparr>m_requests := snd (timer_requests now rs)\<rparr>) i = spec_timer now (outstanding (m\<lparr>m_requests := rs\<rparr>)) i"
proof (induction rs)
  case (Cons ki rs)
  have "fst ki \<notin> fst ` set rs" using Cons(2) by force
  then have "map_of rs (fst ki) = None" "map_of (snd (timer_requests now rs)) (fst ki) = None"
    using timer_requests_keys [of now rs] by (auto simp: map_of_eq_None_iff)
  then show ?case
    using Cons by (cases ki; cases "i = fst ki") (auto simp: outstanding_def spec_timer_def timer_requests_Cons Let_def)
qed (simp add: outstanding_def spec_timer_def)

lemma timer_requests_inv:
  assumes "sorted_wrt (<) (map fst rs)"
    and "\<forall>(i, info) \<in> set rs. tries info \<noteq> [] \<and> distinct (map try_seqno (tries info))"
  shows "sorted_wrt (<) (map fst (snd (timer_requests now rs))) \<and>
    (\<forall>(i, info) \<in> set (snd (timer_requests now rs)). tries info \<noteq> [] \<and> distinct (map try_seqno (tries info)))"
  using assms
proof (induction rs)
  case (Cons ki rs)
  have "\<forall>x \<in> fst ` set rs. fst ki < x" using Cons(2) by simp
  then have "\<forall>x \<in> fst ` set (snd (timer_requests now rs)). fst ki < x"
    using timer_requests_keys [of now rs] by blast
  then show ?case
    using Cons by (cases ki) (auto simp: timer_requests_Cons Let_def distinct_map_filter)
qed simp

text \<open>The replies of the timer are the timed-out attempts, identifier by identifier.\<close>

lemma timer_requests_replies:
  "sorted_wrt (<) (map fst rs) \<Longrightarrow>
     map rep_seqno (filter (\<lambda>r. rep_id r = i) (fst (timer_requests now rs))) =
     map try_seqno (filter (\<lambda>a. \<not> now < try_timeout_ts a) (outstanding (m\<lparr>m_requests := rs\<rparr>) i))"
proof (induction rs)
  case (Cons ki rs)
  have "fst ki \<notin> fst ` set rs" using Cons(2) by force
  then have "map_of rs (fst ki) = None" by (simp add: map_of_eq_None_iff)
  then show ?case
    using Cons
    by (cases ki; cases "i = fst ki")
       (simp_all add: outstanding_def timer_requests_Cons Let_def make_reply_on_timeout_def filter_map o_def)
qed (simp add: outstanding_def)

lemma timer_requests_types: "r \<in> set (fst (timer_requests now rs)) \<Longrightarrow> rep_type r = ICMP_MT_DROP \<and> rep_code r = 0"
  by (induction rs) (auto simp: timer_requests_Cons Let_def make_reply_on_timeout_def)

lemma icmp_timer_refines:
  assumes inv: "icmp_inv m"
  shows "icmp_inv (icmp_timer_callback now m) \<and> outstanding (icmp_timer_callback now m) = spec_timer now (outstanding m)
    \<and> (\<exists>new. replies_ready (icmp_timer_callback now m) = replies_ready m @ new \<and> (\<forall>r \<in> set new. rep_type r = ICMP_MT_DROP)
         \<and> (\<forall>i. map rep_seqno (filter (\<lambda>r. rep_id r = i) new) =
                map try_seqno (filter (\<lambda>a. try_timeout_ts a \<le> now) (outstanding m i))))
    \<and> icmp_faults (icmp_timer_callback now m) = icmp_faults m
    \<and> m_request_timeout (icmp_timer_callback now m) = m_request_timeout m"
proof -
  have s: "sorted_wrt (<) (map fst (m_requests m))" using inv by (simp add: icmp_inv_def)
  obtain new rs where t: "timer_requests now (m_requests m) = (new, rs)" by force
  have m': "icmp_timer_callback now m = m\<lparr>m_requests := rs, replies_ready := replies_ready m @ new\<rparr>"
    by (simp add: icmp_timer_callback_def t)
  have ne: "rs \<noteq> [] \<Longrightarrow> m_requests m \<noteq> []" using t by auto
  have "outstanding (m\<lparr>m_requests := rs, replies_ready := replies_ready m @ new\<rparr>) = outstanding (m\<lparr>m_requests := rs\<rparr>)"
    by (simp add: outstanding_def fun_eq_iff)
  then have "outstanding (icmp_timer_callback now m) = spec_timer now (outstanding m)"
    using timer_requests_outstanding [OF s, where m = m and now = now] t by (simp add: m' fun_eq_iff)
  moreover have "icmp_inv (icmp_timer_callback now m)"
    using timer_requests_inv [of "m_requests m" now] inv t ne by (simp add: m' icmp_inv_def)
  moreover have "map rep_seqno (filter (\<lambda>r. rep_id r = i) new) =
      map try_seqno (filter (\<lambda>a. try_timeout_ts a \<le> now) (outstanding m i))" for i
    using timer_requests_replies [OF s, where i = i and now = now and m = m] t by (simp add: not_less)
  ultimately show ?thesis using timer_requests_types [of _ now "m_requests m"] t by (simp add: m')
qed

text \<open>
  C27: the manager implements the queues of outstanding attempts. A request is dropped exactly when
  its sequence number is outstanding and is queued with its deadline otherwise; an echo reply
  settles the attempt with its sequence number and an error message the oldest attempt, whose
  sequence number it is given, and a reply without an attempt is dropped; the timer settles exactly the
  attempts whose deadline has come, each with one reply of the type \<open>ICMP_MT_DROP\<close>, and keeps the rest.
\<close>

theorem icmp_manager_refines_queues:
  assumes "icmp_inv m" and "m_request_timeout m = Some timeout"
  shows "(let (st, m') = register_request now request m in
            icmp_inv m' \<and> replies_ready m' = replies_ready m \<and>
            (st, outstanding m') =
              spec_request (now + ns_of_millis timeout) (echo_id request) (req_seqno request) (outstanding m)) \<and>
         (let (st, reply', m') = register_reply reply m in
            icmp_inv m' \<and> replies_ready m' = replies_ready m \<and> reply' = reply\<lparr>rep_seqno := rep_seqno reply'\<rparr> \<and>
            ((st, rep_seqno reply'), outstanding m') = spec_reply reply (outstanding m)) \<and>
         (let m' = icmp_timer_callback now m in
            icmp_inv m' \<and> outstanding m' = spec_timer now (outstanding m) \<and>
            (\<exists>new. replies_ready m' = replies_ready m @ new \<and> (\<forall>r \<in> set new. rep_type r = ICMP_MT_DROP) \<and>
               (\<forall>i. map rep_seqno (filter (\<lambda>r. rep_id r = i) new) =
                    map try_seqno (filter (\<lambda>a. try_timeout_ts a \<le> now) (outstanding m i)))))"
proof (intro conjI)
  show "let (st, m') = register_request now request m in
            icmp_inv m' \<and> replies_ready m' = replies_ready m \<and>
            (st, outstanding m') =
              spec_request (now + ns_of_millis timeout) (echo_id request) (req_seqno request) (outstanding m)"
    using register_request_refines [OF assms, of now request] by (simp split: prod.splits)
  show "let (st, reply', m') = register_reply reply m in
            icmp_inv m' \<and> replies_ready m' = replies_ready m \<and> reply' = reply\<lparr>rep_seqno := rep_seqno reply'\<rparr> \<and>
            ((st, rep_seqno reply'), outstanding m') = spec_reply reply (outstanding m)"
    using register_reply_refines [OF assms(1), of reply] by (simp split: prod.splits)
qed (use icmp_timer_refines [OF assms(1), of now] in \<open>simp add: Let_def\<close>)

definition sample_manager :: icmp_manager where
  "sample_manager = icmp_manager_init None icmp_manager_new"

theorem icmp_manager_refines_queues_witness:
  "outstanding (snd (register_request 5 sample_request sample_manager)) 7 =
     [\<lparr>try_seqno = 258, try_timeout_ts = 3000000005\<rparr>]"
proof -
  have m: "icmp_inv sample_manager" "m_request_timeout sample_manager = Some 3000" "outstanding sample_manager = (\<lambda>_. [])"
    using icmp_inv_init [of None]
    by (simp_all add: sample_manager_def icmp_manager_init_def icmp_manager_new_def outstanding_def DEFAULT_PING_REQUEST_TIMEOUT_def fun_eq_iff)
  have r: "echo_id sample_request = 7" "req_seqno sample_request = 258" by (simp_all add: sample_request_def)
  obtain st m' where eq: "register_request 5 sample_request sample_manager = (st, m')" by force
  show ?thesis
    using conjunct1 [OF icmp_manager_refines_queues [OF m(1,2), of 5 sample_request sample_reply]]
    by (simp add: eq m(3) r spec_request_def has_seqno_def ns_of_millis_def)
qed

section \<open>Every request is answered once\<close>

datatype icmp_call = CallRequest time_point icmp_echo_request | CallReply icmp_echo_reply | CallTimer time_point

definition icmp_step :: "icmp_call \<Rightarrow> icmp_manager \<Rightarrow> icmp_manager" where
  "icmp_step c m =
     (case c of
        CallRequest t r \<Rightarrow> snd (register_request t r m)
      | CallReply r \<Rightarrow> snd (snd (register_reply r m))
      | CallTimer t \<Rightarrow> icmp_timer_callback t m)"

text \<open>The requests a call lets pass, and those it answers: with a reply that passes or a timeout.\<close>

definition icmp_accepted :: "icmp_call \<Rightarrow> icmp_manager \<Rightarrow> (u16 \<times> u16) list" where
  "icmp_accepted c m =
     (case c of
        CallRequest t r \<Rightarrow> if fst (register_request t r m) = IM_MSGS_PASS then [(echo_id r, req_seqno r)] else []
      | _ \<Rightarrow> [])"

definition icmp_answered :: "icmp_call \<Rightarrow> icmp_manager \<Rightarrow> (u16 \<times> u16) list" where
  "icmp_answered c m =
     (case c of
        CallRequest t r \<Rightarrow> []
      | CallReply r \<Rightarrow>
          (case register_reply r m of (st, r', _) \<Rightarrow> if st = IM_MSGS_PASS then [(rep_id r', rep_seqno r')] else [])
      | CallTimer t \<Rightarrow>
          map (\<lambda>r. (rep_id r, rep_seqno r)) (drop (length (replies_ready m)) (replies_ready (icmp_timer_callback t m))))"

definition icmp_pending :: "icmp_manager \<Rightarrow> (u16 \<times> u16) set" where
  "icmp_pending m = {(i, s). has_seqno s (outstanding m i)}"

lemma distinct_pairs:
  assumes "\<And>i. distinct (map g (filter (\<lambda>r. f r = i) xs))"
  shows "distinct (map (\<lambda>r. (f r, g r)) xs)"
  using assms
proof (induction xs)
  case (Cons x xs)
  have "distinct (map g (filter (\<lambda>r. f r = i) xs))" for i
    using Cons(2) [of i] by (simp split: if_splits)
  moreover have "g x \<notin> g ` set (filter (\<lambda>r. f r = f x) xs)" using Cons(2) [of "f x"] by simp
  ultimately show ?case using Cons(1) by (fastforce simp: image_iff)
qed simp

lemma timer_answers:
  assumes inv: "icmp_inv m"
  shows "distinct (icmp_answered (CallTimer t) m)"
    and "set (icmp_answered (CallTimer t) m) = {(i, s). s \<in> try_seqno ` {a \<in> set (outstanding m i). try_timeout_ts a \<le> t}}"
proof -
  obtain new where new: "replies_ready (icmp_timer_callback t m) = replies_ready m @ new"
      "\<And>i. map rep_seqno (filter (\<lambda>r. rep_id r = i) new) =
           map try_seqno (filter (\<lambda>a. try_timeout_ts a \<le> t) (outstanding m i))"
    using icmp_timer_refines [OF inv, of t] by blast
  have ans: "icmp_answered (CallTimer t) m = map (\<lambda>r. (rep_id r, rep_seqno r)) new"
    by (simp add: icmp_answered_def new(1))
  show "distinct (icmp_answered (CallTimer t) m)"
    unfolding ans by (rule distinct_pairs) (simp add: new(2) distinct_map_filter outstanding_distinct [OF inv])
  have "(i, s) \<in> set (map (\<lambda>r. (rep_id r, rep_seqno r)) new) \<longleftrightarrow> s \<in> set (map rep_seqno (filter (\<lambda>r. rep_id r = i) new))" for i s
    by auto
  then show "set (icmp_answered (CallTimer t) m) = {(i, s). s \<in> try_seqno ` {a \<in> set (outstanding m i). try_timeout_ts a \<le> t}}"
    unfolding ans new(2) by auto
qed

lemma icmp_step_request:
  assumes "icmp_inv m"
  shows "icmp_inv (icmp_step (CallRequest t r) m) \<and>
    icmp_accepted (CallRequest t r) m =
      (if (echo_id r, req_seqno r) \<in> icmp_pending m then [] else [(echo_id r, req_seqno r)]) \<and>
    icmp_pending (icmp_step (CallRequest t r) m) = insert (echo_id r, req_seqno r) (icmp_pending m)"
proof -
  obtain timeout where timeout: "m_request_timeout m = Some timeout" using assms by (auto simp: icmp_inv_def)
  obtain st m' where eq: "register_request t r m = (st, m')" by force
  note ref = register_request_refines [OF assms timeout eq]
  have "st = IM_MSGS_PASS \<longleftrightarrow> (echo_id r, req_seqno r) \<notin> icmp_pending m"
    using ref by (simp add: spec_request_def icmp_pending_def split: if_splits)
  moreover have "icmp_pending m' = insert (echo_id r, req_seqno r) (icmp_pending m)"
    using ref by (auto simp: spec_request_def icmp_pending_def has_seqno_def split: if_splits)
  ultimately show ?thesis using ref eq by (simp add: icmp_step_def icmp_accepted_def)
qed

lemma icmp_step_reply:
  assumes "icmp_inv m"
  shows "icmp_inv (icmp_step (CallReply r) m) \<and>
    icmp_pending (icmp_step (CallReply r) m) = icmp_pending m - set (icmp_answered (CallReply r) m) \<and>
    distinct (icmp_answered (CallReply r) m) \<and> set (icmp_answered (CallReply r) m) \<subseteq> icmp_pending m"
proof -
  obtain st r' m' where eq: "register_reply r m = (st, r', m')" by (metis prod_cases3)
  note ref = register_reply_refines [OF assms eq]
  have same: "rep_id r' = rep_id r" using ref by (metis icmp_echo_reply.surjective icmp_echo_reply.update_convs(3) icmp_echo_reply.select_convs(2))
  have "icmp_pending m' = icmp_pending m - set (icmp_answered (CallReply r) m) \<and> set (icmp_answered (CallReply r) m) \<subseteq> icmp_pending m"
  proof (cases "st = IM_MSGS_PASS")
    case True
    then have "outstanding m' = (outstanding m)(rep_id r := filter (\<lambda>a. try_seqno a \<noteq> rep_seqno r') (outstanding m (rep_id r)))"
      "has_seqno (rep_seqno r') (outstanding m (rep_id r))"
      using ref by (auto simp: spec_reply_def Let_def split: if_splits)
    then show ?thesis using True eq same
      by (auto simp: icmp_pending_def icmp_answered_def has_seqno_def split: if_splits)
  next
    case False
    then show ?thesis
      using ref eq by (auto simp: spec_reply_def Let_def icmp_pending_def icmp_answered_def split: if_splits)
  qed
  then show ?thesis using ref eq by (auto simp: icmp_step_def icmp_answered_def)
qed

lemma icmp_step_timer:
  assumes "icmp_inv m"
  shows "icmp_inv (icmp_step (CallTimer t) m) \<and>
    icmp_pending (icmp_step (CallTimer t) m) = icmp_pending m - set (icmp_answered (CallTimer t) m) \<and>
    set (icmp_answered (CallTimer t) m) \<subseteq> icmp_pending m"
proof -
  note ref = icmp_timer_refines [OF assms, of t]
  have inj: "inj_on try_seqno (set (outstanding m i))" for i
    using outstanding_distinct [OF assms, of i] by (simp add: distinct_map)
  have "try_seqno ` {a \<in> set (outstanding m i). t < try_timeout_ts a} =
      try_seqno ` (set (outstanding m i) - {a \<in> set (outstanding m i). try_timeout_ts a \<le> t})" for i
    by (rule arg_cong [of _ _ "image try_seqno"]) auto
  also have "... i = try_seqno ` set (outstanding m i) - try_seqno ` {a \<in> set (outstanding m i). try_timeout_ts a \<le> t}" for i
    by (rule inj_on_image_set_diff [OF inj]) auto
  finally have "icmp_pending (icmp_timer_callback t m) = icmp_pending m - set (icmp_answered (CallTimer t) m)"
    using ref by (auto simp: timer_answers [OF assms] icmp_pending_def spec_timer_def has_seqno_def)
  then show ?thesis using ref by (auto simp: icmp_step_def timer_answers [OF assms] icmp_pending_def has_seqno_def)
qed

interpretation icmp_requests: request_tracker icmp_step icmp_inv icmp_pending icmp_accepted icmp_answered
proof
  fix m c assume inv: "icmp_inv m"
  note steps = icmp_step_request [OF inv] icmp_step_reply [OF inv] icmp_step_timer [OF inv] timer_answers(1) [OF inv]
  show "icmp_inv (icmp_step c m)" using steps by (cases c) auto
  show "distinct (icmp_accepted c m) \<and> set (icmp_accepted c m) \<inter> icmp_pending m = {}"
    using steps(1) by (cases c) (auto simp: icmp_accepted_def split: if_splits)
  have none: "icmp_answered (CallRequest t r) m = []" "icmp_accepted (CallReply r') m = []" "icmp_accepted (CallTimer t) m = []" for t r r'
    by (simp_all add: icmp_answered_def icmp_accepted_def)
  show "distinct (icmp_answered c m) \<and> set (icmp_answered c m) \<subseteq> icmp_pending m \<union> set (icmp_accepted c m)"
    using steps(2-) by (cases c) (simp_all add: none)
  show "icmp_pending (icmp_step c m) = (icmp_pending m \<union> set (icmp_accepted c m)) - set (icmp_answered c m)"
    using steps by (cases c) (auto simp: none)
qed

text \<open>
  C26: every echo request is answered at most once, and only if it was sent. In any sequence of
  requests, replies and timer calls, a request that was let pass has as many answers as it was let
  pass times, a reply that passes or a timeout each, up to the one that is still outstanding.
\<close>

theorem icmp_request_answered_once:
  "let m0 = icmp_manager_init timeout icmp_manager_new in
   count_list (history icmp_step icmp_accepted calls m0) k =
     count_list (history icmp_step icmp_answered calls m0) k + of_bool (k \<in> icmp_pending (fold icmp_step calls m0)) \<and>
   icmp_inv (fold icmp_step calls m0)"
proof -
  let ?m0 = "icmp_manager_init timeout icmp_manager_new"
  have "k \<notin> icmp_pending ?m0"
    by (cases k) (simp add: icmp_pending_def outstanding_def icmp_manager_init_def icmp_manager_new_def has_seqno_def)
  then show ?thesis
    using icmp_requests.answered_once [OF icmp_inv_init, of calls timeout k]
      icmp_requests.run_ok [OF icmp_inv_init, of calls timeout] by (simp add: Let_def)
qed

section \<open>The order of the echo keys\<close>

text \<open>The comparison of \<open>IcmpEchoRequestKey\<close>, which nothing uses, is not a strict order.\<close>

lemma echo_key_less_not_asymmetric:
  "\<exists>a b. echo_key_less a b \<and> echo_key_less b a"
  by (rule exI [of _ "\<lparr>key_id = 0, key_seqno = 1\<rparr>"], rule exI [of _ "\<lparr>key_id = 1, key_seqno = 0\<rparr>"])
     (simp add: echo_key_less_def)

end
