(* ===== verification/TT_Port_Ranges.thy ===== *)
theory TT_Port_Ranges
  imports TT_Prelude "HOL-Library.Product_Lexorder"
begin

text \<open>
  The set of ports on which connections are scanned for domain names (class \<open>PortRangeSet\<close> and
  \<open>parse_scannable_ports\<close> of \<open>core/src/utils.cpp\<close>): ranges are sorted and merged when the set is built,
  and looked up by binary search. The set contains exactly the ports of the given ranges.
\<close>

type_synonym port_range = "u16 \<times> u16"

section \<open>The set\<close>

text \<open>One step of the constructor's loop over the sorted ranges. The sum in the comparison is an \<open>unsigned\<close> one and does not wrap.\<close>

definition add_port_range :: "port_range \<Rightarrow> port_range list \<Rightarrow> port_range list" where
  "add_port_range r m_ranges =
     (let (start, finish) = r in
      if start > finish then m_ranges
      else if m_ranges = [] \<or> unat start > unat (snd (last m_ranges)) + 1 then m_ranges @ [(start, finish)]
      else butlast m_ranges @ [(fst (last m_ranges), max (snd (last m_ranges)) finish)])"

definition port_range_set :: "port_range list \<Rightarrow> port_range list" where
  "port_range_set ranges = fold add_port_range (sort ranges) []"

text \<open>\<open>std::ranges::upper_bound\<close> splits the sorted ranges at the first one that starts behind the port.\<close>

definition contains_port :: "port_range list \<Rightarrow> u16 \<Rightarrow> bool" where
  "contains_port m_ranges port =
     (case takeWhile (\<lambda>r. fst r \<le> port) m_ranges of
        [] \<Rightarrow> False
      | r # rs \<Rightarrow> port \<le> snd (last (r # rs)))"

text \<open>The tokenizer and the number parser belong to another library and are arguments.\<close>

definition parse_port_token :: "(string \<Rightarrow> u16 option) \<Rightarrow> string \<Rightarrow> port_range list" where
  "parse_port_token to_u16 token =
     (if CHR '':'' \<in> set token
      then (case (to_u16 (takeWhile (\<lambda>c. c \<noteq> CHR '':'') token), to_u16 (tl (dropWhile (\<lambda>c. c \<noteq> CHR '':'') token))) of
              (Some start, Some finish) \<Rightarrow> if start \<noteq> 0 \<and> finish \<noteq> 0 then [(start, finish)] else []
            | _ \<Rightarrow> [])
      else (case to_u16 token of Some p \<Rightarrow> if p \<noteq> 0 then [(p, p)] else [] | None \<Rightarrow> []))"

definition parse_scannable_ports ::
  "(string \<Rightarrow> string list) \<Rightarrow> (string \<Rightarrow> u16 option) \<Rightarrow> string \<Rightarrow> port_range list option" where
  "parse_scannable_ports split to_u16 str =
     (let ranges = concat (map (parse_port_token to_u16) (split str))
      in if ranges = [] then None else Some (port_range_set ranges))"

section \<open>Sorted, disjoint ranges\<close>

definition ranges_ok :: "port_range list \<Rightarrow> bool" where
  "ranges_ok rs \<longleftrightarrow>
     sorted_wrt (\<lambda>a b. unat (snd a) + 1 < unat (fst b)) rs \<and> (\<forall>r \<in> set rs. fst r \<le> snd r)"

definition ports_of :: "port_range list \<Rightarrow> u16 set" where
  "ports_of rs = (\<Union>r \<in> set rs. {fst r .. snd r})"

lemma ports_of_simps [simp]:
  "ports_of [] = {}" "ports_of (r # rs) = {fst r .. snd r} \<union> ports_of rs" "ports_of (xs @ ys) = ports_of xs \<union> ports_of ys"
  by (auto simp: ports_of_def)

lemma ranges_ok_snoc:
  "ranges_ok (rs @ [r]) \<longleftrightarrow> ranges_ok rs \<and> (\<forall>a \<in> set rs. unat (snd a) + 1 < unat (fst r)) \<and> fst r \<le> snd r"
  by (auto simp: ranges_ok_def sorted_wrt_append)

lemma merge_range:
  fixes a b s f :: u16
  assumes "a \<le> b" "a \<le> s" "s \<le> f" "unat s \<le> unat b + 1"
  shows "{a .. max b f} = {a .. b} \<union> {s .. f}"
proof (rule set_eqI)
  fix p
  have "s \<le> p" if "b < p" using that assms(4) by (simp add: word_less_nat_alt word_le_nat_alt)
  then show "p \<in> {a .. max b f} \<longleftrightarrow> p \<in> {a .. b} \<union> {s .. f}" using assms(1-3) by (auto simp: not_le le_max_iff_disj intro: order_trans)
qed

lemma add_port_range_ok:
  assumes "ranges_ok rs" and "\<forall>a \<in> set rs. fst a \<le> fst r"
  shows "ranges_ok (add_port_range r rs) \<and> ports_of (add_port_range r rs) = ports_of rs \<union> {fst r .. snd r} \<and>
    (\<forall>a \<in> set (add_port_range r rs). fst a \<le> fst r)"
proof -
  obtain s f where r: "r = (s, f)" by fastforce
  consider "f < s" | "s \<le> f" "rs = []" | ys a b where "s \<le> f" "rs = ys @ [(a, b)]"
    by (metis linorder_not_less rev_exhaust surj_pair)
  then show ?thesis
  proof cases
    case 1
    then show ?thesis using assms by (simp add: add_port_range_def r)
  next
    case 2
    then show ?thesis by (simp add: add_port_range_def r ranges_ok_def)
  next
    case 3
    have ys: "ranges_ok ys" "\<forall>x \<in> set ys. unat (snd x) + 1 < unat a" "a \<le> b" using assms(1) by (simp_all add: 3 ranges_ok_snoc)
    show ?thesis
    proof (cases "unat s > unat b + 1")
      case True
      then have "unat (snd x) + 1 < unat s" if "x \<in> set ys" for x
        using ys(2,3) that by (fastforce simp: word_le_nat_alt)
      moreover have "unat b + 1 < unat s" using True by simp
      ultimately have "\<forall>x \<in> set rs. unat (snd x) + 1 < unat (fst r)" by (auto simp: r 3)
      then have "ranges_ok (rs @ [r])" unfolding ranges_ok_snoc using assms(1) 3(1) by (simp add: r)
      moreover have "add_port_range r rs = rs @ [r]" using 3 True by (simp add: add_port_range_def r)
      ultimately show ?thesis using assms(2) by simp
    next
      case False
      have "a \<le> max b f" using ys(3) by (simp add: max.coboundedI1)
      then show ?thesis
        using assms 3 False ys merge_range [of a b s f] by (auto simp: add_port_range_def r ranges_ok_snoc)
    qed
  qed
qed

lemma fold_add_port_range:
  assumes "sorted rs" and "ranges_ok acc" and "\<forall>a \<in> set acc. \<forall>r \<in> set rs. fst a \<le> fst r"
  shows "ranges_ok (fold add_port_range rs acc) \<and> ports_of (fold add_port_range rs acc) = ports_of acc \<union> ports_of rs"
  using assms
proof (induction rs arbitrary: acc)
  case (Cons r rs)
  have one: "ranges_ok (add_port_range r acc)" "ports_of (add_port_range r acc) = ports_of acc \<union> {fst r .. snd r}"
    "\<forall>a \<in> set (add_port_range r acc). fst a \<le> fst r"
    using add_port_range_ok [of acc r] Cons(3,4) by simp_all
  have "fst r \<le> fst r'" if "r' \<in> set rs" for r' using Cons(2) that by (auto simp: less_eq_prod_def)
  then have "\<forall>a \<in> set (add_port_range r acc). \<forall>r' \<in> set rs. fst a \<le> fst r'" using one(3) order_trans by blast
  then show ?case using Cons(1) [of "add_port_range r acc"] Cons(2) one by auto
qed simp

lemma port_range_set_ok: "ranges_ok (port_range_set rs)" "ports_of (port_range_set rs) = ports_of rs"
  using fold_add_port_range [of "sort rs" "[]"] by (simp_all add: port_range_set_def ports_of_def ranges_ok_def)

lemma contains_port_last:
  "contains_port rs p \<longleftrightarrow> (let before = takeWhile (\<lambda>r. fst r \<le> p) rs in before \<noteq> [] \<and> p \<le> snd (last before))"
  by (simp add: contains_port_def Let_def split: list.splits)

lemma contains_port_iff: "ranges_ok rs \<Longrightarrow> contains_port rs p \<longleftrightarrow> p \<in> ports_of rs"
proof (induction rs rule: rev_induct)
  case (snoc r rs)
  have ok: "ranges_ok rs" "\<forall>a \<in> set rs. unat (snd a) + 1 < unat (fst r)" "fst r \<le> snd r" using snoc(2) by (simp_all add: ranges_ok_snoc)
  have before: "fst a \<le> snd a \<and> snd a < fst r" if "a \<in> set rs" for a
    using that ok(1,2) by (fastforce simp: ranges_ok_def word_less_nat_alt)
  show ?case
  proof (cases "fst r \<le> p")
    case True
    then have "\<forall>a \<in> set rs. fst a \<le> p" using before by fastforce
    then have "takeWhile (\<lambda>r. fst r \<le> p) (rs @ [r]) = rs @ [r]" using True by simp
    then have "contains_port (rs @ [r]) p \<longleftrightarrow> p \<le> snd r" by (simp add: contains_port_last)
    moreover have "p \<notin> ports_of rs" using before True by (fastforce simp: ports_of_def)
    ultimately show ?thesis using True by simp
  next
    case False
    then have "takeWhile (\<lambda>r. fst r \<le> p) (rs @ [r]) = takeWhile (\<lambda>r. fst r \<le> p) rs" by (induction rs) auto
    then have "contains_port (rs @ [r]) p = contains_port rs p" by (simp add: contains_port_last)
    then show ?thesis using snoc(1) [OF ok(1)] False by simp
  qed
qed (simp add: contains_port_def)

text \<open>
  C39: the set of scanned ports is what was configured. A list of ports and ranges, in any order,
  overlapping, adjacent or reversed, gives a set that contains exactly the ports of its valid tokens;
  the ranges are kept sorted and disjoint, with a gap between any two, so that the binary search finds them.
\<close>

theorem scannable_ports_exact:
  "case parse_scannable_ports split to_u16 str of
     None \<Rightarrow> concat (map (parse_port_token to_u16) (split str)) = []
   | Some set_of_ports \<Rightarrow>
       ranges_ok set_of_ports \<and>
       (\<forall>port. contains_port set_of_ports port \<longleftrightarrow> port \<in> (\<Union>token \<in> set (split str). ports_of (parse_port_token to_u16 token)))"
proof -
  have "ports_of (concat (map f ts)) = (\<Union>t \<in> set ts. ports_of (f t))" for f :: "string \<Rightarrow> port_range list" and ts
    by (auto simp: ports_of_def)
  then show ?thesis
    by (simp add: parse_scannable_ports_def Let_def port_range_set_ok contains_port_iff)
qed

end
