(* ===== verification/TT_Tunnel.thy ===== *)
theory TT_Tunnel
  imports TT_Domain_Filter TT_Icmp TT_Port_Ranges
begin

text \<open>
  The tunnel between the client-side listeners and the server-side upstreams (\<open>core/src/tunnel.cpp\<close>,
  \<open>core/include/vpn/internal/tunnel.h\<close>, \<open>core/src/vpn_connection.cpp\<close>): which upstream a connection is
  routed to, how it is opened, migrated to another upstream and closed, and how its data is passed on.

  The two tables of the tunnel hold pointers to the same connections, which the tunnel creates and
  deletes: the connections live in an explicit store (\<open>heap\<close>) and the tables map identifiers to its
  addresses. A connection that is used after it was deleted is recorded in \<open>tn_dangling\<close>.

  Upstreams and listeners are known by their number; a weak pointer to one is its number, and whether
  the object still exists is part of the environment of a call, with everything else that the objects
  around the tunnel answer during the call: the results of opening and sending, the events that a
  synchronous close raises before it returns, the time, and the results of the parsers of QUIC, TLS and
  HTTP. The calls the tunnel makes are logged in \<open>tn_out\<close>. The domain filter, the ICMP manager and the
  set of scanned ports are the ones of the theories imported.
\<close>

section \<open>Connections\<close>

datatype conn_state =
    CONNS_WAITING_ACTION
  | CONNS_WAITING_RESOLVE
  | CONNS_WAITING_RESPONSE
  | CONNS_WAITING_RESPONSE_MIGRATING
  | CONNS_WAITING_ACCEPT
  | CONNS_CONNECTED
  | CONNS_CONNECTED_MIGRATING
  | CONNS_REJECTED

record conn_flags =
  CONNF_FIRST_PACKET :: bool
  CONNF_FORCIBLY_BYPASSED :: bool
  CONNF_FORCIBLY_REDIRECTED :: bool
  CONNF_LOOKINGUP_DOMAIN :: bool
  CONNF_SESSION_CLOSED :: bool
  CONNF_SUSPECT_EXCLUSION :: bool
  CONNF_FAKE_CONNECTION :: bool
  CONNF_PLAIN_DNS_CONNECTION :: bool
  CONNF_MONITOR_STATS :: bool
  CONNF_CONN_INFO_SENT :: bool

datatype extractor_status = DES_NOTFOUND | DES_FOUND | DES_PASS | DES_WANT_MORE

record extractor_result =
  des_status :: extractor_status
  des_domain :: string

text \<open>
  The pending task that completes a rejected request holds the error code, the one that sends
  buffered data the identifier it was submitted for.
\<close>

record vpn_connection =
  client_id :: u64
  server_id :: u64
  vc_listener :: "int option"
  vc_upstream :: "int option"
  vc_state :: conn_state
  vc_addr :: addr_pair
  vc_proto :: int
  vc_flags :: conn_flags
  vc_uid :: int
  vc_extracted :: extractor_result
  migrating_client_id :: u64
  vc_app_name :: string
  complete_task :: "int option"
  incoming_bytes :: nat
  outgoing_bytes :: nat
  buffered_packets :: "bytes list"
  send_buffered_task :: "u64 option"
  lookup_attempts_num :: int
  vc_action :: "vpn_connect_action option"

definition IPPROTO_UDP :: int where
  "IPPROTO_UDP = 17"

definition PLAIN_DNS_PORT_NUMBER :: u16 where
  "PLAIN_DNS_PORT_NUMBER = 53"

definition no_flags :: conn_flags where
  "no_flags = \<lparr>CONNF_FIRST_PACKET = False, CONNF_FORCIBLY_BYPASSED = False, CONNF_FORCIBLY_REDIRECTED = False,
     CONNF_LOOKINGUP_DOMAIN = False, CONNF_SESSION_CLOSED = False, CONNF_SUSPECT_EXCLUSION = False,
     CONNF_FAKE_CONNECTION = False, CONNF_PLAIN_DNS_CONNECTION = False, CONNF_MONITOR_STATS = False,
     CONNF_CONN_INFO_SENT = False\<rparr>"

definition vpn_connection_make :: "u64 \<Rightarrow> addr_pair \<Rightarrow> int \<Rightarrow> vpn_connection" where
  "vpn_connection_make cid a proto =
     \<lparr>client_id = cid, server_id = NON_ID, vc_listener = None, vc_upstream = None, vc_state = CONNS_WAITING_ACTION,
      vc_addr = a, vc_proto = proto,
      vc_flags = no_flags\<lparr>CONNF_PLAIN_DNS_CONNECTION :=
        (case dst a of TA_Sock d \<Rightarrow> PLAIN_DNS_PORT_NUMBER = sa_port d | TA_Name _ _ \<Rightarrow> False)\<rparr>,
      vc_uid = 0, vc_extracted = \<lparr>des_status = DES_NOTFOUND, des_domain = []\<rparr>, migrating_client_id = NON_ID,
      vc_app_name = [], complete_task = None, incoming_bytes = 0, outgoing_bytes = 0, buffered_packets = [],
      send_buffered_task = None, lookup_attempts_num = 0, vc_action = None\<rparr>"

definition make_tag :: "vpn_connection \<Rightarrow> sock_addr_tag" where
  "make_tag c =
     \<lparr>tag_addr = (case dst (vc_addr c) of TA_Sock d \<Rightarrow> d | TA_Name _ _ \<Rightarrow> SA_Unspec), tag_appname = vc_app_name c\<rparr>"

section \<open>The tunnel and its environment\<close>

record tcp_flow_ctrl_info =
  send_buffer_size :: nat
  send_window_size :: nat

datatype ip_version = IPV4 | IPV6

definition get_ip_version :: "sock_addr \<Rightarrow> ip_version option" where
  "get_ip_version a = (if is_ipv4 a then Some IPV4 else if is_ipv6 a then Some IPV6 else None)"

datatype connect_result = CCR_PASS | CCR_DROP | CCR_REJECT | CCR_UNREACH

record connect_request =
  cr_id :: u64
  cr_protocol :: int
  cr_src :: sock_addr
  cr_dst :: tunnel_address
  cr_app_name :: string
  cr_dns_handler_bypass :: bool

datatype listener_event =
    CLIENT_EVENT_CONNECT_REQUEST connect_request
  | CLIENT_EVENT_CONNECTION_ACCEPTED u64
  | CLIENT_EVENT_CONNECTION_CLOSED u64
  | CLIENT_EVENT_READ u64 bytes
  | CLIENT_EVENT_DATA_SENT u64 nat
  | CLIENT_EVENT_OUTPUT
  | CLIENT_EVENT_ICMP_ECHO_REQUEST icmp_echo_request

datatype final_action = VPN_FCA_BYPASS | VPN_FCA_TUNNEL | VPN_FCA_REJECT

datatype tunnel_effect =
    UpOpen int addr_pair int string u64
  | UpClose int u64 bool bool
  | UpSend int u64 bytes int
  | UpConsume int u64 nat
  | UpFlowControl int u64 tcp_flow_ctrl_info
  | UpHealthCheck int
  | UpCancelHealthCheck int
  | UpIcmpRequest int icmp_echo_request
  | LsComplete int u64 connect_result
  | LsClose int u64 bool bool
  | LsSend int u64 bytes int
  | LsConsume int u64 nat
  | LsTurnRead int u64 bool
  | LsIcmpReply icmp_echo_reply
  | DnsResolve bool string
  | DnsCancel nat
  | DnsStopResolving
  | DnsStopBackground
  | DnsResolverDeinit
  | DnsHandlerNotify u64
  | DnsHandlerUpdate
  | DnsHandlerNetworkChange
  | FakeReopenSession
  | StatsRegister u64
  | StatsUnregister u64
  | StatsUpload u64 nat
  | StatsDownload u64 nat
  | CacheHostname addr_pair extractor_result
  | RaiseConnectRequest u64 int addr_pair string
  | RaiseConnectionInfo sock_addr "sock_addr option" "string option" int final_action
  | RaiseConnectionClosed u64
  | RaiseOutput

datatype quic_packet = QuicZeroRtt | QuicInitial bool | QuicOther

record ('c, 't, 's) tunnel_env =
  te_lib :: "('c, 't, 's) filter_lib"
  te_upstream_alive :: "int \<Rightarrow> bool"
  te_listener_alive :: "int \<Rightarrow> bool"
  te_endpoint_upstream :: "int option"
  te_bypass_upstream :: "int option"
  te_client_listener :: "int option"
  te_dns_proxy_listener :: "int option"
  te_ip_available :: "int \<Rightarrow> ip_version \<Rightarrow> bool"
  te_open_result :: "int \<Rightarrow> u64"
  te_send_result :: "nat \<Rightarrow> bytes \<Rightarrow> int"
  te_available :: "int \<Rightarrow> u64 \<Rightarrow> nat"
  te_listener_send :: "bytes \<Rightarrow> int"
  te_flow_control :: "int \<Rightarrow> u64 \<Rightarrow> tcp_flow_ctrl_info"
  te_listener_closes :: "u64 \<Rightarrow> bool"
  te_listener_accepts :: "u64 \<Rightarrow> bool"
  te_upstream_closes :: "u64 \<Rightarrow> bool"
  te_fake_connections :: "u64 list"
  te_scannable_ports :: "port_range list"
  te_tcp_early_ack :: bool
  te_preresolve_enabled :: bool
  te_preresolve_max_queries :: nat
  te_exclusions_mode :: vpn_mode
  te_is_loopback :: "sock_addr \<Rightarrow> bool"
  te_ip_literal :: "string \<Rightarrow> u16 \<Rightarrow> sock_addr option"
  te_extract :: extractor_result
  te_quic :: "bytes \<Rightarrow> quic_packet"
  te_hostname_cache :: "(addr_pair \<Rightarrow> extractor_result option) option"
  te_resolve_id :: "nat option"
  te_is_vpn_resolver_connection :: "u64 \<Rightarrow> bool"
  te_may_send_icmp_request :: bool
  te_now :: time_point
  te_now_ms :: "int option"
  te_upstream_timeout_ms :: int
  te_windows :: bool
  te_etimedout :: int
  te_enetunreach :: int
  te_ehostunreach :: int
  te_econnrefused :: int
  te_econnreset :: int

record ('c, 't, 's) tunnel_state =
  heap :: "(nat \<times> vpn_connection) list"
  next_ref :: nat
  by_client_id :: "(u64 \<times> nat) list"
  by_server_id :: "(u64 \<times> nat) list"
  tn_id :: int
  tn_filter :: "('c, 't, 's) domain_filter"
  tn_icmp :: icmp_manager
  endpoint_upstream_connected :: bool
  tn_sleeping :: bool
  last_health_check_at :: int
  tn_dns_resolver :: "int option"
  dns_resolve_waiters :: "(nat \<times> u64) list"
  exclusions_resolve_task :: bool
  tn_fake_upstream :: "int option"
  tn_dns_handler :: "int option"
  statistics_monitor :: bool
  event_result :: "int option"
  tn_out :: "tunnel_effect list"
  tn_faults :: "fault list"
  tn_dangling :: "nat list"

definition tn_emit :: "tunnel_effect \<Rightarrow> ('c, 't, 's) tunnel_state \<Rightarrow> ('c, 't, 's) tunnel_state" where
  "tn_emit x t = t\<lparr>tn_out := tn_out t @ [x]\<rparr>"

definition tn_fault :: "fault \<Rightarrow> ('c, 't, 's) tunnel_state \<Rightarrow> ('c, 't, 's) tunnel_state" where
  "tn_fault f t = t\<lparr>tn_faults := tn_faults t @ [f]\<rparr>"

definition tn_result :: "int \<Rightarrow> ('c, 't, 's) tunnel_state \<Rightarrow> ('c, 't, 's) tunnel_state" where
  "tn_result r t = t\<lparr>event_result := Some r\<rparr>"

text \<open>Access to the connection behind a pointer.\<close>

definition with_conn ::
  "nat \<Rightarrow> (vpn_connection \<Rightarrow> ('c, 't, 's) tunnel_state \<Rightarrow> ('c, 't, 's) tunnel_state) \<Rightarrow> ('c, 't, 's) tunnel_state \<Rightarrow> ('c, 't, 's) tunnel_state" where
  "with_conn p f t = (case map_of (heap t) p of Some c \<Rightarrow> f c t | None \<Rightarrow> t\<lparr>tn_dangling := tn_dangling t @ [p]\<rparr>)"

definition put_conn :: "nat \<Rightarrow> vpn_connection \<Rightarrow> ('c, 't, 's) tunnel_state \<Rightarrow> ('c, 't, 's) tunnel_state" where
  "put_conn p c t = t\<lparr>heap := AList.update p c (heap t)\<rparr>"

definition mod_conn :: "nat \<Rightarrow> (vpn_connection \<Rightarrow> vpn_connection) \<Rightarrow> ('c, 't, 's) tunnel_state \<Rightarrow> ('c, 't, 's) tunnel_state" where
  "mod_conn p f t = with_conn p (\<lambda>c. put_conn p (f c)) t"

definition mod_flags :: "nat \<Rightarrow> (conn_flags \<Rightarrow> conn_flags) \<Rightarrow> ('c, 't, 's) tunnel_state \<Rightarrow> ('c, 't, 's) tunnel_state" where
  "mod_flags p f t = mod_conn p (\<lambda>c. c\<lparr>vc_flags := f (vc_flags c)\<rparr>) t"

definition get_by_client_id :: "u64 \<Rightarrow> ('c, 't, 's) tunnel_state \<Rightarrow> nat option" where
  "get_by_client_id i t = map_of (by_client_id t) i"

definition get_by_server_id :: "u64 \<Rightarrow> ('c, 't, 's) tunnel_state \<Rightarrow> nat option" where
  "get_by_server_id i t = map_of (by_server_id t) i"

definition lock_upstream :: "('c, 't, 's) tunnel_env \<Rightarrow> vpn_connection \<Rightarrow> int option" where
  "lock_upstream env c = (case vc_upstream c of Some u \<Rightarrow> if te_upstream_alive env u then Some u else None | None \<Rightarrow> None)"

definition lock_listener :: "('c, 't, 's) tunnel_env \<Rightarrow> vpn_connection \<Rightarrow> int option" where
  "lock_listener env c = (case vc_listener c of Some l \<Rightarrow> if te_listener_alive env l then Some l else None | None \<Rightarrow> None)"

definition add_connection :: "nat \<Rightarrow> ('c, 't, 's) tunnel_state \<Rightarrow> ('c, 't, 's) tunnel_state" where
  "add_connection p t =
     with_conn p (\<lambda>c t.
       let t1 = (if client_id c \<noteq> NON_ID \<or> server_id c \<noteq> NON_ID then t
                 else tn_fault (AssertFailed ''conn->client_id != NON_ID || conn->server_id != NON_ID'') t);
           t2 = (if client_id c \<noteq> NON_ID then t1\<lparr>by_client_id := AList.update (client_id c) p (by_client_id t1)\<rparr> else t1)
       in if server_id c \<noteq> NON_ID then t2\<lparr>by_server_id := AList.update (server_id c) p (by_server_id t2)\<rparr> else t2) t"

definition cancel_destination_resolve :: "vpn_connection \<Rightarrow> ('c, 't, 's) tunnel_state \<Rightarrow> ('c, 't, 's) tunnel_state" where
  "cancel_destination_resolve c t =
     (case List.find (\<lambda>(_, w). w = client_id c) (dns_resolve_waiters t) of
        Some (r, _) \<Rightarrow> (tn_emit (DnsCancel r) t)\<lparr>dns_resolve_waiters := AList.delete r (dns_resolve_waiters t)\<rparr>
      | None \<Rightarrow> t)"

definition destroy_connection :: "('c, 't, 's) tunnel_env \<Rightarrow> u64 \<Rightarrow> u64 \<Rightarrow> ('c, 't, 's) tunnel_state \<Rightarrow> ('c, 't, 's) tunnel_state" where
  "destroy_connection env cid sid t =
     (let t0 = (if cid \<noteq> NON_ID \<or> sid \<noteq> NON_ID then t
                else tn_fault (AssertFailed ''client_id != NON_ID || server_id != NON_ID'') t);
          found = (case (if cid \<noteq> NON_ID then get_by_client_id cid t else None) of
                     Some p \<Rightarrow> Some p
                   | None \<Rightarrow> if sid \<noteq> NON_ID then get_by_server_id sid t else None)
      in case found of
           None \<Rightarrow> t0
         | Some p \<Rightarrow>
             with_conn p (\<lambda>c t.
               let t1 = (if vc_state c = CONNS_WAITING_RESOLVE then cancel_destination_resolve c t else t);
                   t2 = t1\<lparr>by_client_id := AList.delete (client_id c) (by_client_id t1),
                           by_server_id := AList.delete (server_id c) (by_server_id t1)\<rparr>;
                   t3 = (if vc_proto c = IPPROTO_UDP \<and> te_hostname_cache env \<noteq> None
                         then tn_emit (CacheHostname (vc_addr c) (vc_extracted c)) t2 else t2);
                   t4 = (if CONNF_MONITOR_STATS (vc_flags c) then tn_emit (StatsUnregister (client_id c)) t3 else t3);
                   t5 = (if lock_listener env c \<noteq> None \<and> lock_listener env c = te_client_listener env
                         then tn_emit (RaiseConnectionClosed (client_id c)) t4 else t4)
               in t5\<lparr>heap := AList.delete p (heap t5)\<rparr>) t0)"

definition server_error_to_connect_result :: "('c, 't, 's) tunnel_env \<Rightarrow> int \<Rightarrow> connect_result" where
  "server_error_to_connect_result env err =
     (if err = 0 then CCR_PASS
      else if err = te_etimedout env then CCR_DROP
      else if err = te_enetunreach env \<or> err = te_ehostunreach env then CCR_UNREACH
      else CCR_REJECT)"

section \<open>Closing\<close>

text \<open>
  The event \<open>CLIENT_EVENT_CONNECTION_CLOSED\<close> of \<open>listener_handler\<close>: a listener raises it before a
  synchronous close or a failed completion returns, or later.
\<close>

definition client_connection_closed :: "('c, 't, 's) tunnel_env \<Rightarrow> u64 \<Rightarrow> ('c, 't, 's) tunnel_state \<Rightarrow> ('c, 't, 's) tunnel_state" where
  "client_connection_closed env i t =
     (case get_by_client_id i t of
        None \<Rightarrow> t
      | Some p \<Rightarrow>
          with_conn p (\<lambda>c t.
            if CONNF_SESSION_CLOSED (vc_flags c) \<or> get_by_server_id (server_id c) t = None
            then destroy_connection env i (server_id c) t
            else case lock_upstream env c of
                   None \<Rightarrow> destroy_connection env i (server_id c) t
                 | Some u \<Rightarrow>
                     (let t1 = (if vc_state c = CONNS_CONNECTED
                                then tn_emit (UpFlowControl u (server_id c) \<lparr>send_buffer_size = 0, send_window_size = 0\<rparr>) t else t);
                          t2 = t1\<lparr>by_client_id := AList.delete i (by_client_id t1)\<rparr>
                      in tn_emit (UpClose u (server_id c) True True) t2)) t)"

definition listener_close_connection ::
  "('c, 't, 's) tunnel_env \<Rightarrow> int \<Rightarrow> u64 \<Rightarrow> bool \<Rightarrow> bool \<Rightarrow> ('c, 't, 's) tunnel_state \<Rightarrow> ('c, 't, 's) tunnel_state" where
  "listener_close_connection env l i graceful async t =
     (let t1 = tn_emit (LsClose l i graceful async) t
      in if \<not> async \<and> te_listener_closes env i then client_connection_closed env i t1 else t1)"

definition listener_fail_request ::
  "('c, 't, 's) tunnel_env \<Rightarrow> int \<Rightarrow> u64 \<Rightarrow> connect_result \<Rightarrow> ('c, 't, 's) tunnel_state \<Rightarrow> ('c, 't, 's) tunnel_state" where
  "listener_fail_request env l i result t =
     (let t1 = tn_emit (LsComplete l i result) t;
          t2 = (if te_listener_closes env i then client_connection_closed env i t1 else t1)
      in if result = CCR_PASS then t2
         else case get_by_client_id i t2 of
                None \<Rightarrow> t2
              | Some p \<Rightarrow> mod_conn p (\<lambda>c. c\<lparr>vc_state := CONNS_REJECTED\<rparr>) t2)"

definition close_client_side_connection ::
  "('c, 't, 's) tunnel_env \<Rightarrow> nat \<Rightarrow> int \<Rightarrow> bool \<Rightarrow> ('c, 't, 's) tunnel_state \<Rightarrow> ('c, 't, 's) tunnel_state" where
  "close_client_side_connection env p err_code async t =
     with_conn p (\<lambda>c t.
       case lock_listener env c of
         None \<Rightarrow> destroy_connection env (client_id c) (server_id c) t
       | Some l \<Rightarrow>
           if vc_state c \<in> {CONNS_WAITING_ACCEPT, CONNS_CONNECTED, CONNS_CONNECTED_MIGRATING, CONNS_REJECTED}
           then listener_close_connection env l (client_id c) (err_code = 0) async t
           else if vc_state c \<in> {CONNS_WAITING_RESOLVE, CONNS_WAITING_RESPONSE, CONNS_WAITING_ACTION}
           then (let err = (if err_code = 0 then te_econnrefused env else err_code)
                 in if \<not> async then listener_fail_request env l (client_id c) (server_error_to_connect_result env err) t
                    else if complete_task c \<noteq> None then t
                    else put_conn p (c\<lparr>complete_task := Some err\<rparr>) t)
           else t) t"

definition tunnel_complete_connect_request_task ::
  "('c, 't, 's) tunnel_env \<Rightarrow> u64 \<Rightarrow> int \<Rightarrow> ('c, 't, 's) tunnel_state \<Rightarrow> ('c, 't, 's) tunnel_state" where
  "tunnel_complete_connect_request_task env i err_code t =
     (case get_by_client_id i t of
        None \<Rightarrow> tn_fault (AssertFailed ''0'') t
      | Some p \<Rightarrow>
          with_conn p (\<lambda>c t.
            let t1 = put_conn p (c\<lparr>complete_task := None\<rparr>) t in
            case lock_listener env c of
              None \<Rightarrow> destroy_connection env i NON_ID t1
            | Some l \<Rightarrow>
                if vc_state c \<in> {CONNS_WAITING_RESOLVE, CONNS_WAITING_RESPONSE, CONNS_WAITING_ACTION}
                then listener_fail_request env l (client_id c) (server_error_to_connect_result env err_code) t1
                else tn_fault (AssertFailed ''0'') (listener_close_connection env l i False False t1)) t)"

text \<open>The identifiers of the connections of a table that satisfy a condition, and the loop that closes them.\<close>

definition select_connections ::
  "(u64 \<times> nat) list \<Rightarrow> (vpn_connection \<Rightarrow> bool) \<Rightarrow> ('c, 't, 's) tunnel_state \<Rightarrow> u64 list \<times> ('c, 't, 's) tunnel_state" where
  "select_connections table P t =
     (concat (map (\<lambda>(_, p). case map_of (heap t) p of Some c \<Rightarrow> if P c then [client_id c] else [] | None \<Rightarrow> []) table),
      t\<lparr>tn_dangling := tn_dangling t @ filter (\<lambda>p. map_of (heap t) p = None) (map snd table)\<rparr>)"

definition close_selected ::
  "('c, 't, 's) tunnel_env \<Rightarrow> (conn_flags \<Rightarrow> conn_flags) \<Rightarrow> u64 \<Rightarrow> ('c, 't, 's) tunnel_state \<Rightarrow> ('c, 't, 's) tunnel_state" where
  "close_selected env mark i t =
     (case get_by_client_id i t of
        None \<Rightarrow> t
      | Some p \<Rightarrow> close_client_side_connection env p (- 1) False (mod_flags p mark t))"

definition close_client_side :: "('c, 't, 's) tunnel_env \<Rightarrow> int \<Rightarrow> ('c, 't, 's) tunnel_state \<Rightarrow> ('c, 't, 's) tunnel_state" where
  "close_client_side env u t =
     (let (ids, t1) = select_connections (by_client_id t) (\<lambda>c. lock_upstream env c = Some u) t
      in fold (close_selected env (\<lambda>f. f\<lparr>CONNF_SESSION_CLOSED := True\<rparr>)) ids t1)"

text \<open>\<open>SERVER_EVENT_CONNECTION_CLOSED\<close> of \<open>upstream_handler\<close>, which an upstream raises before a synchronous close returns.\<close>

definition server_connection_closed :: "('c, 't, 's) tunnel_env \<Rightarrow> u64 \<Rightarrow> ('c, 't, 's) tunnel_state \<Rightarrow> ('c, 't, 's) tunnel_state" where
  "server_connection_closed env i t =
     (case get_by_server_id i t of
        None \<Rightarrow> destroy_connection env NON_ID i t
      | Some p \<Rightarrow>
          with_conn p (\<lambda>c t.
            case (get_by_client_id (client_id c) t, lock_listener env c) of
              (Some _, Some l) \<Rightarrow>
                (let t1 = t\<lparr>by_server_id := AList.delete (server_id c) (by_server_id t)\<rparr>;
                     t2 = tn_emit (LsTurnRead l (client_id c) False) t1
                 in close_client_side_connection env p 0 False t2)
            | _ \<Rightarrow> destroy_connection env (client_id c) (server_id c) t) t)"

definition upstream_close_connection ::
  "('c, 't, 's) tunnel_env \<Rightarrow> int \<Rightarrow> u64 \<Rightarrow> bool \<Rightarrow> bool \<Rightarrow> ('c, 't, 's) tunnel_state \<Rightarrow> ('c, 't, 's) tunnel_state" where
  "upstream_close_connection env u i graceful async t =
     (let t1 = tn_emit (UpClose u i graceful async) t
      in if \<not> async \<and> te_upstream_closes env i then server_connection_closed env i t1 else t1)"

section \<open>Routing\<close>

fun vpn_mode_to_action :: "vpn_mode \<Rightarrow> vpn_connect_action" where
  "vpn_mode_to_action VPN_MODE_GENERAL = VPN_CA_FORCE_REDIRECT"
| "vpn_mode_to_action VPN_MODE_SELECTIVE = VPN_CA_FORCE_BYPASS"

fun invert_action :: "vpn_connect_action \<Rightarrow> vpn_connect_action" where
  "invert_action VPN_CA_FORCE_BYPASS = VPN_CA_FORCE_REDIRECT"
| "invert_action VPN_CA_FORCE_REDIRECT = VPN_CA_FORCE_BYPASS"
| "invert_action a = a"

definition get_final_action :: "vpn_mode \<Rightarrow> vpn_connect_action \<Rightarrow> final_action" where
  "get_final_action mode a =
     (case a of
        VPN_CA_DEFAULT \<Rightarrow> (case mode of VPN_MODE_GENERAL \<Rightarrow> VPN_FCA_TUNNEL | VPN_MODE_SELECTIVE \<Rightarrow> VPN_FCA_BYPASS)
      | VPN_CA_FORCE_BYPASS \<Rightarrow> VPN_FCA_BYPASS
      | VPN_CA_FORCE_REDIRECT \<Rightarrow> VPN_FCA_TUNNEL
      | VPN_CA_REJECT \<Rightarrow> VPN_FCA_REJECT)"

definition is_domain_scannable_port :: "('c, 't, 's) tunnel_env \<Rightarrow> u16 \<Rightarrow> bool" where
  "is_domain_scannable_port env port = contains_port (te_scannable_ports env) port"

definition scannable_dst :: "('c, 't, 's) tunnel_env \<Rightarrow> vpn_connection \<Rightarrow> bool" where
  "scannable_dst env c =
     (case dst (vc_addr c) of TA_Sock d \<Rightarrow> is_domain_scannable_port env (sa_port d) | TA_Name _ _ \<Rightarrow> False)"

text \<open>
  \<open>select_upstream\<close>; the connection is \<open>None\<close> where the code passes a null pointer. The action
  \<open>VPN_CA_REJECT\<close>, which no caller passes, gives a null pointer.
\<close>

fun select_upstream ::
  "('c, 't, 's) tunnel_env \<Rightarrow> ('c, 't, 's) tunnel_state \<Rightarrow> vpn_connect_action \<Rightarrow> vpn_connection option \<Rightarrow> int option" where
  "select_upstream env t VPN_CA_FORCE_BYPASS _ = te_bypass_upstream env"
| "select_upstream env t VPN_CA_FORCE_REDIRECT _ = te_endpoint_upstream env"
| "select_upstream env t VPN_CA_REJECT _ = None"
| "select_upstream env t VPN_CA_DEFAULT None =
     (case get_mode (tn_filter t) of
        VPN_MODE_GENERAL \<Rightarrow> te_endpoint_upstream env
      | VPN_MODE_SELECTIVE \<Rightarrow> te_bypass_upstream env)"
| "select_upstream env t VPN_CA_DEFAULT (Some c) =
     (if lock_listener env c = tn_dns_handler t then te_endpoint_upstream env
      else if CONNF_PLAIN_DNS_CONNECTION (vc_flags c) then tn_dns_handler t
      else if CONNF_LOOKINGUP_DOMAIN (vc_flags c) \<and> (CONNF_SUSPECT_EXCLUSION (vc_flags c) \<or> te_tcp_early_ack env) \<and>
              scannable_dst env c
      then tn_fake_upstream t
      else case get_mode (tn_filter t) of
             VPN_MODE_GENERAL \<Rightarrow> te_endpoint_upstream env
           | VPN_MODE_SELECTIVE \<Rightarrow> te_bypass_upstream env)"

definition report_connection_info ::
  "('c, 't, 's) tunnel_env \<Rightarrow> nat \<Rightarrow> string option \<Rightarrow> ('c, 't, 's) tunnel_state \<Rightarrow> ('c, 't, 's) tunnel_state" where
  "report_connection_info env p domain t =
     with_conn p (\<lambda>c t.
       if CONNF_PLAIN_DNS_CONNECTION (vc_flags c) \<or> CONNF_LOOKINGUP_DOMAIN (vc_flags c) \<or> CONNF_CONN_INFO_SENT (vc_flags c) then t
       else if (case dst (vc_addr c) of TA_Sock d \<Rightarrow> te_is_loopback env d | TA_Name _ _ \<Rightarrow> False) then t
       else
         (let t1 = mod_flags p (\<lambda>f. f\<lparr>CONNF_CONN_INFO_SENT := True\<rparr>) t;
              (info_dst, name) = (case dst (vc_addr c) of TA_Sock d \<Rightarrow> (Some d, domain) | TA_Name n _ \<Rightarrow> (None, Some n));
              act = get_final_action (get_mode (tn_filter t1)) (case vc_action c of Some a \<Rightarrow> a | None \<Rightarrow> VPN_CA_DEFAULT)
          in tn_emit (RaiseConnectionInfo (src (vc_addr c)) info_dst (if name = Some [] then None else name) (vc_proto c) act) t1)) t"

text \<open>The part of a program path behind its last backslash.\<close>

definition process_name :: "string \<Rightarrow> string" where
  "process_name path = rev (takeWhile (\<lambda>ch. ch \<noteq> CHR 0x5C) (rev path))"

definition tunnel_finalize_connect_action ::
  "('c, 't, 's) tunnel_env \<Rightarrow> connect_request_result \<Rightarrow> ('c, 't, 's) tunnel_state \<Rightarrow> vpn_connect_action option \<times> ('c, 't, 's) tunnel_state" where
  "tunnel_finalize_connect_action env req t =
     (case get_by_client_id (req_id req) t of
        None \<Rightarrow> (None, t)
      | Some p \<Rightarrow>
          (let t1 = mod_conn p (\<lambda>c.
                 let app = (if appname req \<noteq> [] then appname req else vc_app_name c)
                 in c\<lparr>vc_app_name := (if te_windows env then process_name app else app), vc_uid := uid req\<rparr>) t;
               set_action = (\<lambda>a. mod_conn p (\<lambda>c. c\<lparr>vc_action := a\<rparr>));
               by_mode = vpn_mode_to_action (get_mode (tn_filter t1));
               t2 = with_conn p (\<lambda>c t.
                 if (action req \<noteq> None \<and> action req \<noteq> Some VPN_CA_DEFAULT) \<or> CONNF_PLAIN_DNS_CONNECTION (vc_flags c)
                 then set_action (action req) t
                 else case dst (vc_addr c) of
                   TA_Sock d \<Rightarrow>
                     (let r = match_tag (te_lib env) (tn_filter t) (make_tag c) in
                      case mr_status r of
                        DFMS_DEFAULT \<Rightarrow> set_action (action req) t
                      | DFMS_DEFAULT_OVERRIDE \<Rightarrow> report_connection_info env p (mr_domain r) (set_action (Some by_mode) t)
                      | DFMS_EXCLUSION \<Rightarrow>
                          report_connection_info env p (mr_domain r) (set_action (Some (invert_action by_mode)) t)
                      | DFMS_SUSPECT_EXCLUSION \<Rightarrow>
                          if is_domain_scannable_port env (sa_port d)
                          then mod_flags p (\<lambda>f. f\<lparr>CONNF_SUSPECT_EXCLUSION := True\<rparr>) t
                          else set_action (Some VPN_CA_FORCE_REDIRECT) t)
                 | TA_Name name _ \<Rightarrow>
                     (case match_domain (tn_filter t) name of
                        DFMS_SUSPECT_EXCLUSION \<Rightarrow> set_action (action req) (tn_fault (AssertFailed ''0'') t)
                      | DFMS_DEFAULT \<Rightarrow> set_action (action req) t
                      | DFMS_DEFAULT_OVERRIDE \<Rightarrow> report_connection_info env p (Some name) (set_action (Some by_mode) t)
                      | DFMS_EXCLUSION \<Rightarrow>
                          report_connection_info env p (Some name) (set_action (Some (invert_action by_mode)) t))) t1
           in (case map_of (heap t2) p of Some c \<Rightarrow> vc_action c | None \<Rightarrow> None, t2)))"

definition tunnel_should_complete_immediately :: "('c, 't, 's) tunnel_env \<Rightarrow> u64 \<Rightarrow> ('c, 't, 's) tunnel_state \<Rightarrow> bool" where
  "tunnel_should_complete_immediately env i t =
     (case Option.bind (get_by_client_id i t) (map_of (heap t)) of
        None \<Rightarrow> False
      | Some c \<Rightarrow>
          CONNF_SUSPECT_EXCLUSION (vc_flags c) = (te_exclusions_mode env = VPN_MODE_GENERAL) \<or>
          (case dst (vc_addr c) of TA_Sock d \<Rightarrow> sa_port d | TA_Name _ port \<Rightarrow> port) = PLAIN_DNS_PORT_NUMBER)"

definition do_health_check ::
  "('c, 't, 's) tunnel_env \<Rightarrow> int option \<Rightarrow> bool \<Rightarrow> ('c, 't, 's) tunnel_state \<Rightarrow> ('c, 't, 's) tunnel_state" where
  "do_health_check env upstream force t =
     (if tn_sleeping t \<or> upstream \<noteq> te_endpoint_upstream env then t
      else case te_now_ms env of
             None \<Rightarrow> t
           | Some now \<Rightarrow>
               if \<not> force \<and> (now < last_health_check_at t \<or> now - last_health_check_at t < te_upstream_timeout_ms env) then t
               else case upstream of
                      None \<Rightarrow> tn_fault (NullDeref ''upstream'') t
                    | Some u \<Rightarrow> (tn_emit (UpHealthCheck u) t)\<lparr>last_health_check_at := now\<rparr>)"

definition need_resolve_hostname ::
  "('c, 't, 's) tunnel_env \<Rightarrow> vpn_connect_action \<Rightarrow> vpn_connection \<Rightarrow> ('c, 't, 's) tunnel_state \<Rightarrow> bool" where
  "need_resolve_hostname env act c t =
     (case dst (vc_addr c) of
        TA_Sock _ \<Rightarrow> False
      | TA_Name name _ \<Rightarrow>
          if lock_listener env c = te_dns_proxy_listener env then False
          else
            (let by_mode = vpn_mode_to_action (get_mode (tn_filter t));
                 effective = (if act = VPN_CA_DEFAULT
                              then (case match_domain (tn_filter t) name of
                                      DFMS_DEFAULT \<Rightarrow> by_mode
                                    | DFMS_DEFAULT_OVERRIDE \<Rightarrow> by_mode
                                    | DFMS_EXCLUSION \<Rightarrow> invert_action by_mode
                                    | DFMS_SUSPECT_EXCLUSION \<Rightarrow> invert_action by_mode)
                              else act)
             in effective = VPN_CA_FORCE_BYPASS \<or>
                (effective = VPN_CA_FORCE_REDIRECT \<and> te_dns_proxy_listener env \<noteq> None)))"

definition unavailable_on :: "('c, 't, 's) tunnel_env \<Rightarrow> ip_version \<Rightarrow> int option \<Rightarrow> bool" where
  "unavailable_on env ipv upstream = (case upstream of Some u \<Rightarrow> \<not> te_ip_available env u ipv | None \<Rightarrow> False)"

definition is_destination_reachable ::
  "('c, 't, 's) tunnel_env \<Rightarrow> vpn_connection \<Rightarrow> int option \<Rightarrow> bool" where
  "is_destination_reachable env c upstream =
     (case dst (vc_addr c) of
        TA_Name _ _ \<Rightarrow> True
      | TA_Sock d \<Rightarrow>
          (case get_ip_version d of
             None \<Rightarrow> False
           | Some ipv \<Rightarrow>
               \<not> (CONNF_SUSPECT_EXCLUSION (vc_flags c) \<and>
                  (unavailable_on env ipv (te_endpoint_upstream env) \<or> unavailable_on env ipv (te_bypass_upstream env))) \<and>
               \<not> unavailable_on env ipv upstream))"

text \<open>
  The three parts of \<open>complete_connect_request\<close>: the last opens the connection on the upstream that was
  selected, the second checks the destination and resolves its name, the first sets the flags of the action.
\<close>

definition open_on_upstream ::
  "('c, 't, 's) tunnel_env \<Rightarrow> nat \<Rightarrow> int option \<Rightarrow> ('c, 't, 's) tunnel_state \<Rightarrow> ('c, 't, 's) tunnel_state" where
  "open_on_upstream env p upstream t =
     (let t1 = (case upstream of
                  None \<Rightarrow> t
                | Some u \<Rightarrow>
                    with_conn p (\<lambda>c t.
                      mod_conn p (\<lambda>c. c\<lparr>server_id := te_open_result env u\<rparr>)
                        (tn_emit (UpOpen u (vc_addr c) (vc_proto c) (vc_app_name c) (te_open_result env u)) t))
                      (mod_flags p (\<lambda>f. f\<lparr>CONNF_FAKE_CONNECTION := (tn_fake_upstream t = Some u)\<rparr>) t))
      in with_conn p (\<lambda>c t.
           if server_id c \<noteq> NON_ID
           then
             (let t2 = add_connection p (put_conn p (c\<lparr>vc_state := CONNS_WAITING_RESPONSE\<rparr>) t);
                  t3 = (if CONNF_PLAIN_DNS_CONNECTION (vc_flags c) \<and> lock_listener env c = tn_dns_resolver t
                        then tn_emit (DnsHandlerNotify (server_id c)) t2 else t2)
              in do_health_check env upstream False t3)
           else close_client_side_connection env p 0 True t) t1)"

definition complete_routed ::
  "('c, 't, 's) tunnel_env \<Rightarrow> nat \<Rightarrow> vpn_connect_action \<Rightarrow> ('c, 't, 's) tunnel_state \<Rightarrow> ('c, 't, 's) tunnel_state" where
  "complete_routed env p act t =
     with_conn p (\<lambda>c t.
       let upstream = select_upstream env t act (Some c) in
       if \<not> is_destination_reachable env c upstream
       then close_client_side_connection env p (te_enetunreach env) True t
       else if need_resolve_hostname env act c t
       then (case te_resolve_id env of
               None \<Rightarrow> close_client_side_connection env p (te_econnrefused env) True t
             | Some r \<Rightarrow>
                 (let t1 = tn_emit (DnsResolve True (case dst (vc_addr c) of TA_Name n _ \<Rightarrow> n | TA_Sock _ \<Rightarrow> [])) t;
                      t2 = (if map_of (dns_resolve_waiters t1) r = None
                            then t1\<lparr>dns_resolve_waiters := dns_resolve_waiters t1 @ [(r, client_id c)]\<rparr> else t1)
                  in put_conn p (c\<lparr>vc_state := CONNS_WAITING_RESOLVE\<rparr>) t2))
       else if \<not> endpoint_upstream_connected t \<and> upstream = te_endpoint_upstream env
       then close_client_side_connection env p 0 True (put_conn p (c\<lparr>vc_upstream := None\<rparr>) t)
       else open_on_upstream env p upstream (put_conn p (c\<lparr>vc_upstream := upstream\<rparr>) t)) t"

definition complete_connect_request ::
  "('c, 't, 's) tunnel_env \<Rightarrow> u64 \<Rightarrow> vpn_connect_action option \<Rightarrow> ('c, 't, 's) tunnel_state \<Rightarrow> ('c, 't, 's) tunnel_state" where
  "complete_connect_request env i act t =
     (case get_by_client_id i t of
        None \<Rightarrow> t
      | Some p \<Rightarrow>
          (case (case act of Some a \<Rightarrow> a | None \<Rightarrow> VPN_CA_DEFAULT) of
             VPN_CA_REJECT \<Rightarrow> close_client_side_connection env p (te_econnrefused env) True t
           | VPN_CA_FORCE_BYPASS \<Rightarrow>
               complete_routed env p VPN_CA_FORCE_BYPASS (mod_flags p (\<lambda>f. f\<lparr>CONNF_FORCIBLY_BYPASSED := True\<rparr>) t)
           | VPN_CA_FORCE_REDIRECT \<Rightarrow>
               complete_routed env p VPN_CA_FORCE_REDIRECT (mod_flags p (\<lambda>f. f\<lparr>CONNF_FORCIBLY_REDIRECTED := True\<rparr>) t)
           | VPN_CA_DEFAULT \<Rightarrow>
               complete_routed env p VPN_CA_DEFAULT
                 (mod_conn p (\<lambda>c. c\<lparr>vc_flags := (vc_flags c)\<lparr>CONNF_LOOKINGUP_DOMAIN :=
                     (case dst (vc_addr c) of TA_Sock _ \<Rightarrow> \<not> CONNF_PLAIN_DNS_CONNECTION (vc_flags c) | TA_Name _ _ \<Rightarrow> False)\<rparr>\<rparr>) t)))"

section \<open>Resolved destinations\<close>

definition address_action ::
  "('c, 't, 's) tunnel_env \<Rightarrow> vpn_connection \<Rightarrow> sock_addr \<Rightarrow> ('c, 't, 's) tunnel_state \<Rightarrow> vpn_connect_action" where
  "address_action env c a t =
     (let by_mode = vpn_mode_to_action (get_mode (tn_filter t)) in
      case mr_status (match_tag (te_lib env) (tn_filter t) \<lparr>tag_addr = a, tag_appname = []\<rparr>) of
        DFMS_DEFAULT \<Rightarrow> VPN_CA_DEFAULT
      | DFMS_SUSPECT_EXCLUSION \<Rightarrow> VPN_CA_DEFAULT
      | DFMS_EXCLUSION \<Rightarrow> invert_action by_mode
      | DFMS_DEFAULT_OVERRIDE \<Rightarrow> by_mode)"

definition dst_port :: "vpn_connection \<Rightarrow> u16" where
  "dst_port c = (case dst (vc_addr c) of TA_Name _ port \<Rightarrow> port | TA_Sock d \<Rightarrow> sa_port d)"

text \<open>An address without a version, which the resolver never gives, would end the program; the model takes it for unreachable.\<close>

fun select_resolved_destination_address ::
  "('c, 't, 's) tunnel_env \<Rightarrow> vpn_connection \<Rightarrow> sock_addr list \<Rightarrow> ('c, 't, 's) tunnel_state \<Rightarrow> sock_addr option" where
  "select_resolved_destination_address env c [] t = None"
| "select_resolved_destination_address env c (a0 # rest) t =
     (let a = set_port a0 (dst_port c);
          act = (if \<not> CONNF_FORCIBLY_BYPASSED (vc_flags c) \<and> \<not> CONNF_FORCIBLY_REDIRECTED (vc_flags c)
                 then address_action env c a t else VPN_CA_DEFAULT)
      in case (select_upstream env t act None, get_ip_version a) of
           (Some u, Some ipv) \<Rightarrow>
             if te_ip_available env u ipv then Some a else select_resolved_destination_address env c rest t
         | _ \<Rightarrow> select_resolved_destination_address env c rest t)"

definition open_resolved ::
  "('c, 't, 's) tunnel_env \<Rightarrow> nat \<Rightarrow> sock_addr \<Rightarrow> ('c, 't, 's) tunnel_state \<Rightarrow> ('c, 't, 's) tunnel_state" where
  "open_resolved env p a0 t =
     with_conn p (\<lambda>c t.
       let a = set_port a0 (dst_port c);
           act = (if CONNF_FORCIBLY_BYPASSED (vc_flags c) then VPN_CA_FORCE_BYPASS
                  else if CONNF_FORCIBLY_REDIRECTED (vc_flags c) then VPN_CA_FORCE_REDIRECT
                  else address_action env c a t);
           upstream = select_upstream env t act None;
           c1 = c\<lparr>vc_action := Some act, vc_upstream := upstream, vc_addr := (vc_addr c)\<lparr>dst := TA_Sock a\<rparr>\<rparr>;
           (c2, t2) = (case upstream of
                         None \<Rightarrow> (c1, t)
                       | Some u \<Rightarrow>
                           (c1\<lparr>server_id := te_open_result env u\<rparr>,
                            tn_emit (UpOpen u (vc_addr c1) (vc_proto c1) (vc_app_name c1) (te_open_result env u)) t))
       in if server_id c2 \<noteq> NON_ID
          then do_health_check env upstream False (add_connection p (put_conn p (c2\<lparr>vc_state := CONNS_WAITING_RESPONSE\<rparr>) t2))
          else close_client_side_connection env p 0 False (put_conn p c2 t2)) t"

definition on_destination_resolve_result ::
  "('c, 't, 's) tunnel_env \<Rightarrow> nat \<Rightarrow> sock_addr list option \<Rightarrow> ('c, 't, 's) tunnel_state \<Rightarrow> ('c, 't, 's) tunnel_state" where
  "on_destination_resolve_result env r result t =
     (case map_of (dns_resolve_waiters t) r of
        None \<Rightarrow> tn_emit (DnsCancel r) t
      | Some i \<Rightarrow>
          (let erased = (\<lambda>t. t\<lparr>dns_resolve_waiters := AList.delete r (dns_resolve_waiters t)\<rparr>) in
           case get_by_client_id i t of
             None \<Rightarrow> erased (tn_emit (DnsCancel r) t)
           | Some p \<Rightarrow>
               with_conn p (\<lambda>c t.
                 if vc_state c \<noteq> CONNS_WAITING_RESOLVE
                 then close_client_side_connection env p (te_econnrefused env) False (erased (tn_emit (DnsCancel r) t))
                 else case result of
                        None \<Rightarrow> close_client_side_connection env p 0 False (erased t)
                      | Some addresses \<Rightarrow>
                          (let t1 = erased (tn_emit (DnsCancel r) t) in
                           case select_resolved_destination_address env c addresses t1 of
                             None \<Rightarrow> close_client_side_connection env p 0 False t1
                           | Some a \<Rightarrow> open_resolved env p a t1)) t))"

section \<open>Domain lookup\<close>

datatype lookup_action = TDLA_DONE | TDLA_PASS | TDLA_DROP | TDLA_SHUTDOWN | TDLA_BLOCK | TDLA_WANT_MORE

text \<open>\<open>te_extract\<close> is what the domain extractor of the connection gives for the packet.\<close>

definition domain_lookup_process_udp ::
  "('c, 't, 's) tunnel_env \<Rightarrow> vpn_connection \<Rightarrow> bytes \<Rightarrow> lookup_action + extractor_result" where
  "domain_lookup_process_udp env c data =
     (case te_quic env data of
        QuicZeroRtt \<Rightarrow> Inl TDLA_DROP
      | QuicInitial has_data \<Rightarrow> if \<not> has_data then Inl TDLA_DONE else Inr (te_extract env)
      | QuicOther \<Rightarrow>
          (case te_hostname_cache env of
             None \<Rightarrow> Inl TDLA_DONE
           | Some cache \<Rightarrow> (case cache (vc_addr c) of Some r \<Rightarrow> Inr r | None \<Rightarrow> Inl TDLA_DONE)))"

definition apply_extracted ::
  "('c, 't, 's) tunnel_env \<Rightarrow> nat \<Rightarrow> extractor_result \<Rightarrow> vpn_connection \<Rightarrow> ('c, 't, 's) tunnel_state \<Rightarrow>
     lookup_action \<times> ('c, 't, 's) tunnel_state" where
  "apply_extracted env p r c0 t =
     (let c = c0\<lparr>vc_extracted := r\<rparr>; t1 = put_conn p c t in
      case des_status r of
        DES_NOTFOUND \<Rightarrow>
          if CONNF_SUSPECT_EXCLUSION (vc_flags c)
          then (TDLA_SHUTDOWN, put_conn p (c\<lparr>vc_action := Some VPN_CA_FORCE_REDIRECT\<rparr>) t1) else (TDLA_DONE, t1)
      | DES_FOUND \<Rightarrow>
          (let t2 = t1\<lparr>tn_filter := add_resolved_tag (te_lib env) (make_tag c) (des_domain r) (tn_filter t1)\<rparr>;
               status = mr_status (match_tag (te_lib env) (tn_filter t2) (make_tag c));
               by_mode = vpn_mode_to_action (get_mode (tn_filter t2))
           in if status = DFMS_EXCLUSION \<or> status = DFMS_DEFAULT_OVERRIDE
              then (TDLA_SHUTDOWN,
                    put_conn p (c\<lparr>vc_action := Some (if status = DFMS_DEFAULT_OVERRIDE then by_mode else invert_action by_mode)\<rparr>) t2)
              else (TDLA_DONE, t2))
      | DES_PASS \<Rightarrow> (TDLA_PASS, t1)
      | DES_WANT_MORE \<Rightarrow> (TDLA_WANT_MORE, t1))"

definition pass_through_domain_lookup ::
  "('c, 't, 's) tunnel_env \<Rightarrow> nat \<Rightarrow> bytes \<Rightarrow> vpn_connection \<Rightarrow> ('c, 't, 's) tunnel_state \<Rightarrow> lookup_action \<times> ('c, 't, 's) tunnel_state" where
  "pass_through_domain_lookup env p data c t =
     (if vc_proto c = IPPROTO_UDP
      then case domain_lookup_process_udp env c data of
             Inl a \<Rightarrow> (a, t)
           | Inr r \<Rightarrow> apply_extracted env p r c t
      else apply_extracted env p (te_extract env) c t)"

section \<open>Buffered data\<close>

text \<open>
  The loop that sends the buffered packets: whether it failed, whether the upstream took nothing,
  the packets that are left and the number of bytes sent.
\<close>

fun send_packets ::
  "('c, 't, 's) tunnel_env \<Rightarrow> int \<Rightarrow> vpn_connection \<Rightarrow> bytes list \<Rightarrow> ('c, 't, 's) tunnel_state \<Rightarrow>
     bool \<times> bool \<times> bytes list \<times> nat \<times> ('c, 't, 's) tunnel_state" where
  "send_packets env u c [] t = (False, False, [], 0, t)"
| "send_packets env u c (packet # rest) t =
     (let r = te_send_result env (length (tn_out t)) packet;
          t1 = tn_emit (UpSend u (server_id c) packet r) t
      in if 0 \<le> r \<and> nat r = length packet
         then
           (let t2 = (if CONNF_MONITOR_STATS (vc_flags c) then tn_emit (StatsUpload (client_id c) (nat r)) t1 else t1);
                (failed, zero, left, sent, t3) = send_packets env u c rest t2
            in (failed, zero, left, sent + nat r, t3))
         else if r < 0 then (True, False, packet # rest, 0, t1)
         else if r = 0 then (False, True, packet # rest, 0, t1)
         else (False, False, drop (nat r) packet # rest, 0, t1))"

definition send_buffered_data :: "('c, 't, 's) tunnel_env \<Rightarrow> u64 \<Rightarrow> ('c, 't, 's) tunnel_state \<Rightarrow> bool \<times> ('c, 't, 's) tunnel_state" where
  "send_buffered_data env i t =
     (case get_by_client_id i t of
        None \<Rightarrow> (False, t)
      | Some p \<Rightarrow>
          (case map_of (heap t) p of
             None \<Rightarrow> (False, t\<lparr>tn_dangling := tn_dangling t @ [p]\<rparr>)
           | Some c0 \<Rightarrow>
               (let c = c0\<lparr>send_buffered_task := None\<rparr>; t0 = put_conn p c t in
                case (lock_upstream env c, lock_listener env c) of
                  (Some u, Some l) \<Rightarrow>
                    (let (failed, zero, left, sent, t1) = send_packets env u c (buffered_packets c) t0;
                         t2 = put_conn p (c\<lparr>buffered_packets := left, outgoing_bytes := outgoing_bytes c + sent\<rparr>) t1
                     in if failed then (False, t2)
                        else
                          (let t3 = tn_emit (LsTurnRead l (client_id c) (0 < te_available env u (server_id c) \<and> \<not> zero)) t2
                           in (True, tn_emit (UpFlowControl u (server_id c) (te_flow_control env l i)) t3)))
                | _ \<Rightarrow> (False, t0))))"

definition schedule_send_buffered_data :: "nat \<Rightarrow> ('c, 't, 's) tunnel_state \<Rightarrow> ('c, 't, 's) tunnel_state" where
  "schedule_send_buffered_data p t = mod_conn p (\<lambda>c. c\<lparr>send_buffered_task := Some (client_id c)\<rparr>) t"

section \<open>Migration\<close>

text \<open>The result is what is set to the event.\<close>

definition no_flow :: tcp_flow_ctrl_info where
  "no_flow = \<lparr>send_buffer_size = 0, send_window_size = 0\<rparr>"

definition initiate_connection_migration ::
  "('c, 't, 's) tunnel_env \<Rightarrow> nat \<Rightarrow> int option \<Rightarrow> bytes \<Rightarrow> ('c, 't, 's) tunnel_state \<Rightarrow> int \<times> ('c, 't, 's) tunnel_state" where
  "initiate_connection_migration env p upstream packet t =
     (case (upstream, map_of (heap t) p) of
        (None, _) \<Rightarrow> (- 1, t)
      | (Some u, None) \<Rightarrow> (- 1, t\<lparr>tn_dangling := tn_dangling t @ [p]\<rparr>)
      | (Some u, Some c) \<Rightarrow>
          (let sid = te_open_result env u;
               t0 = tn_emit (UpOpen u (vc_addr c) (vc_proto c) [] sid) t
           in if sid = NON_ID then (- 1, t0)
              else
                (let q = next_ref t0;
                     sw0 = vpn_connection_make NON_ID (vc_addr c) (vc_proto c);
                     sw = sw0\<lparr>server_id := sid, vc_listener := vc_listener c, vc_upstream := Some u,
                            vc_state := CONNS_WAITING_RESPONSE_MIGRATING,
                            vc_flags := (vc_flags sw0)\<lparr>CONNF_LOOKINGUP_DOMAIN := CONNF_LOOKINGUP_DOMAIN (vc_flags c)\<rparr>,
                            migrating_client_id := client_id c, vc_app_name := vc_app_name c,
                            vc_extracted := vc_extracted c\<rparr>;
                     t1 = add_connection q (t0\<lparr>heap := (q, sw) # heap t0, next_ref := q + 1\<rparr>);
                     udp = (vc_proto c = IPPROTO_UDP);
                     c1 = (if udp then c\<lparr>buffered_packets := buffered_packets c @ [packet]\<rparr> else c\<lparr>buffered_packets := []\<rparr>);
                     t2 = put_conn p c1 (if udp then t1 else put_conn q (sw\<lparr>buffered_packets := buffered_packets c\<rparr>) t1)
                 in case (udp, lock_listener env c) of
                      (False, None) \<Rightarrow> (- 1, t2)
                    | (_, l) \<Rightarrow>
                        (let t3 = (case (udp, l) of (False, Some l') \<Rightarrow> tn_emit (LsTurnRead l' (client_id c) False) t2 | _ \<Rightarrow> t2);
                             t4 = put_conn p (c1\<lparr>vc_state := CONNS_CONNECTED_MIGRATING\<rparr>) t3;
                             t5 = (case lock_upstream env c of
                                     Some u' \<Rightarrow> tn_emit (UpFlowControl u' (server_id c) no_flow) t4
                                   | None \<Rightarrow> t4)
                         in (if udp then int (length packet) else 0, do_health_check env (Some u) False t5)))))"

section \<open>Events of the upstreams\<close>

text \<open>A listener may accept the connection before the completion of its request returns.\<close>

definition client_connection_accepted ::
  "('c, 't, 's) tunnel_env \<Rightarrow> int \<Rightarrow> u64 \<Rightarrow> ('c, 't, 's) tunnel_state \<Rightarrow> ('c, 't, 's) tunnel_state" where
  "client_connection_accepted env l i t =
     (case get_by_client_id i t of
        None \<Rightarrow> tn_fault (AssertFailed ''0'') t
      | Some p \<Rightarrow>
          with_conn p (\<lambda>c t.
            if vc_state c \<noteq> CONNS_WAITING_ACCEPT then close_client_side_connection env p (- 1) True t
            else
              (let t1 = tn_emit (LsTurnRead l i True) (put_conn p (c\<lparr>vc_state := CONNS_CONNECTED\<rparr>) t) in
               case lock_upstream env c of
                 None \<Rightarrow> t1
               | Some u \<Rightarrow>
                   (let t2 = tn_emit (UpFlowControl u (server_id c) (te_flow_control env l (client_id c))) t1
                    in if Some l = te_client_listener env \<and> Some u = te_endpoint_upstream env
                       then tn_emit (StatsRegister i) (mod_flags p (\<lambda>f. f\<lparr>CONNF_MONITOR_STATS := True\<rparr>) t2)
                       else t2))) t)"

definition listener_pass_request ::
  "('c, 't, 's) tunnel_env \<Rightarrow> int \<Rightarrow> u64 \<Rightarrow> ('c, 't, 's) tunnel_state \<Rightarrow> ('c, 't, 's) tunnel_state" where
  "listener_pass_request env l i t =
     (let t1 = tn_emit (LsComplete l i CCR_PASS) t
      in if te_listener_accepts env i then client_connection_accepted env l i t1 else t1)"

text \<open>The new connection takes the identifier of the one that is migrated, which is then closed on its upstream.\<close>

definition finish_migration ::
  "('c, 't, 's) tunnel_env \<Rightarrow> int \<Rightarrow> int \<Rightarrow> nat \<Rightarrow> nat \<Rightarrow> vpn_connection \<Rightarrow> ('c, 't, 's) tunnel_state \<Rightarrow> ('c, 't, 's) tunnel_state" where
  "finish_migration env u l p q c t =
     with_conn q (\<lambda>s t.
       let t1 = mod_conn q (\<lambda>s. s\<lparr>client_id := client_id c\<rparr>) (mod_conn p (\<lambda>c. c\<lparr>client_id := client_id s\<rparr>) t);
           t2 = add_connection p (mod_conn p (\<lambda>c. c\<lparr>vc_state := CONNS_CONNECTED, migrating_client_id := NON_ID\<rparr>) t1);
           t3 = (if vc_proto c = IPPROTO_UDP
                 then mod_conn q (\<lambda>s. s\<lparr>buffered_packets := buffered_packets c\<rparr>)
                        (mod_conn p (\<lambda>c. c\<lparr>buffered_packets := buffered_packets s\<rparr>) t2)
                 else t2);
           t4 = (case lock_upstream env s of
                   Some u' \<Rightarrow> upstream_close_connection env u' (server_id s) False False t3
                 | None \<Rightarrow> t3)
       in with_conn p (\<lambda>c t.
            if buffered_packets c \<noteq> [] then schedule_send_buffered_data p t
            else tn_emit (UpFlowControl u (server_id c) (te_flow_control env l (client_id c)))
                   (tn_emit (LsTurnRead l (client_id c) True) t)) t4) t"

definition server_connection_opened :: "('c, 't, 's) tunnel_env \<Rightarrow> int \<Rightarrow> u64 \<Rightarrow> ('c, 't, 's) tunnel_state \<Rightarrow> ('c, 't, 's) tunnel_state" where
  "server_connection_opened env u i t =
     (let refuse = (\<lambda>t. tn_emit (UpClose u i False True) t); failed = (\<lambda>t. tn_fault (AssertFailed ''0'') (refuse t)) in
      case get_by_server_id i t of
        None \<Rightarrow> failed t
      | Some p \<Rightarrow>
          with_conn p (\<lambda>c t.
            if lock_upstream env c \<noteq> Some u then failed t
            else case lock_listener env c of
                   None \<Rightarrow> failed t
                 | Some l \<Rightarrow>
                     (case vc_state c of
                        CONNS_WAITING_RESPONSE \<Rightarrow>
                          (let t1 = report_connection_info env p (Some (des_domain (vc_extracted c))) t
                           in listener_pass_request env l (client_id c)
                                (mod_conn p (\<lambda>c. c\<lparr>vc_state := CONNS_WAITING_ACCEPT\<rparr>) t1))
                      | CONNS_WAITING_RESPONSE_MIGRATING \<Rightarrow>
                          (case get_by_client_id (migrating_client_id c) t of
                             None \<Rightarrow> refuse t
                           | Some q \<Rightarrow> finish_migration env u l p q c t)
                      | CONNS_REJECTED \<Rightarrow> refuse t
                      | _ \<Rightarrow> failed t)) t)"

definition server_read ::
  "('c, 't, 's) tunnel_env \<Rightarrow> int \<Rightarrow> u64 \<Rightarrow> bytes \<Rightarrow> ('c, 't, 's) tunnel_state \<Rightarrow> ('c, 't, 's) tunnel_state" where
  "server_read env u i data t =
     (let failed = (\<lambda>t. tn_fault (AssertFailed ''0'') (tn_result (- 1) t)) in
      case get_by_server_id i t of
        None \<Rightarrow> failed t
      | Some p \<Rightarrow>
          with_conn p (\<lambda>c t.
            if lock_upstream env c \<noteq> Some u then failed t
            else case lock_listener env c of
                   None \<Rightarrow> failed t
                 | Some l \<Rightarrow>
                     (let (look, t1) = (if CONNF_LOOKINGUP_DOMAIN (vc_flags c) then pass_through_domain_lookup env p data c t
                                        else (TDLA_PASS, t));
                          t2 = (if look = TDLA_DONE then mod_flags p (\<lambda>f. f\<lparr>CONNF_LOOKINGUP_DOMAIN := False\<rparr>) t1 else t1)
                      in if look = TDLA_SHUTDOWN then close_client_side_connection env p 0 False t2
                         else if look = TDLA_BLOCK
                         then close_client_side_connection env p (- 1) False (tn_emit (UpFlowControl u i no_flow) t2)
                         else
                           (let r = te_listener_send env data;
                                t3 = tn_result r (tn_emit (LsSend l (client_id c) data r) t2)
                            in if r = 0 then tn_emit (UpFlowControl u (server_id c) no_flow) t3
                               else if 0 < r
                               then
                                 (let t4 = mod_conn p (\<lambda>c. c\<lparr>incoming_bytes := incoming_bytes c + nat r\<rparr>) t3;
                                      t5 = (if CONNF_MONITOR_STATS (vc_flags c)
                                            then tn_emit (StatsDownload (client_id c) (nat r)) t4 else t4)
                                  in tn_emit (UpFlowControl u (server_id c) (te_flow_control env l (client_id c))) t5)
                               else t3))) t)"

text \<open>The identifier that is closed on the two error paths is the member \<open>id\<close> of the tunnel, not the one of the event.\<close>

definition server_data_sent ::
  "('c, 't, 's) tunnel_env \<Rightarrow> int \<Rightarrow> u64 \<Rightarrow> nat \<Rightarrow> ('c, 't, 's) tunnel_state \<Rightarrow> ('c, 't, 's) tunnel_state" where
  "server_data_sent env u i len t =
     (let failed = (\<lambda>t. tn_fault (AssertFailed ''0'') (tn_emit (UpClose u (word_of_int (tn_id t)) False True) t)) in
      case get_by_server_id i t of
        None \<Rightarrow> t
      | Some p \<Rightarrow>
          with_conn p (\<lambda>c t.
            if lock_upstream env c \<noteq> Some u then failed t
            else case lock_listener env c of
                   None \<Rightarrow> failed t
                 | Some l \<Rightarrow>
                     if vc_state c = CONNS_CONNECTED
                     then
                       (let t1 = tn_emit (LsConsume l (client_id c) len) t;
                            t2 = tn_emit (LsTurnRead l (client_id c) (0 < te_available env u (server_id c))) t1
                        in if buffered_packets c \<noteq> [] then schedule_send_buffered_data p t2 else t2)
                     else t) t)"

definition server_error ::
  "('c, 't, 's) tunnel_env \<Rightarrow> int \<Rightarrow> u64 \<Rightarrow> vpn_error \<Rightarrow> ('c, 't, 's) tunnel_state \<Rightarrow> ('c, 't, 's) tunnel_state" where
  "server_error env u i e t =
     (if i = NON_ID then close_client_side env u t
      else case get_by_server_id i t of
        None \<Rightarrow> destroy_connection env NON_ID i t
      | Some p \<Rightarrow>
          with_conn p (\<lambda>c t.
            if vc_state c = CONNS_WAITING_RESPONSE_MIGRATING
            then
              (let t1 = (case get_by_client_id (migrating_client_id c) t of
                           None \<Rightarrow> t
                         | Some q \<Rightarrow> with_conn q (\<lambda>s. tn_emit (UpClose u (server_id s) False True)) t)
               in case lock_upstream env c of
                    Some u' \<Rightarrow> tn_emit (UpClose u' (server_id c) False True) t1
                  | None \<Rightarrow> t1)
            else if get_by_client_id (client_id c) t \<noteq> None
            then close_client_side_connection env p (ec e) False (t\<lparr>by_server_id := AList.delete (server_id c) (by_server_id t)\<rparr>)
            else destroy_connection env (client_id c) (server_id c) t) t)"

definition server_echo_reply :: "icmp_echo_reply \<Rightarrow> ('c, 't, 's) tunnel_state \<Rightarrow> ('c, 't, 's) tunnel_state" where
  "server_echo_reply reply t =
     (let (status, reply', im) = register_reply reply (tn_icmp t); t1 = t\<lparr>tn_icmp := im\<rparr>
      in if status = IM_MSGS_PASS then tn_emit (LsIcmpReply reply') t1 else t1)"

fun upstream_handler ::
  "('c, 't, 's) tunnel_env \<Rightarrow> int \<Rightarrow> server_event \<Rightarrow> ('c, 't, 's) tunnel_state \<Rightarrow> ('c, 't, 's) tunnel_state" where
  "upstream_handler env u SERVER_EVENT_SESSION_OPENED t =
     (if Some u = te_endpoint_upstream env
      then (if endpoint_upstream_connected t then tn_fault (AssertFailed ''!this->endpoint_upstream_connected'') t else t)
             \<lparr>endpoint_upstream_connected := True\<rparr>
      else t)"
| "upstream_handler env u (SERVER_EVENT_HEALTH_CHECK_ERROR _) t = t"
| "upstream_handler env u SERVER_EVENT_SESSION_CLOSED t = close_client_side env u t"
| "upstream_handler env u (SERVER_EVENT_CONNECTION_OPENED i) t = server_connection_opened env u i t"
| "upstream_handler env u (SERVER_EVENT_CONNECTION_CLOSED i) t = server_connection_closed env i t"
| "upstream_handler env u (SERVER_EVENT_READ i data) t = server_read env u i data t"
| "upstream_handler env u (SERVER_EVENT_DATA_SENT i len) t = server_data_sent env u i len t"
| "upstream_handler env u (SERVER_EVENT_GET_AVAILABLE_TO_SEND i) t =
     (case get_by_server_id i t of
        None \<Rightarrow> t
      | Some p \<Rightarrow>
          with_conn p (\<lambda>c t.
            case lock_listener env c of
              None \<Rightarrow> t
            | Some l \<Rightarrow> tn_result (int (send_buffer_size (te_flow_control env l (client_id c)))) t) t)"
| "upstream_handler env u (SERVER_EVENT_ERROR i e) t = server_error env u i e t"
| "upstream_handler env u (SERVER_EVENT_ECHO_REPLY reply) t = server_echo_reply reply t"

section \<open>Events of the listeners\<close>

definition client_connect_request ::
  "('c, 't, 's) tunnel_env \<Rightarrow> int \<Rightarrow> connect_request \<Rightarrow> ('c, 't, 's) tunnel_state \<Rightarrow> ('c, 't, 's) tunnel_state" where
  "client_connect_request env l ev t =
     (let d = (case cr_dst ev of
                 TA_Name name port \<Rightarrow> (case te_ip_literal env name port of Some a \<Rightarrow> TA_Sock a | None \<Rightarrow> cr_dst ev)
               | TA_Sock _ \<Rightarrow> cr_dst ev);
          a = \<lparr>src = cr_src ev, dst = d\<rparr>;
          c0 = vpn_connection_make (cr_id ev) a (cr_protocol ev);
          c = c0\<lparr>vc_listener := Some l, vc_app_name := cr_app_name ev,
                 vc_flags := (vc_flags c0)\<lparr>CONNF_FIRST_PACKET := True\<rparr>\<rparr>;
          p = next_ref t;
          t1 = add_connection p (t\<lparr>heap := (p, c) # heap t, next_ref := p + 1\<rparr>)
      in if Some l = tn_dns_resolver t1 then complete_connect_request env (client_id c) None t1
         else if Some l = te_dns_proxy_listener env
         then complete_connect_request env (client_id c) (Some VPN_CA_FORCE_REDIRECT) t1
         else if Some l = tn_dns_handler t1
         then complete_connect_request env (client_id c)
                (Some (if cr_dns_handler_bypass ev then VPN_CA_FORCE_BYPASS else VPN_CA_FORCE_REDIRECT)) t1
         else if \<not> CONNF_PLAIN_DNS_CONNECTION (vc_flags c) \<and>
                 (case cr_dst ev of TA_Sock s \<Rightarrow> te_is_loopback env s | TA_Name _ _ \<Rightarrow> False)
         then complete_connect_request env (client_id c) (Some VPN_CA_FORCE_BYPASS) t1
         else tn_emit (RaiseConnectRequest (cr_id ev) (cr_protocol ev) a (vc_app_name c)) t1)"

definition MAX_LOOKUP_ATTEMPTS :: int where
  "MAX_LOOKUP_ATTEMPTS = 3"

text \<open>
  \<open>CLIENT_EVENT_READ\<close> in three parts. The first looks for the domain name: it ends the event
  (\<open>Inl\<close>), or goes on with the connection (\<open>Inr\<close>).
\<close>

definition migrate_client ::
  "('c, 't, 's) tunnel_env \<Rightarrow> int \<Rightarrow> nat \<Rightarrow> int option \<Rightarrow> u64 \<Rightarrow> bytes \<Rightarrow> (conn_flags \<Rightarrow> conn_flags) \<Rightarrow> ('c, 't, 's) tunnel_state \<Rightarrow> ('c, 't, 's) tunnel_state" where
  "migrate_client env l p upstream i data on_success t =
     (let (r, t1) = initiate_connection_migration env p upstream data t; t2 = tn_result r t1
      in if r < 0 then close_client_side_connection env p (te_econnreset env) True (tn_emit (LsTurnRead l i False) t2)
         else mod_flags p on_success t2)"

definition client_lookup ::
  "('c, 't, 's) tunnel_env \<Rightarrow> int \<Rightarrow> int \<Rightarrow> nat \<Rightarrow> bytes \<Rightarrow> vpn_connection \<Rightarrow> ('c, 't, 's) tunnel_state \<Rightarrow>
     ('c, 't, 's) tunnel_state + ('c, 't, 's) tunnel_state" where
  "client_lookup env l u p data c t =
     (let (look, t1) = pass_through_domain_lookup env p data c t;
          stop_lookup = mod_flags p (\<lambda>f. f\<lparr>CONNF_LOOKINGUP_DOMAIN := False\<rparr>);
          report = (\<lambda>t. report_connection_info env p
                      (map_option (des_domain \<circ> vc_extracted) (map_of (heap t) p)) t)
      in case look of
           TDLA_DONE \<Rightarrow> Inr (report (stop_lookup t1))
         | TDLA_PASS \<Rightarrow> Inr (report t1)
         | TDLA_DROP \<Rightarrow> Inl (tn_result (int (length data)) t1)
         | TDLA_WANT_MORE \<Rightarrow>
             (let t2 = mod_conn p (\<lambda>c. c\<lparr>lookup_attempts_num := lookup_attempts_num c + 1\<rparr>) t1
              in if lookup_attempts_num c < MAX_LOOKUP_ATTEMPTS
                 then Inl (tn_result (int (length data)) (mod_conn p (\<lambda>c. c\<lparr>buffered_packets := buffered_packets c @ [data]\<rparr>) t2))
                 else Inr (report t2))
         | TDLA_BLOCK \<Rightarrow>
             Inl (tn_result (- 1) (close_client_side_connection env p (- 1) True (tn_emit (LsTurnRead l (client_id c) False) t1)))
         | TDLA_SHUTDOWN \<Rightarrow>
             (let t2 = report (stop_lookup t1) in
              if \<not> CONNF_FIRST_PACKET (vc_flags c)
              then Inl (tn_emit (UpClose u (server_id c) False True)
                          (tn_emit (UpFlowControl u (server_id c) no_flow) (tn_emit (LsTurnRead l (client_id c) False) t2)))
              else Inl (with_conn p (\<lambda>c t.
                     case vc_action c of
                       None \<Rightarrow> tn_fault (NullDeref ''conn->action'') t
                     | Some a \<Rightarrow>
                         migrate_client env l p (select_upstream env t a (Some c)) (client_id c) data
                           (\<lambda>f. f\<lparr>CONNF_FAKE_CONNECTION := False\<rparr>) t) t2)))"

definition client_send ::
  "('c, 't, 's) tunnel_env \<Rightarrow> int \<Rightarrow> int \<Rightarrow> nat \<Rightarrow> bytes \<Rightarrow> ('c, 't, 's) tunnel_state \<Rightarrow> ('c, 't, 's) tunnel_state" where
  "client_send env l u p data t =
     with_conn p (\<lambda>c t.
       let r = te_send_result env (length (tn_out t)) data;
           t1 = tn_result r (tn_emit (UpSend u (server_id c) data r) t)
       in if 0 < r \<or> (0 \<le> r \<and> nat r = length data)
          then
            (let t2 = mod_conn p (\<lambda>c. c\<lparr>outgoing_bytes := outgoing_bytes c + nat r\<rparr>) t1;
                 t3 = (if CONNF_MONITOR_STATS (vc_flags c) then tn_emit (StatsUpload (client_id c) (nat r)) t2 else t2)
             in tn_emit (LsTurnRead l (client_id c) (0 < te_available env u (server_id c))) t3)
          else if r = 0 then tn_emit (LsTurnRead l (client_id c) False) t1
          else t1) t"

definition client_forward ::
  "('c, 't, 's) tunnel_env \<Rightarrow> int \<Rightarrow> int \<Rightarrow> nat \<Rightarrow> bytes \<Rightarrow> ('c, 't, 's) tunnel_state \<Rightarrow> ('c, 't, 's) tunnel_state" where
  "client_forward env l u p data t =
     with_conn p (\<lambda>c t.
       case vc_state c of
         CONNS_CONNECTED \<Rightarrow>
           if buffered_packets c \<noteq> []
           then
             (let (ok, t1) = send_buffered_data env (client_id c) t in
              if \<not> ok then tn_result (- 1) t1
              else with_conn p (\<lambda>c t.
                     if buffered_packets c \<noteq> [] then tn_result 0 t else client_send env l u p data t) t1)
           else client_send env l u p data t
       | CONNS_CONNECTED_MIGRATING \<Rightarrow>
           if vc_proto c = IPPROTO_UDP then put_conn p (c\<lparr>buffered_packets := buffered_packets c @ [data]\<rparr>) t
           else tn_result (- 1) (tn_fault (AssertFailed ''0'') t)
       | _ \<Rightarrow> tn_result (- 1) (tn_fault (AssertFailed ''0'') t)) t"

definition client_read ::
  "('c, 't, 's) tunnel_env \<Rightarrow> int \<Rightarrow> u64 \<Rightarrow> bytes \<Rightarrow> ('c, 't, 's) tunnel_state \<Rightarrow> ('c, 't, 's) tunnel_state" where
  "client_read env l i data t =
     (let failed = (\<lambda>t. tn_fault (AssertFailed ''0'') (tn_result (- 1) t)) in
      case get_by_client_id i t of
        None \<Rightarrow> failed t
      | Some p \<Rightarrow>
          with_conn p (\<lambda>c t.
            case lock_upstream env c of
              None \<Rightarrow> failed t
            | Some u \<Rightarrow>
                (let t1 = do_health_check env (Some u) False t in
                 case (if CONNF_LOOKINGUP_DOMAIN (vc_flags c) then client_lookup env l u p data c t1 else Inr t1) of
                   Inl t2 \<Rightarrow> t2
                 | Inr t2 \<Rightarrow>
                     with_conn p (\<lambda>c t.
                       if CONNF_FAKE_CONNECTION (vc_flags c)
                       then
                         (let f = (vc_flags c)\<lparr>CONNF_FAKE_CONNECTION := False, CONNF_SUSPECT_EXCLUSION := False\<rparr>;
                              c1 = c\<lparr>vc_flags := f\<rparr>
                          in migrate_client env l p (select_upstream env t VPN_CA_DEFAULT (Some c1)) (client_id c1) data (\<lambda>f. f)
                               (put_conn p c1 t))
                       else
                         client_forward env l u p data
                           (put_conn p (c\<lparr>vc_flags := (vc_flags c)\<lparr>CONNF_FIRST_PACKET := False, CONNF_FAKE_CONNECTION := False\<rparr>\<rparr>) t)) t2)) t)"

definition client_data_sent ::
  "('c, 't, 's) tunnel_env \<Rightarrow> int \<Rightarrow> u64 \<Rightarrow> nat \<Rightarrow> ('c, 't, 's) tunnel_state \<Rightarrow> ('c, 't, 's) tunnel_state" where
  "client_data_sent env l i len t =
     (case get_by_client_id i t of
        None \<Rightarrow> tn_fault (AssertFailed ''0'') t
      | Some p \<Rightarrow>
          with_conn p (\<lambda>c t.
            case lock_upstream env c of
              None \<Rightarrow> t
            | Some u \<Rightarrow>
                if server_id c = NON_ID then t
                else
                  (let t1 = tn_emit (UpConsume u (server_id c) len) t;
                       t2 = tn_emit (UpFlowControl u (server_id c) (te_flow_control env l (client_id c))) t1
                   in do_health_check env (Some u) False t2)) t)"

definition client_icmp_request ::
  "('c, 't, 's) tunnel_env \<Rightarrow> icmp_echo_request \<Rightarrow> ('c, 't, 's) tunnel_state \<Rightarrow> ('c, 't, 's) tunnel_state" where
  "client_icmp_request env request t =
     (if \<not> te_may_send_icmp_request env then tn_result (- 1) t
      else
        (let (status, im) = register_request (te_now env) request (tn_icmp t); t1 = t\<lparr>tn_icmp := im\<rparr> in
         case status of
           IM_MSGS_DROP \<Rightarrow> tn_result (- 1) t1
         | IM_MSGS_PASS \<Rightarrow>
             (let by_mode = vpn_mode_to_action (get_mode (tn_filter t1));
                  act = (case mr_status (match_tag (te_lib env) (tn_filter t1) \<lparr>tag_addr = req_peer request, tag_appname = []\<rparr>) of
                           DFMS_DEFAULT \<Rightarrow> VPN_CA_DEFAULT
                         | DFMS_SUSPECT_EXCLUSION \<Rightarrow> VPN_CA_DEFAULT
                         | DFMS_EXCLUSION \<Rightarrow> invert_action by_mode
                         | DFMS_DEFAULT_OVERRIDE \<Rightarrow> by_mode)
              in case select_upstream env t1 act None of
                   None \<Rightarrow> t1
                 | Some u \<Rightarrow> do_health_check env (Some u) False (tn_emit (UpIcmpRequest u request) t1))))"

fun listener_handler ::
  "('c, 't, 's) tunnel_env \<Rightarrow> int \<Rightarrow> listener_event \<Rightarrow> ('c, 't, 's) tunnel_state \<Rightarrow> ('c, 't, 's) tunnel_state" where
  "listener_handler env l (CLIENT_EVENT_CONNECT_REQUEST ev) t = client_connect_request env l ev t"
| "listener_handler env l (CLIENT_EVENT_CONNECTION_ACCEPTED i) t = client_connection_accepted env l i t"
| "listener_handler env l (CLIENT_EVENT_CONNECTION_CLOSED i) t = client_connection_closed env i t"
| "listener_handler env l (CLIENT_EVENT_READ i data) t = client_read env l i data t"
| "listener_handler env l (CLIENT_EVENT_DATA_SENT i len) t = client_data_sent env l i len t"
| "listener_handler env l CLIENT_EVENT_OUTPUT t = tn_emit RaiseOutput t"
| "listener_handler env l (CLIENT_EVENT_ICMP_ECHO_REQUEST request) t = client_icmp_request env request t"

section \<open>The other operations\<close>

definition reset_connections_by_uid :: "('c, 't, 's) tunnel_env \<Rightarrow> int \<Rightarrow> ('c, 't, 's) tunnel_state \<Rightarrow> ('c, 't, 's) tunnel_state" where
  "reset_connections_by_uid env u t =
     (let (ids, t1) = select_connections (by_client_id t) (\<lambda>c.
            (u = - 1 \<or> vc_uid c = u) \<and> lock_listener env c \<noteq> tn_dns_resolver t \<and>
            (lock_listener env c \<noteq> tn_dns_handler t \<or> \<not> te_is_vpn_resolver_connection env (client_id c))) t
      in fold (close_selected env (\<lambda>f. f)) ids t1)"

definition reset_connections_by_listener ::
  "('c, 't, 's) tunnel_env \<Rightarrow> int option \<Rightarrow> ('c, 't, 's) tunnel_state \<Rightarrow> ('c, 't, 's) tunnel_state" where
  "reset_connections_by_listener env l t =
     (let (ids, t1) = select_connections (by_client_id t) (\<lambda>c. lock_listener env c = l) t
      in fold (close_selected env (\<lambda>f. f)) ids t1)"

definition reset_connection :: "('c, 't, 's) tunnel_env \<Rightarrow> u64 \<Rightarrow> ('c, 't, 's) tunnel_state \<Rightarrow> ('c, 't, 's) tunnel_state" where
  "reset_connection env i t = close_selected env (\<lambda>f. f) i t"

definition on_before_endpoint_disconnect ::
  "('c, 't, 's) tunnel_env \<Rightarrow> int \<Rightarrow> ('c, 't, 's) tunnel_state \<Rightarrow> ('c, 't, 's) tunnel_state" where
  "on_before_endpoint_disconnect env u t =
     (if te_endpoint_upstream env \<noteq> Some u then t
      else
        (let t1 = (tn_emit DnsStopResolving t)\<lparr>exclusions_resolve_task := False\<rparr>;
             (ids, t2) = select_connections (by_client_id t1) (\<lambda>_. True) t1
         in (fold (close_selected env (\<lambda>f. f)) ids t2)\<lparr>endpoint_upstream_connected := False\<rparr>))"

definition session_closed_mark ::
  "('c, 't, 's) tunnel_env \<Rightarrow> int \<Rightarrow> nat \<Rightarrow> ('c, 't, 's) tunnel_state \<Rightarrow> ('c, 't, 's) tunnel_state" where
  "session_closed_mark env u p t =
     with_conn p (\<lambda>c t.
       if lock_upstream env c = Some u
       then
         (let t1 = mod_flags p (\<lambda>f. f\<lparr>CONNF_SESSION_CLOSED := True\<rparr>) t in
          case lock_listener env c of Some l \<Rightarrow> tn_emit (LsTurnRead l (client_id c) False) t1 | None \<Rightarrow> t1)
       else t) t"

definition on_after_endpoint_disconnect ::
  "('c, 't, 's) tunnel_env \<Rightarrow> int \<Rightarrow> ('c, 't, 's) tunnel_state \<Rightarrow> ('c, 't, 's) tunnel_state" where
  "on_after_endpoint_disconnect env u t =
     (let t1 = fold (session_closed_mark env u) (map snd (by_client_id t)) t
      in if te_endpoint_upstream env = Some u
         then
           (let t2 = (if tn_dns_resolver t1 \<noteq> None then tn_emit DnsResolverDeinit t1 else t1)
            in if tn_fake_upstream t2 \<noteq> None
               then fold (server_connection_closed env) (te_fake_connections env) (tn_emit FakeReopenSession t2)
               else t2)
         else t1)"

definition on_exclusions_updated :: "('c, 't, 's) tunnel_env \<Rightarrow> ('c, 't, 's) tunnel_state \<Rightarrow> ('c, 't, 's) tunnel_state" where
  "on_exclusions_updated env t =
     (let t1 = tn_emit DnsStopBackground t;
          t2 = (if te_endpoint_upstream env \<noteq> None \<and> te_preresolve_enabled env
                then fold (\<lambda>name. tn_emit (DnsResolve False name))
                       (take (te_preresolve_max_queries env) (get_resolvable_exclusions (tn_filter t1))) t1
                else t1)
      in t2\<lparr>exclusions_resolve_task := True\<rparr>)"

definition on_icmp_reply_ready :: "icmp_echo_reply \<Rightarrow> ('c, 't, 's) tunnel_state \<Rightarrow> ('c, 't, 's) tunnel_state" where
  "on_icmp_reply_ready reply t = tn_emit (LsIcmpReply reply) t"

definition update_dns_handler_parameters :: "('c, 't, 's) tunnel_state \<Rightarrow> ('c, 't, 's) tunnel_state" where
  "update_dns_handler_parameters t =
     (if tn_dns_handler t = None then tn_fault (NullDeref ''dns_handler'') t else tn_emit DnsHandlerUpdate t)"

definition on_network_change :: "('c, 't, 's) tunnel_state \<Rightarrow> ('c, 't, 's) tunnel_state" where
  "on_network_change t = (if tn_dns_handler t \<noteq> None then tn_emit DnsHandlerNetworkChange t else t)"

definition tunnel_handle_sleep :: "('c, 't, 's) tunnel_env \<Rightarrow> ('c, 't, 's) tunnel_state \<Rightarrow> ('c, 't, 's) tunnel_state" where
  "tunnel_handle_sleep env t =
     (let t1 = t\<lparr>tn_sleeping := True\<rparr> in
      case te_endpoint_upstream env of
        Some u \<Rightarrow> tn_emit (UpCancelHealthCheck u) t1
      | None \<Rightarrow> tn_fault (NullDeref ''endpoint_upstream'') t1)"

definition tunnel_handle_wake :: "('c, 't, 's) tunnel_env \<Rightarrow> ('c, 't, 's) tunnel_state \<Rightarrow> ('c, 't, 's) tunnel_state" where
  "tunnel_handle_wake env t = do_health_check env (te_endpoint_upstream env) True (t\<lparr>tn_sleeping := False\<rparr>)"

definition tunnel_new :: "int \<Rightarrow> ('c, 't, 's) domain_filter \<Rightarrow> ('c, 't, 's) tunnel_state" where
  "tunnel_new i f =
     \<lparr>heap = [], next_ref = 0, by_client_id = [], by_server_id = [], tn_id = i, tn_filter = f, tn_icmp = icmp_manager_new,
      endpoint_upstream_connected = False, tn_sleeping = False, last_health_check_at = 0, tn_dns_resolver = None,
      dns_resolve_waiters = [], exclusions_resolve_task = False, tn_fake_upstream = None, tn_dns_handler = None,
      statistics_monitor = False, event_result = None, tn_out = [], tn_faults = [], tn_dangling = []\<rparr>"

definition clean_connection_table :: "('c, 't, 's) tunnel_env \<Rightarrow> nat \<Rightarrow> ('c, 't, 's) tunnel_state \<Rightarrow> ('c, 't, 's) tunnel_state" where
  "clean_connection_table env p t = with_conn p (\<lambda>c. destroy_connection env (client_id c) (server_id c)) t"

text \<open>An entry of the table is visited if it is still there when the iteration reaches it.\<close>

fun clean_table ::
  "('c, 't, 's) tunnel_env \<Rightarrow> (('c, 't, 's) tunnel_state \<Rightarrow> (u64 \<times> nat) list) \<Rightarrow> (u64 \<times> nat) list \<Rightarrow> ('c, 't, 's) tunnel_state \<Rightarrow> ('c, 't, 's) tunnel_state" where
  "clean_table env table [] t = t"
| "clean_table env table ((i, p) # rest) t =
     clean_table env table rest (if map_of (table t) i = Some p then clean_connection_table env p t else t)"

definition tunnel_deinit :: "('c, 't, 's) tunnel_env \<Rightarrow> ('c, 't, 's) tunnel_state \<Rightarrow> ('c, 't, 's) tunnel_state" where
  "tunnel_deinit env t =
     (let t1 = clean_table env by_client_id (by_client_id t) (t\<lparr>endpoint_upstream_connected := False\<rparr>);
          t2 = clean_table env by_server_id (by_server_id t1) t1;
          t3 = (if tn_dns_resolver t2 \<noteq> None then (tn_emit DnsResolverDeinit t2)\<lparr>tn_dns_resolver := None\<rparr> else t2)
      in t3\<lparr>exclusions_resolve_task := False, tn_fake_upstream := None, tn_icmp := icmp_manager_deinit (tn_icmp t3),
            tn_dns_handler := None, statistics_monitor := False\<rparr>)"

text \<open>The parts that the tunnel creates: whether they were initialized, and their numbers.\<close>

record tunnel_parts =
  resolver_ok :: bool
  resolver_number :: int
  fake_ok :: bool
  fake_number :: int
  dns_handler_ok :: bool
  dns_handler_number :: int

definition tunnel_init ::
  "('c, 't, 's) tunnel_env \<Rightarrow> tunnel_parts \<Rightarrow> ('c, 't, 's) tunnel_state \<Rightarrow> bool \<times> ('c, 't, 's) tunnel_state" where
  "tunnel_init env parts t =
     (let t1 = t\<lparr>tn_icmp := icmp_manager_init None (tn_icmp t), tn_dns_resolver := Some (resolver_number parts)\<rparr>;
          failed = (\<lambda>t. (False, tn_fault (AssertFailed ''0'') (tunnel_deinit env t)))
      in if \<not> resolver_ok parts then failed t1
         else
           (let t2 = t1\<lparr>tn_fake_upstream := Some (fake_number parts)\<rparr> in
            if \<not> fake_ok parts then failed t2
            else
              (let t3 = t2\<lparr>tn_dns_handler := Some (dns_handler_number parts)\<rparr> in
               if \<not> dns_handler_ok parts then failed t3 else (True, t3\<lparr>statistics_monitor := True\<rparr>))))"

end
