(* ===== verification/TT_Tunnel_Safety.thy ===== *)
theory TT_Tunnel_Safety
  imports TT_Tunnel
begin

text \<open>
  Memory safety of the tunnel: over every sequence of events, tasks and calls the two tables point to
  connections that exist, no connection is used after it was deleted, and every connection that exists
  is in a table, so that none is leaked. One lemma per operation of the store, one per operation of the
  tunnel, then the reachable states by rule induction.
\<close>

section \<open>The store and its tables\<close>
section \<open>The store and its tables\<close>

text \<open>
  A connection waits for the application or for a name only while it has no server side, and a
  connection that is opened for a migration has no client side yet.
\<close>

definition conn_ok :: "vpn_connection \<Rightarrow> bool" where
  "conn_ok c \<longleftrightarrow>
     (vc_state c = CONNS_WAITING_RESPONSE_MIGRATING \<longrightarrow> client_id c = NON_ID) \<and>
     (vc_state c \<in> {CONNS_WAITING_ACTION, CONNS_WAITING_RESOLVE} \<longrightarrow> server_id c = NON_ID)"

text \<open>
  The tables point to connections that exist and have the identifier they are found under, every
  connection is in a table, and no two connections share an identifier.
\<close>

definition store_ok :: "(nat \<rightharpoonup> vpn_connection) \<Rightarrow> (u64 \<rightharpoonup> nat) \<Rightarrow> (u64 \<rightharpoonup> nat) \<Rightarrow> nat \<Rightarrow> bool" where
  "store_ok H C S n \<longleftrightarrow>
     (\<forall>i p. C i = Some p \<longrightarrow> i \<noteq> NON_ID \<and> (\<exists>c. H p = Some c \<and> client_id c = i)) \<and>
     (\<forall>i p. S i = Some p \<longrightarrow> i \<noteq> NON_ID \<and> (\<exists>c. H p = Some c \<and> server_id c = i)) \<and>
     (\<forall>p c. H p = Some c \<longrightarrow> p < n \<and> conn_ok c \<and> (C (client_id c) = Some p \<or> S (server_id c) = Some p)) \<and>
     (\<forall>p q c d. H p = Some c \<longrightarrow> H q = Some d \<longrightarrow> client_id c = client_id d \<longrightarrow> client_id c \<noteq> NON_ID \<longrightarrow> p = q) \<and>
     (\<forall>p q c d. H p = Some c \<longrightarrow> H q = Some d \<longrightarrow> server_id c = server_id d \<longrightarrow> server_id c \<noteq> NON_ID \<longrightarrow> p = q)"

lemma store_okD:
  assumes "store_ok H C S n"
  shows "C i = Some p \<Longrightarrow> i \<noteq> NON_ID \<and> (\<exists>c. H p = Some c \<and> client_id c = i)"
    and "S i = Some p \<Longrightarrow> i \<noteq> NON_ID \<and> (\<exists>c. H p = Some c \<and> server_id c = i)"
    and "H p = Some c \<Longrightarrow> p < n \<and> conn_ok c \<and> (C (client_id c) = Some p \<or> S (server_id c) = Some p)"
    and "H p = Some c \<Longrightarrow> H q = Some d \<Longrightarrow> client_id c = client_id d \<Longrightarrow> client_id c \<noteq> NON_ID \<Longrightarrow> p = q"
    and "H p = Some c \<Longrightarrow> H q = Some d \<Longrightarrow> server_id c = server_id d \<Longrightarrow> server_id c \<noteq> NON_ID \<Longrightarrow> p = q"
  using assms unfolding store_ok_def by blast+

lemma store_okI:
  assumes "\<And>i p. C i = Some p \<Longrightarrow> i \<noteq> NON_ID \<and> (\<exists>c. H p = Some c \<and> client_id c = i)"
    and "\<And>i p. S i = Some p \<Longrightarrow> i \<noteq> NON_ID \<and> (\<exists>c. H p = Some c \<and> server_id c = i)"
    and "\<And>p c. H p = Some c \<Longrightarrow> p < n \<and> conn_ok c \<and> (C (client_id c) = Some p \<or> S (server_id c) = Some p)"
    and "\<And>p q c d. H p = Some c \<Longrightarrow> H q = Some d \<Longrightarrow> client_id c = client_id d \<Longrightarrow> client_id c \<noteq> NON_ID \<Longrightarrow> p = q"
    and "\<And>p q c d. H p = Some c \<Longrightarrow> H q = Some d \<Longrightarrow> server_id c = server_id d \<Longrightarrow> server_id c \<noteq> NON_ID \<Longrightarrow> p = q"
  shows "store_ok H C S n"
  unfolding store_ok_def using assms by blast

lemma store_no_id: "store_ok H C S n \<Longrightarrow> C NON_ID = None" "store_ok H C S n \<Longrightarrow> S NON_ID = None"
  using store_okD(1) store_okD(2) by (metis not_Some_eq)+

lemma store_put:
  assumes ok: "store_ok H C S n" and c: "H p = Some c" "client_id c' = client_id c" "server_id c' = server_id c" "conn_ok c'"
  shows "store_ok (H(p \<mapsto> c')) C S n"
proof (rule store_okI)
  fix i r assume "C i = Some r"
  then show "i \<noteq> NON_ID \<and> (\<exists>d. (H(p \<mapsto> c')) r = Some d \<and> client_id d = i)" using store_okD(1) [OF ok] c by fastforce
next
  fix i r assume "S i = Some r"
  then show "i \<noteq> NON_ID \<and> (\<exists>d. (H(p \<mapsto> c')) r = Some d \<and> server_id d = i)" using store_okD(2) [OF ok] c by fastforce
next
  fix r d assume "(H(p \<mapsto> c')) r = Some d"
  then show "r < n \<and> conn_ok d \<and> (C (client_id d) = Some r \<or> S (server_id d) = Some r)"
    using store_okD(3) [OF ok] c by (auto split: if_splits)
next
  fix r q d e assume "(H(p \<mapsto> c')) r = Some d" "(H(p \<mapsto> c')) q = Some e" "client_id d = client_id e" "client_id d \<noteq> NON_ID"
  then show "r = q" using store_okD(4) [OF ok] c by (metis fun_upd_apply option.inject)
next
  fix r q d e assume "(H(p \<mapsto> c')) r = Some d" "(H(p \<mapsto> c')) q = Some e" "server_id d = server_id e" "server_id d \<noteq> NON_ID"
  then show "r = q" using store_okD(5) [OF ok] c by (metis fun_upd_apply option.inject)
qed

lemma store_destroy:
  assumes ok: "store_ok H C S n" and c: "H p = Some c"
  shows "store_ok (H(p := None)) (C(client_id c := None)) (S(server_id c := None)) n"
proof (rule store_okI)
  fix i r assume "(C(client_id c := None)) i = Some r"
  then show "i \<noteq> NON_ID \<and> (\<exists>d. (H(p := None)) r = Some d \<and> client_id d = i)"
    using store_okD(1) [OF ok] c by (fastforce split: if_splits)
next
  fix i r assume "(S(server_id c := None)) i = Some r"
  then show "i \<noteq> NON_ID \<and> (\<exists>d. (H(p := None)) r = Some d \<and> server_id d = i)"
    using store_okD(2) [OF ok] c by (fastforce split: if_splits)
next
  fix r d assume a: "(H(p := None)) r = Some d"
  then have r: "H r = Some d" "r \<noteq> p" by (auto split: if_splits)
  have "C (client_id d) \<noteq> Some r \<or> client_id d \<noteq> client_id c" "S (server_id d) \<noteq> Some r \<or> server_id d \<noteq> server_id c"
    using store_okD(1,4) [OF ok] store_okD(2,5) [OF ok] r c by metis+
  then show "r < n \<and> conn_ok d \<and> ((C(client_id c := None)) (client_id d) = Some r \<or> (S(server_id c := None)) (server_id d) = Some r)"
    using store_okD(3) [OF ok r(1)] by auto
next
  fix r q d e assume "(H(p := None)) r = Some d" "(H(p := None)) q = Some e" "client_id d = client_id e" "client_id d \<noteq> NON_ID"
  then show "r = q" using store_okD(4) [OF ok] by (auto split: if_splits)
next
  fix r q d e assume "(H(p := None)) r = Some d" "(H(p := None)) q = Some e" "server_id d = server_id e" "server_id d \<noteq> NON_ID"
  then show "r = q" using store_okD(5) [OF ok] by (auto split: if_splits)
qed

lemma store_drop_client:
  assumes ok: "store_ok H C S n" and c: "H p = Some c" "S (server_id c) = Some p"
  shows "store_ok H (C(client_id c := None)) S n"
proof (rule store_okI)
  fix i r assume "(C(client_id c := None)) i = Some r"
  then show "i \<noteq> NON_ID \<and> (\<exists>d. H r = Some d \<and> client_id d = i)" using store_okD(1) [OF ok] by (auto split: if_splits)
next
  fix r d assume r: "H r = Some d"
  have "r = p" if "client_id d = client_id c" "C (client_id d) = Some r"
    using store_okD(1,4) [OF ok] r c(1) that by metis
  then show "r < n \<and> conn_ok d \<and> ((C(client_id c := None)) (client_id d) = Some r \<or> S (server_id d) = Some r)"
    using store_okD(3) [OF ok r] r c by auto
qed (use store_okD [OF ok] in blast)+

lemma store_drop_server:
  assumes ok: "store_ok H C S n" and c: "H p = Some c" "C (client_id c) = Some p"
  shows "store_ok H C (S(server_id c := None)) n"
proof (rule store_okI)
  fix i r assume "(S(server_id c := None)) i = Some r"
  then show "i \<noteq> NON_ID \<and> (\<exists>d. H r = Some d \<and> server_id d = i)" using store_okD(2) [OF ok] by (auto split: if_splits)
next
  fix r d assume r: "H r = Some d"
  have "r = p" if "server_id d = server_id c" "S (server_id d) = Some r"
    using store_okD(2,5) [OF ok] r c(1) that by metis
  then show "r < n \<and> conn_ok d \<and> (C (client_id d) = Some r \<or> (S(server_id c := None)) (server_id d) = Some r)"
    using store_okD(3) [OF ok r] r c by auto
qed (use store_okD [OF ok] in blast)+

text \<open>A server side for a connection that has none.\<close>

lemma store_attach:
  assumes ok: "store_ok H C S n" and c: "H p = Some c" "server_id c = NON_ID" "client_id c' = client_id c" "conn_ok c'"
    and new: "server_id c' \<noteq> NON_ID" "\<And>q d. H q = Some d \<Longrightarrow> server_id d \<noteq> server_id c'"
  shows "client_id c \<noteq> NON_ID \<and> store_ok (H(p \<mapsto> c')) (C(client_id c \<mapsto> p)) (S(server_id c' \<mapsto> p)) n"
proof -
  have owner: "C (client_id c) = Some p" using store_okD(3) [OF ok c(1)] store_no_id(2) [OF ok] c(2) by auto
  then have cid: "client_id c \<noteq> NON_ID" using store_okD(1) [OF ok] by blast
  have same: "C(client_id c \<mapsto> p) = C" using owner by (simp add: fun_upd_idem)
  have "store_ok (H(p \<mapsto> c')) C (S(server_id c' \<mapsto> p)) n"
  proof (rule store_okI)
    fix i r assume "C i = Some r"
    then show "i \<noteq> NON_ID \<and> (\<exists>d. (H(p \<mapsto> c')) r = Some d \<and> client_id d = i)" using store_okD(1) [OF ok] c by fastforce
  next
    fix i r assume "(S(server_id c' \<mapsto> p)) i = Some r"
    moreover have "r \<noteq> p" if "S i = Some r" using store_okD(2) [OF ok that] c(1,2) by auto
    ultimately show "i \<noteq> NON_ID \<and> (\<exists>d. (H(p \<mapsto> c')) r = Some d \<and> server_id d = i)"
      using store_okD(2) [OF ok] new by (auto split: if_splits)
  next
    fix r d assume "(H(p \<mapsto> c')) r = Some d"
    then show "r < n \<and> conn_ok d \<and> (C (client_id d) = Some r \<or> (S(server_id c' \<mapsto> p)) (server_id d) = Some r)"
      using store_okD(3) [OF ok] c new by (auto split: if_splits)
  next
    fix r q d e assume "(H(p \<mapsto> c')) r = Some d" "(H(p \<mapsto> c')) q = Some e" "client_id d = client_id e" "client_id d \<noteq> NON_ID"
    then show "r = q" using store_okD(4) [OF ok] c by (metis fun_upd_apply option.inject)
  next
    fix r q d e assume "(H(p \<mapsto> c')) r = Some d" "(H(p \<mapsto> c')) q = Some e" "server_id d = server_id e" "server_id d \<noteq> NON_ID"
    then show "r = q" using store_okD(5) [OF ok] new(2) by (metis fun_upd_apply option.inject)
  qed
  then show ?thesis using cid by (simp add: same)
qed

lemma store_new_client:
  assumes ok: "store_ok H C S n" and c: "client_id c \<noteq> NON_ID" "server_id c = NON_ID" "conn_ok c"
    and new: "\<And>q d. H q = Some d \<Longrightarrow> client_id d \<noteq> client_id c"
  shows "store_ok (H(n \<mapsto> c)) (C(client_id c \<mapsto> n)) S (n + 1)"
proof -
  have fresh: "H n = None" using store_okD(3) [OF ok, of n] by (cases "H n") auto
  have "C (client_id c) = None" using store_okD(1) [OF ok] new by (metis not_Some_eq)
  then show ?thesis
    using fresh c new store_okD [OF ok]
    by (intro store_okI; fastforce simp: less_Suc_eq split: if_splits)
qed

lemma store_new_server:
  assumes ok: "store_ok H C S n" and c: "server_id c \<noteq> NON_ID" "client_id c = NON_ID" "conn_ok c"
    and new: "\<And>q d. H q = Some d \<Longrightarrow> server_id d \<noteq> server_id c"
  shows "store_ok (H(n \<mapsto> c)) C (S(server_id c \<mapsto> n)) (n + 1)"
proof -
  have fresh: "H n = None" using store_okD(3) [OF ok, of n] by (cases "H n") auto
  have "S (server_id c) = None" using store_okD(2) [OF ok] new by (metis not_Some_eq)
  then show ?thesis
    using fresh c new store_okD [OF ok]
    by (intro store_okI; fastforce simp: less_Suc_eq split: if_splits)
qed

text \<open>The new connection of a migration takes over the client side of the old one.\<close>

lemma store_migrate:
  assumes ok: "store_ok H C S n" and c: "H p = Some c" "client_id c = NON_ID" and s: "H q = Some s" "C (client_id s) = Some q"
    and src: "S (server_id s) = Some q"
    and c': "client_id c' = client_id s" "server_id c' = server_id c" "conn_ok c'"
    and s': "client_id s' = NON_ID" "server_id s' = server_id s" "conn_ok s'"
  shows "p \<noteq> q \<and> client_id s \<noteq> NON_ID \<and> server_id c \<noteq> NON_ID \<and>
    store_ok (H(p \<mapsto> c', q \<mapsto> s')) (C(client_id s \<mapsto> p)) (S(server_id c \<mapsto> p)) n"
proof -
  have mid: "client_id s \<noteq> NON_ID" using store_okD(1) [OF ok s(2)] by simp
  have pq: "p \<noteq> q" using mid c s(1) by auto
  have owner: "S (server_id c) = Some p" using store_okD(3) [OF ok c(1)] store_no_id(1) [OF ok] c(2) by auto
  then have sid: "server_id c \<noteq> NON_ID" using store_okD(2) [OF ok] by blast
  have same: "S(server_id c \<mapsto> p) = S" using owner by (simp add: fun_upd_idem)
  have other: "r \<noteq> p \<and> r \<noteq> q" if "C i = Some r" "i \<noteq> client_id s" for i r
    using store_okD(1) [OF ok that(1)] that(2) c s by auto
  have before: "\<exists>d0. H r = Some d0 \<and> server_id d0 = server_id d"
    "client_id d \<noteq> NON_ID \<Longrightarrow> \<exists>r0 d0. H r0 = Some d0 \<and> client_id d0 = client_id d \<and> r = (if r0 = q then p else r0)"
    if "(H(p \<mapsto> c', q \<mapsto> s')) r = Some d" for r d
    using that c s c' s' by (auto split: if_splits)
  have "store_ok (H(p \<mapsto> c', q \<mapsto> s')) (C(client_id s \<mapsto> p)) S n"
  proof (rule store_okI)
    fix i r assume "(C(client_id s \<mapsto> p)) i = Some r"
    then show "i \<noteq> NON_ID \<and> (\<exists>d. (H(p \<mapsto> c', q \<mapsto> s')) r = Some d \<and> client_id d = i)"
      using store_okD(1) [OF ok] other mid pq c' by (auto split: if_splits)
  next
    fix i r assume "S i = Some r"
    then show "i \<noteq> NON_ID \<and> (\<exists>d. (H(p \<mapsto> c', q \<mapsto> s')) r = Some d \<and> server_id d = i)"
      using store_okD(2) [OF ok] c s c' s' by fastforce
  next
    fix r d assume r: "(H(p \<mapsto> c', q \<mapsto> s')) r = Some d"
    consider "r = q" "d = s'" | "r = p" "d = c'" | "r \<noteq> p" "r \<noteq> q" "H r = Some d" using r by (auto split: if_splits)
    then show "r < n \<and> conn_ok d \<and> ((C(client_id s \<mapsto> p)) (client_id d) = Some r \<or> S (server_id d) = Some r)"
    proof cases
      case 1
      then show ?thesis using store_okD(3) [OF ok s(1)] s' src by simp
    next
      case 2
      then show ?thesis using store_okD(3) [OF ok c(1)] c' by simp
    next
      case 3
      have "client_id d \<noteq> client_id s" using store_okD(4) [OF ok 3(3) s(1)] mid 3(2) by auto
      then show ?thesis using store_okD(3) [OF ok 3(3)] by simp
    qed
  next
    fix r k d e assume d: "(H(p \<mapsto> c', q \<mapsto> s')) r = Some d" and e: "(H(p \<mapsto> c', q \<mapsto> s')) k = Some e"
      and eq: "client_id d = client_id e" "client_id d \<noteq> NON_ID"
    show "r = k" using before(2) [OF d eq(2)] before(2) [OF e] eq store_okD(4) [OF ok] by metis
  next
    fix r k d e assume d: "(H(p \<mapsto> c', q \<mapsto> s')) r = Some d" and e: "(H(p \<mapsto> c', q \<mapsto> s')) k = Some e"
      and eq: "server_id d = server_id e" "server_id d \<noteq> NON_ID"
    show "r = k" using before(1) [OF d] before(1) [OF e] eq store_okD(5) [OF ok] by metis
  qed
  then show ?thesis using pq mid sid by (simp add: same)
qed

section \<open>The invariant of the tunnel\<close>

definition tn_inv :: "('c, 't, 's) tunnel_state \<Rightarrow> bool" where
  "tn_inv t \<longleftrightarrow>
     distinct (map fst (by_client_id t)) \<and> distinct (map fst (by_server_id t)) \<and>
     store_ok (map_of (heap t)) (map_of (by_client_id t)) (map_of (by_server_id t)) (next_ref t) \<and> tn_dangling t = []"

lemma tn_emit_frame [simp]:
  "heap (tn_emit x t) = heap t" "by_client_id (tn_emit x t) = by_client_id t" "by_server_id (tn_emit x t) = by_server_id t"
  "next_ref (tn_emit x t) = next_ref t" "tn_dangling (tn_emit x t) = tn_dangling t" "tn_out (tn_emit x t) = tn_out t @ [x]"
  "tn_fake_upstream (tn_emit x t) = tn_fake_upstream t" "tn_dns_resolver (tn_emit x t) = tn_dns_resolver t"
  "tn_dns_handler (tn_emit x t) = tn_dns_handler t" "tn_filter (tn_emit x t) = tn_filter t"
  "event_result (tn_emit x t) = event_result t" "dns_resolve_waiters (tn_emit x t) = dns_resolve_waiters t"
  "endpoint_upstream_connected (tn_emit x t) = endpoint_upstream_connected t"
  by (simp_all add: tn_emit_def)

lemma tn_fault_frame [simp]:
  "heap (tn_fault f t) = heap t" "by_client_id (tn_fault f t) = by_client_id t" "by_server_id (tn_fault f t) = by_server_id t"
  "next_ref (tn_fault f t) = next_ref t" "tn_dangling (tn_fault f t) = tn_dangling t" "tn_out (tn_fault f t) = tn_out t"
  by (simp_all add: tn_fault_def)

lemma tn_result_frame [simp]:
  "heap (tn_result r t) = heap t" "by_client_id (tn_result r t) = by_client_id t" "by_server_id (tn_result r t) = by_server_id t"
  "next_ref (tn_result r t) = next_ref t" "tn_dangling (tn_result r t) = tn_dangling t" "tn_out (tn_result r t) = tn_out t"
  "event_result (tn_result r t) = Some r"
  by (simp_all add: tn_result_def)

lemma put_conn_frame [simp]:
  "by_client_id (put_conn p c t) = by_client_id t" "by_server_id (put_conn p c t) = by_server_id t"
  "next_ref (put_conn p c t) = next_ref t" "tn_dangling (put_conn p c t) = tn_dangling t" "tn_out (put_conn p c t) = tn_out t"
  "tn_fake_upstream (put_conn p c t) = tn_fake_upstream t" "tn_dns_resolver (put_conn p c t) = tn_dns_resolver t"
  "tn_dns_handler (put_conn p c t) = tn_dns_handler t" "tn_filter (put_conn p c t) = tn_filter t"
  "event_result (put_conn p c t) = event_result t" "map_of (heap (put_conn p c t)) = (map_of (heap t))(p \<mapsto> c)"
  by (simp_all add: put_conn_def update_conv')

lemma tn_inv_emit [simp]: "tn_inv (tn_emit x t) = tn_inv t" "tn_inv (tn_fault f t) = tn_inv t" "tn_inv (tn_result r t) = tn_inv t"
  by (simp_all add: tn_inv_def)

lemma tn_inv_fields [simp]:
  "tn_inv (t\<lparr>dns_resolve_waiters := w\<rparr>) = tn_inv t" "tn_inv (t\<lparr>endpoint_upstream_connected := b\<rparr>) = tn_inv t"
  "tn_inv (t\<lparr>tn_filter := f\<rparr>) = tn_inv t" "tn_inv (t\<lparr>tn_icmp := im\<rparr>) = tn_inv t"
  "tn_inv (t\<lparr>last_health_check_at := x\<rparr>) = tn_inv t" "tn_inv (t\<lparr>exclusions_resolve_task := b\<rparr>) = tn_inv t"
  "tn_inv (t\<lparr>tn_sleeping := b\<rparr>) = tn_inv t" "tn_inv (t\<lparr>tn_dns_resolver := r\<rparr>) = tn_inv t"
  "tn_inv (t\<lparr>tn_fake_upstream := r\<rparr>) = tn_inv t" "tn_inv (t\<lparr>tn_dns_handler := r\<rparr>) = tn_inv t"
  "tn_inv (t\<lparr>statistics_monitor := b\<rparr>) = tn_inv t" "tn_inv (t\<lparr>event_result := e\<rparr>) = tn_inv t"
  by (simp_all add: tn_inv_def)

lemma with_conn_Some [simp]: "map_of (heap t) p = Some c \<Longrightarrow> with_conn p f t = f c t"
  by (simp add: with_conn_def)

lemma tn_inv_client: "tn_inv t \<Longrightarrow> get_by_client_id i t = Some p \<Longrightarrow> i \<noteq> NON_ID \<and> (\<exists>c. map_of (heap t) p = Some c \<and> client_id c = i)"
  unfolding tn_inv_def get_by_client_id_def using store_okD(1) by blast

lemma tn_inv_server: "tn_inv t \<Longrightarrow> get_by_server_id i t = Some p \<Longrightarrow> i \<noteq> NON_ID \<and> (\<exists>c. map_of (heap t) p = Some c \<and> server_id c = i)"
  unfolding tn_inv_def get_by_server_id_def using store_okD(2) by blast

lemma tn_inv_conn:
  "tn_inv t \<Longrightarrow> map_of (heap t) p = Some c \<Longrightarrow>
     p < next_ref t \<and> conn_ok c \<and> (get_by_client_id (client_id c) t = Some p \<or> get_by_server_id (server_id c) t = Some p)"
  unfolding tn_inv_def get_by_client_id_def get_by_server_id_def using store_okD(3) by blast

lemma tn_inv_put:
  "tn_inv t \<Longrightarrow> map_of (heap t) p = Some c \<Longrightarrow> client_id c' = client_id c \<Longrightarrow> server_id c' = server_id c \<Longrightarrow> conn_ok c' \<Longrightarrow>
     tn_inv (put_conn p c' t)"
  unfolding tn_inv_def using store_put by simp

text \<open>Updates that keep the identifiers.\<close>

definition keeps_ids :: "(vpn_connection \<Rightarrow> vpn_connection) \<Rightarrow> bool" where
  "keeps_ids f \<longleftrightarrow> (\<forall>c. client_id (f c) = client_id c \<and> server_id (f c) = server_id c \<and> (conn_ok c \<longrightarrow> conn_ok (f c)))"

lemma mod_conn_Some [simp]: "map_of (heap t) p = Some c \<Longrightarrow> mod_conn p f t = put_conn p (f c) t"
  by (simp add: mod_conn_def)

lemma tn_inv_mod: "tn_inv t \<Longrightarrow> map_of (heap t) p = Some c \<Longrightarrow> keeps_ids f \<Longrightarrow> tn_inv (mod_conn p f t)"
  using tn_inv_put [of t p c "f c"] tn_inv_conn [of t p c] by (simp add: keeps_ids_def)

lemma mod_flags_Some [simp]:
  "map_of (heap t) p = Some c \<Longrightarrow> mod_flags p f t = put_conn p (c\<lparr>vc_flags := f (vc_flags c)\<rparr>) t"
  by (simp add: mod_flags_def)

lemma conn_ok_fields [simp]:
  "conn_ok (c\<lparr>vc_flags := f\<rparr>) = conn_ok c" "conn_ok (c\<lparr>complete_task := x\<rparr>) = conn_ok c"
  "conn_ok (c\<lparr>send_buffered_task := y\<rparr>) = conn_ok c" "conn_ok (c\<lparr>buffered_packets := b\<rparr>) = conn_ok c"
  "conn_ok (c\<lparr>vc_extracted := r\<rparr>) = conn_ok c" "conn_ok (c\<lparr>vc_action := a\<rparr>) = conn_ok c"
  "conn_ok (c\<lparr>outgoing_bytes := n\<rparr>) = conn_ok c" "conn_ok (c\<lparr>incoming_bytes := n\<rparr>) = conn_ok c"
  "conn_ok (c\<lparr>lookup_attempts_num := k\<rparr>) = conn_ok c" "conn_ok (c\<lparr>vc_upstream := u\<rparr>) = conn_ok c"
  "conn_ok (c\<lparr>vc_app_name := s\<rparr>) = conn_ok c" "conn_ok (c\<lparr>vc_uid := k\<rparr>) = conn_ok c"
  "conn_ok (c\<lparr>vc_addr := ad\<rparr>) = conn_ok c" "conn_ok (c\<lparr>migrating_client_id := i\<rparr>) = conn_ok c"
  "conn_ok (c\<lparr>vc_state := CONNS_REJECTED\<rparr>)" "conn_ok (c\<lparr>vc_state := CONNS_CONNECTED\<rparr>)"
  "conn_ok (c\<lparr>vc_state := CONNS_WAITING_ACCEPT\<rparr>)" "conn_ok (c\<lparr>vc_state := CONNS_CONNECTED_MIGRATING\<rparr>)"
  "conn_ok (c\<lparr>vc_state := CONNS_WAITING_RESPONSE\<rparr>)"
  by (simp_all add: conn_ok_def)

section \<open>Closing\<close>

lemma cancel_resolve_frame [simp]:
  "tn_inv (cancel_destination_resolve c t) = tn_inv t" "heap (cancel_destination_resolve c t) = heap t"
  "by_client_id (cancel_destination_resolve c t) = by_client_id t" "by_server_id (cancel_destination_resolve c t) = by_server_id t"
  "next_ref (cancel_destination_resolve c t) = next_ref t" "tn_dangling (cancel_destination_resolve c t) = tn_dangling t"
  by (simp_all add: cancel_destination_resolve_def split: option.splits prod.splits)

definition found_conn :: "u64 \<Rightarrow> u64 \<Rightarrow> ('c, 't, 's) tunnel_state \<Rightarrow> nat option" where
  "found_conn cid sid t =
     (case (if cid \<noteq> NON_ID then get_by_client_id cid t else None) of
        Some p \<Rightarrow> Some p
      | None \<Rightarrow> if sid \<noteq> NON_ID then get_by_server_id sid t else None)"

lemma destroy_none: "found_conn cid sid t = None \<Longrightarrow> heap (destroy_connection env cid sid t) = heap t \<and>
    tn_inv (destroy_connection env cid sid t) = tn_inv t"
  by (simp add: destroy_connection_def found_conn_def Let_def)

lemma destroy_some:
  assumes "found_conn cid sid t = Some p" and "map_of (heap t) p = Some c"
  shows "heap (destroy_connection env cid sid t) = AList.delete p (heap t) \<and>
    by_client_id (destroy_connection env cid sid t) = AList.delete (client_id c) (by_client_id t) \<and>
    by_server_id (destroy_connection env cid sid t) = AList.delete (server_id c) (by_server_id t) \<and>
    next_ref (destroy_connection env cid sid t) = next_ref t \<and> tn_dangling (destroy_connection env cid sid t) = tn_dangling t"
  using assms unfolding destroy_connection_def Let_def found_conn_def [symmetric] by simp

lemma found_conn_exists: "tn_inv t \<Longrightarrow> found_conn cid sid t = Some p \<Longrightarrow> \<exists>c. map_of (heap t) p = Some c"
  using tn_inv_client [of t cid p] tn_inv_server [of t sid p] by (auto simp: found_conn_def split: option.splits if_splits)

lemma tn_inv_destroy:
  assumes inv: "tn_inv t"
  shows "tn_inv (destroy_connection env cid sid t)"
proof (cases "found_conn cid sid t")
  case (Some p)
  then obtain c where c: "map_of (heap t) p = Some c" using found_conn_exists [OF inv] by blast
  note d = destroy_some [OF Some c, of env]
  show ?thesis
    using inv store_destroy [of _ _ _ _ p c] c unfolding tn_inv_def
    by (simp add: d delete_conv' distinct_delete)
qed (simp add: destroy_none inv)

lemma tn_inv_client_closed:
  assumes inv: "tn_inv t"
  shows "tn_inv (client_connection_closed env i t)"
proof (cases "get_by_client_id i t")
  case None
  then show ?thesis using inv by (simp add: client_connection_closed_def)
next
  case (Some p)
  then obtain c where c: "map_of (heap t) p = Some c" "client_id c = i" using tn_inv_client [OF inv] by blast
  have dropped: "tn_inv (t\<lparr>by_client_id := AList.delete i (by_client_id t)\<rparr>)" if srv: "get_by_server_id (server_id c) t \<noteq> None"
  proof -
    obtain q where q: "get_by_server_id (server_id c) t = Some q" using srv by blast
    then have "q = p" using tn_inv_server [OF inv q] inv c store_okD(5) unfolding tn_inv_def by metis
    then show ?thesis
      using inv c q store_drop_client [of _ _ _ _ p c] unfolding tn_inv_def get_by_server_id_def
      by (simp add: delete_conv' distinct_delete)
  qed
  have frame: "tn_inv ((tn_emit x t)\<lparr>by_client_id := k\<rparr>) = tn_inv (t\<lparr>by_client_id := k\<rparr>)" for x k
    by (simp add: tn_inv_def)
  show ?thesis
    using tn_inv_destroy [OF inv] dropped c Some
    by (auto simp: client_connection_closed_def Let_def frame split: option.splits)
qed

lemma tn_inv_listener_close: "tn_inv t \<Longrightarrow> tn_inv (listener_close_connection env l i graceful async t)"
  by (simp add: listener_close_connection_def Let_def tn_inv_client_closed)

lemma tn_inv_fail_request:
  assumes "tn_inv t"
  shows "tn_inv (listener_fail_request env l i result t)"
proof -
  define t2 where "t2 = (if te_listener_closes env i then client_connection_closed env i (tn_emit (LsComplete l i result) t)
    else tn_emit (LsComplete l i result) t)"
  have inv: "tn_inv t2" using assms by (simp add: t2_def tn_inv_client_closed)
  have "tn_inv (mod_conn p (\<lambda>c. c\<lparr>vc_state := CONNS_REJECTED\<rparr>) t2)" if "get_by_client_id i t2 = Some p" for p
    using tn_inv_client [OF inv that] tn_inv_mod [OF inv] by (auto simp: keeps_ids_def)
  moreover have "listener_fail_request env l i result t = (if result = CCR_PASS then t2
      else case get_by_client_id i t2 of None \<Rightarrow> t2 | Some p \<Rightarrow> mod_conn p (\<lambda>c. c\<lparr>vc_state := CONNS_REJECTED\<rparr>) t2)"
    unfolding listener_fail_request_def Let_def t2_def by (rule refl)
  ultimately show ?thesis using inv by (simp split: option.splits)
qed

lemma tn_inv_close_connection:
  assumes inv: "tn_inv t" and p: "map_of (heap t) p \<noteq> None"
  shows "tn_inv (close_client_side_connection env p err async t)"
proof -
  obtain c where c: "map_of (heap t) p = Some c" using p by blast
  have "tn_inv (put_conn p (c\<lparr>complete_task := x\<rparr>) t)" for x
    using tn_inv_put [OF inv c] tn_inv_conn [OF inv c] by simp
  then show ?thesis
    using inv c by (simp add: close_client_side_connection_def Let_def tn_inv_destroy tn_inv_listener_close tn_inv_fail_request
        split: option.splits)
qed

lemma tn_inv_complete_task:
  assumes inv: "tn_inv t"
  shows "tn_inv (tunnel_complete_connect_request_task env i err t)"
proof (cases "get_by_client_id i t")
  case None
  then show ?thesis using inv by (simp add: tunnel_complete_connect_request_task_def)
next
  case (Some p)
  then obtain c where c: "map_of (heap t) p = Some c" using tn_inv_client [OF inv] by blast
  have "tn_inv (put_conn p (c\<lparr>complete_task := None\<rparr>) t)"
    using tn_inv_put [OF inv c] tn_inv_conn [OF inv c] by simp
  then show ?thesis
    using c Some by (simp add: tunnel_complete_connect_request_task_def Let_def tn_inv_destroy tn_inv_listener_close
        tn_inv_fail_request split: option.splits)
qed

lemma table_entry:
  assumes "tn_inv t" and "(i, p) \<in> set (by_client_id t)"
  shows "map_of (heap t) p \<noteq> None"
proof -
  have "get_by_client_id i t = Some p" using assms by (simp add: get_by_client_id_def tn_inv_def)
  then show ?thesis using tn_inv_client [OF assms(1)] by blast
qed

lemma select_connections_state: "tn_inv t \<Longrightarrow> snd (select_connections (by_client_id t) P t) = t"
proof -
  assume inv: "tn_inv t"
  have "filter (\<lambda>p. map_of (heap t) p = None) (map snd (by_client_id t)) = []"
    using table_entry [OF inv] by (fastforce simp: filter_empty_conv)
  then show ?thesis unfolding select_connections_def by simp
qed

lemma tn_inv_close_selected: "tn_inv t \<Longrightarrow> tn_inv (close_selected env mark i t)"
proof (cases "get_by_client_id i t")
  case (Some p)
  assume inv: "tn_inv t"
  obtain c where c: "map_of (heap t) p = Some c" using tn_inv_client [OF inv Some] by blast
  have "tn_inv (mod_flags p mark t)" using tn_inv_put [OF inv c] tn_inv_conn [OF inv c] c by simp
  then show ?thesis using Some c by (simp add: close_selected_def tn_inv_close_connection)
qed (simp add: close_selected_def)

lemma tn_inv_fold: "(\<And>x t. tn_inv t \<Longrightarrow> tn_inv (f x t)) \<Longrightarrow> tn_inv t \<Longrightarrow> tn_inv (fold f xs t)"
  by (induction xs arbitrary: t) simp_all

lemma tn_inv_close_ids:
  "tn_inv t \<Longrightarrow> tn_inv (let (ids, t1) = select_connections (by_client_id t) P t in fold (close_selected env mark) ids t1)"
  using select_connections_state [of t P] by (cases "select_connections (by_client_id t) P t") (simp add: tn_inv_fold tn_inv_close_selected)

lemma tn_inv_close_client_side: "tn_inv t \<Longrightarrow> tn_inv (close_client_side env u t)"
  using tn_inv_close_ids unfolding close_client_side_def by blast

lemma tn_inv_server_closed:
  assumes inv: "tn_inv t"
  shows "tn_inv (server_connection_closed env i t)"
proof (cases "get_by_server_id i t")
  case None
  then show ?thesis using inv by (simp add: server_connection_closed_def tn_inv_destroy)
next
  case (Some p)
  then obtain c where c: "map_of (heap t) p = Some c" "server_id c = i" using tn_inv_server [OF inv] by blast
  have dropped: "tn_inv (t\<lparr>by_server_id := AList.delete (server_id c) (by_server_id t)\<rparr>)" if "get_by_client_id (client_id c) t = Some q" for q
  proof -
    have "q = p" using tn_inv_client [OF inv that] inv c store_okD(4) unfolding tn_inv_def by metis
    then show ?thesis
      using inv c that store_drop_server [of _ _ _ _ p c] unfolding tn_inv_def get_by_client_id_def
      by (simp add: delete_conv' distinct_delete)
  qed
  show ?thesis
    using tn_inv_destroy [OF inv] dropped c Some
    by (auto simp: server_connection_closed_def Let_def split: option.splits intro!: tn_inv_close_connection)
qed

lemma tn_inv_upstream_close: "tn_inv t \<Longrightarrow> tn_inv (upstream_close_connection env u i graceful async t)"
  by (simp add: upstream_close_connection_def Let_def tn_inv_server_closed)

section \<open>Steps that change no identifier\<close>

definition conn_core :: "vpn_connection \<Rightarrow> u64 \<times> u64 \<times> conn_state" where
  "conn_core c = (client_id c, server_id c, vc_state c)"

definition calm :: "('c, 't, 's) tunnel_state \<Rightarrow> ('c, 't, 's) tunnel_state \<Rightarrow> bool" where
  "calm t t' \<longleftrightarrow>
     tn_inv t' \<and> map_option conn_core \<circ> map_of (heap t') = map_option conn_core \<circ> map_of (heap t) \<and>
     by_client_id t' = by_client_id t \<and> by_server_id t' = by_server_id t"

lemma calm_refl: "tn_inv t \<Longrightarrow> calm t t"
  by (simp add: calm_def)

lemma calm_trans: "calm t t' \<Longrightarrow> calm t' t'' \<Longrightarrow> calm t t''"
  by (simp add: calm_def)

lemma calm_inv: "calm t t' \<Longrightarrow> tn_inv t'"
  by (simp add: calm_def)

lemma calm_conn:
  assumes "calm t t'" and "map_of (heap t) p = Some c"
  shows "\<exists>c'. map_of (heap t') p = Some c' \<and> client_id c' = client_id c \<and> server_id c' = server_id c \<and> vc_state c' = vc_state c"
proof -
  have "map_option conn_core (map_of (heap t') p) = map_option conn_core (map_of (heap t) p)"
    using assms(1) unfolding calm_def by (metis comp_apply)
  then show ?thesis using assms(2) by (auto simp: conn_core_def)
qed

lemma calm_conn_back:
  assumes "calm t t'" and "map_of (heap t') p = Some c'"
  shows "\<exists>c. map_of (heap t) p = Some c \<and> client_id c' = client_id c \<and> server_id c' = server_id c \<and> vc_state c' = vc_state c"
proof -
  have "map_option conn_core (map_of (heap t') p) = map_option conn_core (map_of (heap t) p)"
    using assms(1) unfolding calm_def by (metis comp_apply)
  then show ?thesis using assms(2) by (cases "map_of (heap t) p") (auto simp: conn_core_def)
qed

lemma calm_emit: "tn_inv t \<Longrightarrow> calm t (tn_emit x t)" "tn_inv t \<Longrightarrow> calm t (tn_fault f t)" "tn_inv t \<Longrightarrow> calm t (tn_result r t)"
  "tn_inv t \<Longrightarrow> calm t (t\<lparr>tn_filter := g\<rparr>)"
  by (simp_all add: calm_def)

lemma calm_put:
  assumes "tn_inv t" and "map_of (heap t) p = Some c" and "conn_core c' = conn_core c"
  shows "calm t (put_conn p c' t)"
proof -
  have "conn_ok c'" using tn_inv_conn [OF assms(1,2)] assms(3) by (simp add: conn_ok_def conn_core_def)
  then have "tn_inv (put_conn p c' t)" using tn_inv_put [OF assms(1,2)] assms(3) by (simp add: conn_core_def)
  then show ?thesis using assms(2,3) by (auto simp: calm_def)
qed

definition fresh_server_ids :: "('c, 't, 's) tunnel_env \<Rightarrow> ('c, 't, 's) tunnel_state \<Rightarrow> bool" where
  "fresh_server_ids env t \<longleftrightarrow>
     (\<forall>u p c. te_open_result env u \<noteq> NON_ID \<longrightarrow> map_of (heap t) p = Some c \<longrightarrow> server_id c \<noteq> te_open_result env u)"

lemma calm_fresh: "calm t t' \<Longrightarrow> fresh_server_ids env t \<Longrightarrow> fresh_server_ids env t'"
  unfolding fresh_server_ids_def using calm_conn_back by metis

lemma calm_health_check: "tn_inv t \<Longrightarrow> calm t (do_health_check env u force t)"
  by (simp add: do_health_check_def calm_def split: option.splits)

lemma calm_report:
  assumes inv: "tn_inv t" and c: "map_of (heap t) p = Some c"
  shows "calm t (report_connection_info env p d t)"
proof -
  have "calm t (put_conn p (c\<lparr>vc_flags := f\<rparr>) t)" for f using calm_put [OF inv c] by (simp add: conn_core_def)
  then have "calm t (tn_emit x (put_conn p (c\<lparr>vc_flags := f\<rparr>) t))" for x f by (simp add: calm_def)
  then show ?thesis
    using c calm_refl [OF inv] by (simp add: report_connection_info_def Let_def split: tunnel_address.splits)
qed

section \<open>Opening\<close>

lemma tn_inv_attach:
  assumes inv: "tn_inv t" and c: "map_of (heap t) p = Some c" "server_id c = NON_ID"
    and t': "map_of (heap t') = (map_of (heap t))(p \<mapsto> c')" "by_client_id t' = by_client_id t" "by_server_id t' = by_server_id t"
      "next_ref t' = next_ref t" "tn_dangling t' = tn_dangling t"
    and c': "client_id c' = client_id c" "conn_ok c'" "server_id c' \<noteq> NON_ID"
    and new: "\<And>q d. map_of (heap t) q = Some d \<Longrightarrow> server_id d \<noteq> server_id c'"
  shows "tn_inv (add_connection p t')"
proof -
  have s: "store_ok (map_of (heap t)) (map_of (by_client_id t)) (map_of (by_server_id t)) (next_ref t)" using inv by (simp add: tn_inv_def)
  have "map_of (heap t') p = Some c'" by (simp add: t')
  then show ?thesis
    using store_attach [OF s c c'(1,2,3) new] inv c'
    by (simp add: tn_inv_def add_connection_def Let_def t' update_conv' distinct_update)
qed

lemma tn_inv_open_on_upstream:
  assumes inv: "tn_inv t" and c: "map_of (heap t) p = Some c" "server_id c = NON_ID" and new: "fresh_server_ids env t"
  shows "tn_inv (open_on_upstream env p upstream t)"
proof (cases upstream)
  case None
  then show ?thesis using c inv by (simp add: open_on_upstream_def tn_inv_close_connection)
next
  case (Some u)
  define c1 where "c1 = c\<lparr>vc_flags := (vc_flags c)\<lparr>CONNF_FAKE_CONNECTION := (tn_fake_upstream t = Some u)\<rparr>, server_id := te_open_result env u\<rparr>"
  define t1 where "t1 = put_conn p c1 (tn_emit (UpOpen u (vc_addr c) (vc_proto c) (vc_app_name c) (te_open_result env u))
     (put_conn p (c\<lparr>vc_flags := (vc_flags c)\<lparr>CONNF_FAKE_CONNECTION := (tn_fake_upstream t = Some u)\<rparr>\<rparr>) t))"
  have heap1: "map_of (heap t1) = (map_of (heap t))(p \<mapsto> c1)" by (simp add: t1_def)
  have rest1: "by_client_id t1 = by_client_id t" "by_server_id t1 = by_server_id t" "next_ref t1 = next_ref t" "tn_dangling t1 = tn_dangling t"
    "tn_dns_resolver t1 = tn_dns_resolver t" by (simp_all add: t1_def)
  show ?thesis
  proof (cases "te_open_result env u = NON_ID")
    case True
    have "conn_ok c1" using tn_inv_conn [OF inv c(1)] c(2) True by (simp add: conn_ok_def c1_def)
    then have "tn_inv (put_conn p c1 t)" using tn_inv_put [OF inv c(1), of c1] c(2) True by (simp add: c1_def)
    then have "tn_inv t1" using heap1 rest1 by (simp add: tn_inv_def)
    then show ?thesis using True heap1 Some c by (simp add: open_on_upstream_def c1_def t1_def tn_inv_close_connection)
  next
    case False
    define t2 where "t2 = add_connection p (put_conn p (c1\<lparr>vc_state := CONNS_WAITING_RESPONSE\<rparr>) t1)"
    have "tn_inv t2" unfolding t2_def
      by (rule tn_inv_attach [OF inv c, where c' = "c1\<lparr>vc_state := CONNS_WAITING_RESPONSE\<rparr>"])
         (use False new in \<open>auto simp: heap1 rest1 c1_def fresh_server_ids_def\<close>)
    then have "tn_inv (do_health_check env upstream False (if b then tn_emit x t2 else t2))" for b x
      using calm_health_check calm_inv by (metis tn_inv_emit(1))
    then show ?thesis
      using False Some c heap1 unfolding open_on_upstream_def Let_def t2_def t1_def c1_def by simp
  qed
qed

lemma waiting_action_no_server:
  "tn_inv t \<Longrightarrow> map_of (heap t) p = Some c \<Longrightarrow> vc_state c \<in> {CONNS_WAITING_ACTION, CONNS_WAITING_RESOLVE} \<Longrightarrow> server_id c = NON_ID"
  using tn_inv_conn unfolding conn_ok_def by blast

lemma tn_inv_complete_routed:
  assumes inv: "tn_inv t" and c: "map_of (heap t) p = Some c" "vc_state c = CONNS_WAITING_ACTION" and new: "fresh_server_ids env t"
  shows "tn_inv (complete_routed env p act t)"
proof -
  have srv: "server_id c = NON_ID" using waiting_action_no_server [OF inv c(1)] c(2) by simp
  have ups: "calm t (put_conn p (c\<lparr>vc_upstream := x\<rparr>) t)" for x using calm_put [OF inv c(1)] by (simp add: conn_core_def)
  have opened: "tn_inv (open_on_upstream env p u (put_conn p (c\<lparr>vc_upstream := u\<rparr>) t))" for u
    by (rule tn_inv_open_on_upstream [OF calm_inv [OF ups], where c = "c\<lparr>vc_upstream := u\<rparr>"])
       (use srv calm_fresh [OF ups new] in simp_all)
  have refused: "tn_inv (close_client_side_connection env p e True (put_conn p (c\<lparr>vc_upstream := u\<rparr>) t))" for e u
    using calm_inv [OF ups] by (simp add: tn_inv_close_connection)
  have resolving: "tn_inv (put_conn p (c\<lparr>vc_state := CONNS_WAITING_RESOLVE\<rparr>) t')"
    if "tn_inv t' = tn_inv t" "heap t' = heap t" for t' :: "('a, 'b, 'c) tunnel_state"
    using tn_inv_put [of t' p c "c\<lparr>vc_state := CONNS_WAITING_RESOLVE\<rparr>"] that inv c srv by (simp add: conn_ok_def)
  show ?thesis
    using c inv by (simp add: complete_routed_def Let_def tn_inv_close_connection opened refused resolving split: option.splits)
qed

lemma tn_inv_complete_connect_request:
  assumes inv: "tn_inv t" and new: "fresh_server_ids env t"
    and waiting: "\<And>p c. get_by_client_id i t = Some p \<Longrightarrow> map_of (heap t) p = Some c \<Longrightarrow> vc_state c = CONNS_WAITING_ACTION"
  shows "tn_inv (complete_connect_request env i act t)"
proof (cases "get_by_client_id i t")
  case None
  then show ?thesis using inv by (simp add: complete_connect_request_def)
next
  case (Some p)
  then obtain c where c: "map_of (heap t) p = Some c" using tn_inv_client [OF inv] by blast
  have flagged: "calm t (put_conn p (c\<lparr>vc_flags := f\<rparr>) t)" for f using calm_put [OF inv c] by (simp add: conn_core_def)
  have "tn_inv (complete_routed env p a (put_conn p (c\<lparr>vc_flags := f\<rparr>) t))" for a f
    by (rule tn_inv_complete_routed [OF calm_inv [OF flagged], where c = "c\<lparr>vc_flags := f\<rparr>"])
       (use waiting [OF Some c] calm_fresh [OF flagged new] in simp_all)
  then show ?thesis
    using Some c inv by (simp add: complete_connect_request_def tn_inv_close_connection split: option.splits vpn_connect_action.splits)
qed

lemma calm_set_action:
  "tn_inv t \<Longrightarrow> map_of (heap t) p = Some c \<Longrightarrow> calm t (mod_conn p (\<lambda>c. c\<lparr>vc_action := a\<rparr>) t)"
  using calm_put [of t p c "c\<lparr>vc_action := a\<rparr>"] by (simp add: conn_core_def)

lemma calm_set_action_report:
  assumes inv: "tn_inv t" and c: "map_of (heap t) p = Some c"
  shows "calm t (report_connection_info env p d (mod_conn p (\<lambda>c. c\<lparr>vc_action := a\<rparr>) t))"
proof -
  have one: "calm t (mod_conn p (\<lambda>c. c\<lparr>vc_action := a\<rparr>) t)" by (rule calm_set_action [OF assms])
  obtain c' where "map_of (heap (mod_conn p (\<lambda>c. c\<lparr>vc_action := a\<rparr>) t)) p = Some c'" using calm_conn [OF one c] by blast
  then show ?thesis using calm_report [OF calm_inv [OF one]] calm_trans [OF one] by blast
qed

lemma calm_finalize:
  assumes inv: "tn_inv t"
  shows "calm t (snd (tunnel_finalize_connect_action env req t))"
proof (cases "get_by_client_id (req_id req) t")
  case None
  then show ?thesis using calm_refl [OF inv] by (simp add: tunnel_finalize_connect_action_def)
next
  case (Some p)
  then obtain c where c: "map_of (heap t) p = Some c" using tn_inv_client [OF inv] by blast
  define c1 where "c1 = (let app = (if appname req \<noteq> [] then appname req else vc_app_name c)
       in c\<lparr>vc_app_name := (if te_windows env then process_name app else app), vc_uid := uid req\<rparr>)"
  define t1 where "t1 = put_conn p c1 t"
  have one: "calm t t1" unfolding t1_def by (rule calm_put [OF inv c]) (simp add: conn_core_def c1_def Let_def)
  have c1: "map_of (heap t1) p = Some c1" by (simp add: t1_def)
  note inv1 = calm_inv [OF one]
  have flags: "calm t1 (mod_flags p f t1)" for f using calm_put [OF inv1 c1] c1 by (simp add: conn_core_def)
  have fault: "calm t1 (mod_conn p (\<lambda>c. c\<lparr>vc_action := a\<rparr>) (tn_fault f t1))" for a f
    using calm_set_action [of "tn_fault f t1" p c1 a] inv1 c1 calm_trans [OF calm_emit(2) [OF inv1, of f]] by simp
  note steps = calm_set_action [OF inv1 c1] calm_set_action_report [OF inv1 c1] flags fault
  have t1_eq: "mod_conn p (\<lambda>c. let app = (if appname req \<noteq> [] then appname req else vc_app_name c)
       in c\<lparr>vc_app_name := (if te_windows env then process_name app else app), vc_uid := uid req\<rparr>) t = t1"
    using c by (simp add: t1_def c1_def)
  have "snd (tunnel_finalize_connect_action env req t) \<in> {t'. calm t1 t'}"
    unfolding tunnel_finalize_connect_action_def Some option.case Let_def t1_eq [unfolded Let_def] snd_conv with_conn_Some [OF c1]
    by (auto simp: steps split: tunnel_address.splits match_status.splits)
  then show ?thesis using calm_trans [OF one] by simp
qed

section \<open>Resolved destinations\<close>

lemma tn_inv_open_resolved:
  assumes inv: "tn_inv t" and c: "map_of (heap t) p = Some c" "vc_state c = CONNS_WAITING_RESOLVE" and new: "fresh_server_ids env t"
  shows "tn_inv (open_resolved env p a0 t)"
proof -
  have srv: "server_id c = NON_ID" using waiting_action_no_server [OF inv c(1)] c(2) by simp
  have opened: "tn_inv (do_health_check env u False (add_connection p (put_conn p c' (tn_emit x t))))"
    if "client_id c' = client_id c" "server_id c' = te_open_result env v" "te_open_result env v \<noteq> NON_ID" "vc_state c' = CONNS_WAITING_RESPONSE"
    for u v c' x
    by (rule calm_inv [OF calm_health_check], rule tn_inv_attach [OF inv c(1) srv, where c' = c'])
       (use that new in \<open>auto simp: conn_ok_def fresh_server_ids_def\<close>)
  have refused: "tn_inv (close_client_side_connection env p 0 False (put_conn p c' t'))"
    if "client_id c' = client_id c" "server_id c' = NON_ID" "vc_state c' = CONNS_WAITING_RESOLVE" "tn_inv t'" "heap t' = heap t"
    for c' and t' :: "('a, 'b, 'c) tunnel_state"
    by (rule tn_inv_close_connection, rule tn_inv_put [of t' p c]) (use that c srv in \<open>simp_all add: conn_ok_def\<close>)
  show ?thesis
    using c srv inv by (auto simp: open_resolved_def Let_def opened refused split: option.splits)
qed

lemma tn_inv_resolve_result:
  assumes inv: "tn_inv t" and new: "fresh_server_ids env t"
  shows "tn_inv (on_destination_resolve_result env r result t)"
proof (cases "map_of (dns_resolve_waiters t) r")
  case None
  then show ?thesis using inv by (simp add: on_destination_resolve_result_def)
next
  case (Some i)
  show ?thesis
  proof (cases "get_by_client_id i t")
    case None
    then show ?thesis using inv Some by (simp add: on_destination_resolve_result_def Let_def)
  next
    case p: (Some p)
    then obtain c where c: "map_of (heap t) p = Some c" using tn_inv_client [OF inv] by blast
    have resolved: "tn_inv (open_resolved env p a (t'\<lparr>dns_resolve_waiters := w\<rparr>))"
      if "tn_inv t'" "heap t' = heap t" "vc_state c = CONNS_WAITING_RESOLVE" for a w and t' :: "('a, 'b, 'c) tunnel_state"
      by (rule tn_inv_open_resolved [where c = c]) (use that c new in \<open>simp_all add: fresh_server_ids_def\<close>)
    show ?thesis
      using Some p c inv
      by (simp add: on_destination_resolve_result_def Let_def tn_inv_close_connection resolved split: option.splits)
  qed
qed

section \<open>Data and migration\<close>

lemma calm_lookup:
  assumes inv: "tn_inv t" and c: "map_of (heap t) p = Some c"
  shows "calm t (snd (pass_through_domain_lookup env p data c t))"
proof -
  have put: "calm t (put_conn p (c\<lparr>vc_extracted := r\<rparr>) t)" for r using calm_put [OF inv c] by (simp add: conn_core_def)
  have twice: "calm t (put_conn p (c\<lparr>vc_extracted := r, vc_action := a\<rparr>) (put_conn p (c\<lparr>vc_extracted := r\<rparr>) t))" for r a
    by (rule calm_trans [OF put], rule calm_put [OF calm_inv [OF put], where c = "c\<lparr>vc_extracted := r\<rparr>"]) (simp_all add: conn_core_def)
  have filtered: "calm t (t'\<lparr>tn_filter := f\<rparr>)" if "calm t t'" for f and t' :: "('a, 'b, 'c) tunnel_state"
    using that by (simp add: calm_def)
  have put_filter: "put_conn p x (t'\<lparr>tn_filter := f\<rparr>) = (put_conn p x t')\<lparr>tn_filter := f\<rparr>" for x f and t' :: "('a, 'b, 'c) tunnel_state"
    by (simp add: put_conn_def)
  have "calm t (snd (apply_extracted env p r c t))" for r
    by (simp add: apply_extracted_def Let_def put twice filtered put_filter split: extractor_status.splits)
  then show ?thesis using calm_refl [OF inv] by (simp add: pass_through_domain_lookup_def split: sum.splits)
qed

lemma send_packets_frame:
  "send_packets env u c ps t = (failed, zero, left, sent, t') \<Longrightarrow>
     heap t' = heap t \<and> by_client_id t' = by_client_id t \<and> by_server_id t' = by_server_id t \<and> tn_inv t' = tn_inv t"
proof (induction ps arbitrary: t failed zero left sent t')
  case (Cons packet rest)
  define r where "r = te_send_result env (length (tn_out t)) packet"
  define t1 where "t1 = tn_emit (UpSend u (server_id c) packet r) t"
  define t2 where "t2 = (if CONNF_MONITOR_STATS (vc_flags c) then tn_emit (StatsUpload (client_id c) (nat r)) t1 else t1)"
  have fr: "heap t2 = heap t" "by_client_id t2 = by_client_id t" "by_server_id t2 = by_server_id t" "tn_inv t2 = tn_inv t"
    "heap t1 = heap t" "by_client_id t1 = by_client_id t" "by_server_id t1 = by_server_id t" "tn_inv t1 = tn_inv t"
    by (simp_all add: t2_def t1_def)
  obtain f z l s t3 where rec: "send_packets env u c rest t2 = (f, z, l, s, t3)" by (metis prod_cases5)
  have step: "send_packets env u c (packet # rest) t =
      (if 0 \<le> r \<and> nat r = length packet then (f, z, l, s + nat r, t3)
       else if r < 0 then (True, False, packet # rest, 0, t1)
       else if r = 0 then (False, True, packet # rest, 0, t1)
       else (False, False, drop (nat r) packet # rest, 0, t1))"
    unfolding send_packets.simps Let_def r_def [symmetric] t1_def [symmetric] t2_def [symmetric] rec by simp
  then show ?case using Cons(1) [OF rec] Cons(2) fr by (simp split: if_splits)
qed simp

lemma calm_send_buffered:
  assumes inv: "tn_inv t"
  shows "calm t (snd (send_buffered_data env i t))"
proof (cases "get_by_client_id i t")
  case None
  then show ?thesis using calm_refl [OF inv] by (simp add: send_buffered_data_def)
next
  case (Some p)
  then obtain c0 where c0: "map_of (heap t) p = Some c0" using tn_inv_client [OF inv] by blast
  define c where "c = c0\<lparr>send_buffered_task := None\<rparr>"
  have t0: "calm t (put_conn p c t)" unfolding c_def by (rule calm_put [OF inv c0]) (simp add: conn_core_def)
  have sent: "calm t (put_conn p (c\<lparr>buffered_packets := left, outgoing_bytes := n\<rparr>) t1)"
    if "send_packets env u c (buffered_packets c) (put_conn p c t) = (failed, zero, left, sent, t1)" for u failed zero left sent t1 n
  proof -
    note fr = send_packets_frame [OF that]
    have "calm t t1" using t0 fr by (simp add: calm_def)
    moreover have "map_of (heap t1) p = Some c" using fr by simp
    ultimately show ?thesis using calm_trans calm_put [OF calm_inv] by (fastforce simp: conn_core_def)
  qed
  have more: "calm t (tn_emit y (tn_emit x t'))" if "calm t t'" for x y and t' :: "('a, 'b, 'c) tunnel_state" using that by (simp add: calm_def)
  show ?thesis
    using Some c0 t0 by (auto simp: send_buffered_data_def Let_def more sent simp flip: c_def split: option.splits prod.splits)
qed

lemma calm_schedule:
  "tn_inv t \<Longrightarrow> map_of (heap t) p = Some c \<Longrightarrow> calm t (schedule_send_buffered_data p t)"
  using calm_put [of t p c "c\<lparr>send_buffered_task := Some (client_id c)\<rparr>"] by (simp add: schedule_send_buffered_data_def conn_core_def)

lemma tn_inv_new_server:
  assumes inv: "tn_inv t" and c: "server_id c \<noteq> NON_ID" "client_id c = NON_ID" "conn_ok c"
    and new: "\<And>q d. map_of (heap t) q = Some d \<Longrightarrow> server_id d \<noteq> server_id c"
  shows "tn_inv (add_connection (next_ref t) (t\<lparr>heap := (next_ref t, c) # heap t, next_ref := next_ref t + 1\<rparr>))"
  using inv store_new_server [OF _ c new] c
  by (simp add: tn_inv_def add_connection_def Let_def update_conv' distinct_update)

lemma add_connection_frame [simp]:
  "map_of (heap t) p = Some c \<Longrightarrow> heap (add_connection p t) = heap t"
  by (simp add: add_connection_def Let_def)

lemma tn_inv_migrate:
  assumes inv: "tn_inv t" and c: "map_of (heap t) p = Some c" and new: "fresh_server_ids env t"
  shows "tn_inv (snd (initiate_connection_migration env p upstream packet t)) \<and>
    map_of (heap (snd (initiate_connection_migration env p upstream packet t))) p \<noteq> None"
proof (cases "upstream = None \<or> te_open_result env (the upstream) = NON_ID")
  case True
  then show ?thesis using inv c by (auto simp: initiate_connection_migration_def Let_def split: option.splits)
next
  case False
  then obtain u where u: "upstream = Some u" "te_open_result env u \<noteq> NON_ID" by auto
  define t0 where "t0 = tn_emit (UpOpen u (vc_addr c) (vc_proto c) [] (te_open_result env u)) t"
  define q where "q = next_ref t0"
  define sw0 where "sw0 = vpn_connection_make NON_ID (vc_addr c) (vc_proto c)"
  define sw where "sw = sw0\<lparr>server_id := te_open_result env u, vc_listener := vc_listener c, vc_upstream := Some u,
     vc_state := CONNS_WAITING_RESPONSE_MIGRATING,
     vc_flags := (vc_flags sw0)\<lparr>CONNF_LOOKINGUP_DOMAIN := CONNF_LOOKINGUP_DOMAIN (vc_flags c)\<rparr>,
     migrating_client_id := client_id c, vc_app_name := vc_app_name c, vc_extracted := vc_extracted c\<rparr>"
  define t1 where "t1 = add_connection q (t0\<lparr>heap := (q, sw) # heap t0, next_ref := q + 1\<rparr>)"
  have sw: "server_id sw = te_open_result env u" "client_id sw = NON_ID" "conn_ok sw"
    by (simp_all add: sw_def sw0_def vpn_connection_make_def conn_ok_def)
  have inv1: "tn_inv t1" unfolding t1_def q_def
    by (rule tn_inv_new_server) (use inv u new sw in \<open>auto simp: t0_def fresh_server_ids_def\<close>)
  have pq: "p \<noteq> q" using tn_inv_conn [OF inv c] by (simp add: q_def t0_def)
  have h1: "map_of (heap t1) q = Some sw" "map_of (heap t1) p = Some c"
    using pq c by (simp_all add: t1_def t0_def)
  have buf: "calm t1 (put_conn q (sw\<lparr>buffered_packets := b\<rparr>) t1)" for b
    by (rule calm_put [OF inv1 h1(1)]) (simp add: conn_core_def)
  have two: "calm t1 (put_conn p (c\<lparr>buffered_packets := b\<rparr>) (if udp then t1 else put_conn q (sw\<lparr>buffered_packets := b'\<rparr>) t1))" for b b' udp
    by (rule calm_trans [of _ "if udp then t1 else put_conn q (sw\<lparr>buffered_packets := b'\<rparr>) t1"], use buf calm_refl [OF inv1] in simp,
        rule calm_put [where c = c]) (use buf calm_inv inv1 h1 pq in \<open>auto simp: conn_core_def\<close>)
  have final: "tn_inv (put_conn p (c\<lparr>buffered_packets := b, vc_state := CONNS_CONNECTED_MIGRATING\<rparr>) t')"
    if still: "calm t1 t'" for b and t' :: "('a, 'b, 'c) tunnel_state"
  proof -
    obtain c' where "map_of (heap t') p = Some c'" "client_id c' = client_id c" "server_id c' = server_id c" using calm_conn [OF still h1(2)] by blast
    then show ?thesis using tn_inv_put [OF calm_inv [OF still]] by simp
  qed
  have emit: "calm t1 (tn_emit x t')" if "calm t1 t'" for x and t' :: "('a, 'b, 'c) tunnel_state" using that by (simp add: calm_def)
  have heal: "tn_inv (do_health_check env v False t') \<and> (map_of (heap (do_health_check env v False t')) p \<noteq> None) = (map_of (heap t') p \<noteq> None)"
    if "tn_inv t'" for v and t' :: "('a, 'b, 'c) tunnel_state"
    using calm_health_check [OF that] calm_conn calm_conn_back calm_inv by (metis not_None_eq)
  note both = two [where udp = True, simplified] two [where udp = False, simplified]
  note steps = both [THEN calm_inv] both [THEN final] both [THEN emit, THEN final]
  have "initiate_connection_migration env p upstream packet t =
      (let udp = (vc_proto c = IPPROTO_UDP);
           c1 = (if udp then c\<lparr>buffered_packets := buffered_packets c @ [packet]\<rparr> else c\<lparr>buffered_packets := []\<rparr>);
           t2 = put_conn p c1 (if udp then t1 else put_conn q (sw\<lparr>buffered_packets := buffered_packets c\<rparr>) t1)
       in case (udp, lock_listener env c) of
            (False, None) \<Rightarrow> (- 1, t2)
          | (_, l) \<Rightarrow>
              (let t3 = (case (udp, l) of (False, Some l') \<Rightarrow> tn_emit (LsTurnRead l' (client_id c) False) t2 | _ \<Rightarrow> t2);
                   t4 = put_conn p (c1\<lparr>vc_state := CONNS_CONNECTED_MIGRATING\<rparr>) t3;
                   t5 = (case lock_upstream env c of
                           Some u' \<Rightarrow> tn_emit (UpFlowControl u' (server_id c) no_flow) t4
                         | None \<Rightarrow> t4)
               in (if udp then int (length packet) else 0, do_health_check env (Some u) False t5)))"
    unfolding t1_def sw_def sw0_def q_def t0_def initiate_connection_migration_def u(1) c prod.case option.case Let_def if_not_P [OF u(2)]
    by (rule refl)
  then show ?thesis using h1 heal
    by (cases "vc_proto c = IPPROTO_UDP"; cases "lock_listener env c"; cases "lock_upstream env c") (simp_all add: Let_def steps)
qed

end
