(* ===== verification/TT_Tunnel_Reachable.thy ===== *)
theory TT_Tunnel_Reachable
  imports TT_Tunnel_Safety
begin

text \<open>
  The events of the upstreams and of the listeners, the tasks and the calls of the client keep the
  invariant of the tunnel; the states that any sequence of them reaches; and what holds in all of them:
  no use after free, no leak, and nothing left after the tunnel is destroyed.
\<close>

section \<open>The handlers of the upstreams\<close>

lemma tn_inv_accepted:
  assumes inv: "tn_inv t"
  shows "tn_inv (client_connection_accepted env l i t)"
proof (cases "get_by_client_id i t")
  case None
  then show ?thesis using inv by (simp add: client_connection_accepted_def)
next
  case (Some p)
  then obtain c where c: "map_of (heap t) p = Some c" using tn_inv_client [OF inv] by blast
  have on: "tn_inv (put_conn p (c\<lparr>vc_state := CONNS_CONNECTED\<rparr>) t)" using tn_inv_put [OF inv c] by simp
  have flag: "tn_inv (put_conn p (c\<lparr>vc_state := CONNS_CONNECTED, vc_flags := f\<rparr>) (tn_emit y (tn_emit x (put_conn p (c\<lparr>vc_state := CONNS_CONNECTED\<rparr>) t))))"
    for f x y by (rule tn_inv_put [where c = "c\<lparr>vc_state := CONNS_CONNECTED\<rparr>"]) (use on in simp_all)
  show ?thesis
    using Some c inv on flag by (simp add: client_connection_accepted_def Let_def tn_inv_close_connection split: option.splits)
qed

lemma tn_inv_pass_request: "tn_inv t \<Longrightarrow> tn_inv (listener_pass_request env l i t)"
  by (simp add: listener_pass_request_def Let_def tn_inv_accepted)

text \<open>
  Closing a connection that no listener knows on its upstream removes that connection and no other.
\<close>

lemma upstream_close_orphan:
  assumes inv: "tn_inv t" and q: "map_of (heap t) q = Some s" "client_id s = NON_ID" and p: "map_of (heap t) p = Some c" "p \<noteq> q"
  shows "map_of (heap (upstream_close_connection env u (server_id s) graceful async t)) p = Some c \<and>
    (i \<noteq> NON_ID \<longrightarrow> get_by_client_id i (upstream_close_connection env u (server_id s) graceful async t) = get_by_client_id i t) \<and>
    (j \<noteq> server_id s \<longrightarrow> get_by_server_id j (upstream_close_connection env u (server_id s) graceful async t) = get_by_server_id j t)"
proof -
  define t1 where "t1 = tn_emit (UpClose u (server_id s) graceful async) t"
  have inv1: "tn_inv t1" and q1: "map_of (heap t1) q = Some s" and p1: "map_of (heap t1) p = Some c"
    and tab: "get_by_client_id i t1 = get_by_client_id i t" "get_by_server_id j t1 = get_by_server_id j t"
    using inv q p by (simp_all add: t1_def get_by_client_id_def get_by_server_id_def)
  have none: "get_by_client_id NON_ID t1 = None" using tn_inv_client [OF inv1] by (cases "get_by_client_id NON_ID t1") auto
  have srv: "get_by_server_id (server_id s) t1 = Some q" "server_id s \<noteq> NON_ID"
    using tn_inv_conn [OF inv1 q1] none q(2) tn_inv_server [OF inv1] by auto
  have "found_conn NON_ID (server_id s) t1 = Some q" using srv by (simp add: found_conn_def)
  note d = destroy_some [OF this q1, of env]
  have "server_connection_closed env (server_id s) t1 = destroy_connection env NON_ID (server_id s) t1"
    using srv q1 q(2) none by (simp add: server_connection_closed_def)
  then show ?thesis
    using p p1 q(2) d tab unfolding upstream_close_connection_def Let_def t1_def [symmetric]
    by (simp add: get_by_client_id_def get_by_server_id_def delete_conv')
qed

lemma tn_inv_take_over:
  assumes inv: "tn_inv t" and c: "map_of (heap t) p = Some c" "client_id c = NON_ID"
    and s: "map_of (heap t) q = Some s" "get_by_client_id (client_id s) t = Some q" "get_by_server_id (server_id s) t = Some q"
    and t': "map_of (heap t') = (map_of (heap t))(p \<mapsto> c', q \<mapsto> s')" "by_client_id t' = by_client_id t" "by_server_id t' = by_server_id t"
      "next_ref t' = next_ref t" "tn_dangling t' = tn_dangling t"
    and c': "client_id c' = client_id s" "server_id c' = server_id c" "conn_ok c'"
    and s': "client_id s' = NON_ID" "server_id s' = server_id s" "conn_ok s'"
  shows "tn_inv (add_connection p t')"
proof -
  have st: "store_ok (map_of (heap t)) (map_of (by_client_id t)) (map_of (by_server_id t)) (next_ref t)" using inv by (simp add: tn_inv_def)
  note m = store_migrate [OF st c s(1) s(2) [unfolded get_by_client_id_def] s(3) [unfolded get_by_server_id_def] c' s']
  have "map_of (heap t') p = Some c'" using m by (simp add: t')
  then show ?thesis
    using m inv c' by (simp add: tn_inv_def add_connection_def Let_def t' update_conv' distinct_update)
qed

lemma tn_inv_swap_buffers:
  assumes inv: "tn_inv t" and h: "map_of (heap t) p = Some c" "map_of (heap t) q = Some s" "p \<noteq> q"
  shows "tn_inv (mod_conn q (\<lambda>s. s\<lparr>buffered_packets := a\<rparr>) (mod_conn p (\<lambda>c. c\<lparr>buffered_packets := b\<rparr>) t))"
proof -
  have one: "tn_inv (mod_conn p (\<lambda>c. c\<lparr>buffered_packets := b\<rparr>) t)" using tn_inv_mod [OF inv h(1)] by (simp add: keeps_ids_def)
  show ?thesis by (rule tn_inv_mod [OF one, where c = s]) (use h in \<open>simp_all add: keeps_ids_def\<close>)
qed

lemma taken_over:
  assumes inv: "tn_inv t" and c: "map_of (heap t) p = Some c" "client_id c = NON_ID"
    and s: "map_of (heap t) q = Some s" "get_by_client_id (client_id s) t = Some q" "get_by_server_id (server_id s) t = Some q"
  obtains t3 c3 s3 where "tn_inv t3" "map_of (heap t3) p = Some c3" "map_of (heap t3) q = Some s3" "p \<noteq> q" "tn_out t3 = tn_out t"
    "client_id s3 = NON_ID" "server_id s3 = server_id s" "client_id c3 = client_id s" "server_id c3 = server_id c" "vc_state c3 = CONNS_CONNECTED"
    "buffered_packets c3 = (if vc_proto c = IPPROTO_UDP then buffered_packets s else buffered_packets c)"
    "get_by_client_id (client_id s) t3 = Some p" "get_by_server_id (server_id c) t3 = Some p"
    "finish_migration env u l p q c t = with_conn p (\<lambda>c t.
            if buffered_packets c \<noteq> [] then schedule_send_buffered_data p t
            else tn_emit (UpFlowControl u (server_id c) (te_flow_control env l (client_id c)))
                   (tn_emit (LsTurnRead l (client_id c) True) t))
       (case lock_upstream env s of Some u' \<Rightarrow> upstream_close_connection env u' (server_id s) False False t3 | None \<Rightarrow> t3)"
proof -
  define t1 where "t1 = mod_conn q (\<lambda>s. s\<lparr>client_id := client_id c\<rparr>) (mod_conn p (\<lambda>c. c\<lparr>client_id := client_id s\<rparr>) t)"
  define t2 where "t2 = add_connection p (mod_conn p (\<lambda>c. c\<lparr>vc_state := CONNS_CONNECTED, migrating_client_id := NON_ID\<rparr>) t1)"
  define t3 where "t3 = (if vc_proto c = IPPROTO_UDP
                 then mod_conn q (\<lambda>s. s\<lparr>buffered_packets := buffered_packets c\<rparr>)
                        (mod_conn p (\<lambda>c. c\<lparr>buffered_packets := buffered_packets s\<rparr>) t2)
                 else t2)"
  define s' where "s' = s\<lparr>client_id := NON_ID\<rparr>"
  define c' where "c' = c\<lparr>client_id := client_id s, vc_state := CONNS_CONNECTED, migrating_client_id := NON_ID\<rparr>"
  have ids: "client_id s \<noteq> NON_ID" "server_id c \<noteq> NON_ID"
    using tn_inv_client [OF inv] tn_inv_server [OF inv] tn_inv_conn [OF inv c(1)] s c(2) by auto
  then have pq: "p \<noteq> q" using c s by auto
  have t1: "map_of (heap t1) = (map_of (heap t))(p \<mapsto> c\<lparr>client_id := client_id s\<rparr>, q \<mapsto> s')"
    "by_client_id t1 = by_client_id t" "by_server_id t1 = by_server_id t" "next_ref t1 = next_ref t" "tn_dangling t1 = tn_dangling t"
    "tn_out t1 = tn_out t"
    using pq c s by (simp_all add: t1_def s'_def fun_upd_twist)
  have ok: "conn_ok s'" "conn_ok c'" using tn_inv_conn [OF inv s(1)] by (simp_all add: s'_def c'_def conn_ok_def)
  have inv2: "tn_inv t2" unfolding t2_def
    by (rule tn_inv_take_over [OF inv c s, where c' = c' and s' = s'])
      (use t1 pq ok in \<open>simp_all add: c'_def s'_def fun_upd_twist\<close>)
  have h2: "map_of (heap t2) p = Some c'" "map_of (heap t2) q = Some s'"
    "get_by_client_id (client_id s) t2 = Some p" "get_by_server_id (server_id c) t2 = Some p" "tn_out t2 = tn_out t"
    using t1 pq ids by (simp_all add: t2_def c'_def add_connection_def Let_def get_by_client_id_def get_by_server_id_def update_conv')
  define c3 where "c3 = (if vc_proto c = IPPROTO_UDP then c'\<lparr>buffered_packets := buffered_packets s\<rparr> else c')"
  define s3 where "s3 = (if vc_proto c = IPPROTO_UDP then s'\<lparr>buffered_packets := buffered_packets c\<rparr> else s')"
  have eq: "finish_migration env u l p q c t = with_conn p (\<lambda>c t.
            if buffered_packets c \<noteq> [] then schedule_send_buffered_data p t
            else tn_emit (UpFlowControl u (server_id c) (te_flow_control env l (client_id c)))
                   (tn_emit (LsTurnRead l (client_id c) True) t))
       (case lock_upstream env s of Some u' \<Rightarrow> upstream_close_connection env u' (server_id s) False False t3 | None \<Rightarrow> t3)"
    unfolding finish_migration_def with_conn_Some [OF s(1)] Let_def t3_def t2_def t1_def by (rule refl)
  show ?thesis
    by (rule that [of t3 c3 s3])
      (use eq inv2 tn_inv_swap_buffers [OF inv2 h2(1,2) pq] h2 pq in
        \<open>simp_all add: t3_def c3_def s3_def c'_def s'_def get_by_client_id_def get_by_server_id_def\<close>)
qed

lemma tn_inv_finish_migration:
  assumes "tn_inv t" and "map_of (heap t) p = Some c" "client_id c = NON_ID"
    and "map_of (heap t) q = Some s" "get_by_client_id (client_id s) t = Some q" "get_by_server_id (server_id s) t = Some q"
  shows "tn_inv (finish_migration env u l p q c t)"
proof -
  obtain t3 c3 s3 where inv3: "tn_inv t3" and h3: "map_of (heap t3) p = Some c3" "map_of (heap t3) q = Some s3" "p \<noteq> q"
    "client_id s3 = NON_ID" "server_id s3 = server_id s"
    and eq: "finish_migration env u l p q c t = with_conn p (\<lambda>c t.
            if buffered_packets c \<noteq> [] then schedule_send_buffered_data p t
            else tn_emit (UpFlowControl u (server_id c) (te_flow_control env l (client_id c)))
                   (tn_emit (LsTurnRead l (client_id c) True) t))
       (case lock_upstream env s of Some u' \<Rightarrow> upstream_close_connection env u' (server_id s) False False t3 | None \<Rightarrow> t3)"
    by (rule taken_over [OF assms, of env u l])
  define t4 where "t4 = (case lock_upstream env s of Some u' \<Rightarrow> upstream_close_connection env u' (server_id s) False False t3 | None \<Rightarrow> t3)"
  have inv4: "tn_inv t4" using inv3 by (simp add: t4_def tn_inv_upstream_close split: option.splits)
  have h4: "map_of (heap t4) p = Some c3"
    using upstream_close_orphan [OF inv3 h3(2,4,1,3)] h3 by (simp add: t4_def split: option.splits)
  have "tn_inv (schedule_send_buffered_data p t4)" by (rule calm_inv [OF calm_schedule [OF inv4 h4]])
  then show ?thesis using h4 inv4 unfolding eq t4_def [symmetric] by simp
qed

text \<open>The connection that is being migrated still has its old server side.\<close>

definition source_attached :: "u64 \<Rightarrow> ('c, 't, 's) tunnel_state \<Rightarrow> bool" where
  "source_attached i t =
     (case Option.bind (get_by_server_id i t) (map_of (heap t)) of
        None \<Rightarrow> True
      | Some c \<Rightarrow>
          vc_state c = CONNS_WAITING_RESPONSE_MIGRATING \<longrightarrow>
          (case get_by_client_id (migrating_client_id c) t of
             None \<Rightarrow> True
           | Some q \<Rightarrow>
               (case map_of (heap t) q of None \<Rightarrow> True | Some s \<Rightarrow> get_by_server_id (server_id s) t = Some q)))"

lemma tn_inv_server_opened:
  assumes inv: "tn_inv t" and src: "source_attached i t"
  shows "tn_inv (server_connection_opened env u i t)"
proof (cases "get_by_server_id i t")
  case None
  then show ?thesis using inv by (simp add: server_connection_opened_def)
next
  case (Some p)
  then obtain c where c: "map_of (heap t) p = Some c" using tn_inv_server [OF inv] by blast
  have reported: "tn_inv (mod_conn p (\<lambda>c. c\<lparr>vc_state := CONNS_WAITING_ACCEPT\<rparr>) (report_connection_info env p d t))" for d
  proof -
    note r = calm_report [OF inv c, of env d]
    obtain c' where "map_of (heap (report_connection_info env p d t)) p = Some c'" using calm_conn [OF r c] by blast
    then show ?thesis using tn_inv_mod [OF calm_inv [OF r]] by (simp add: keeps_ids_def)
  qed
  have migrated: "tn_inv (finish_migration env u l p q c t)"
    if st: "vc_state c = CONNS_WAITING_RESPONSE_MIGRATING" and q: "get_by_client_id (migrating_client_id c) t = Some q" for q l
  proof -
    obtain s where s: "map_of (heap t) q = Some s" "client_id s = migrating_client_id c" using tn_inv_client [OF inv q] by blast
    have "client_id c = NON_ID" using tn_inv_conn [OF inv c] st by (simp add: conn_ok_def)
    moreover have "get_by_server_id (server_id s) t = Some q" using src Some c st q s by (simp add: source_attached_def)
    ultimately show ?thesis using tn_inv_finish_migration [OF inv c _ s(1)] s(2) q by simp
  qed
  show ?thesis
    using Some c inv tn_inv_pass_request [OF reported] migrated
    by (simp add: server_connection_opened_def Let_def split: option.splits conn_state.splits)
qed

lemma tn_inv_server_read:
  assumes inv: "tn_inv t"
  shows "tn_inv (server_read env u i data t)"
proof (cases "get_by_server_id i t")
  case None
  then show ?thesis using inv by (simp add: server_read_def)
next
  case (Some p)
  then obtain c where c: "map_of (heap t) p = Some c" using tn_inv_server [OF inv] by blast
  define look where "look = (if CONNF_LOOKINGUP_DOMAIN (vc_flags c) then pass_through_domain_lookup env p data c t else (TDLA_PASS, t))"
  have calm1: "calm t (snd look)" using calm_lookup [OF inv c] calm_refl [OF inv] by (simp add: look_def)
  then obtain c1 where c1: "map_of (heap (snd look)) p = Some c1" using calm_conn [OF _ c] by blast
  define t2 where "t2 = (if fst look = TDLA_DONE then mod_flags p (\<lambda>f. f\<lparr>CONNF_LOOKINGUP_DOMAIN := False\<rparr>) (snd look) else snd look)"
  have inv2: "tn_inv t2"
    using calm_inv [OF calm1] calm_inv [OF calm_put [OF calm_inv [OF calm1] c1]] c1 by (simp add: t2_def conn_core_def)
  obtain c2 where c2: "map_of (heap t2) p = Some c2" using c1 by (cases "fst look = TDLA_DONE") (simp_all add: t2_def)
  have add: "tn_inv (put_conn p (c2\<lparr>incoming_bytes := n\<rparr>) (tn_result r (tn_emit x t2)))" for n r x
    by (rule tn_inv_put [where c = c2]) (use inv2 c2 tn_inv_conn [OF inv2 c2] in simp_all)
  have "server_read env u i data t =
      (if lock_upstream env c \<noteq> Some u then tn_fault (AssertFailed ''0'') (tn_result (- 1) t)
       else case lock_listener env c of
              None \<Rightarrow> tn_fault (AssertFailed ''0'') (tn_result (- 1) t)
            | Some l \<Rightarrow>
                if fst look = TDLA_SHUTDOWN then close_client_side_connection env p 0 False t2
                else if fst look = TDLA_BLOCK
                then close_client_side_connection env p (- 1) False (tn_emit (UpFlowControl u i no_flow) t2)
                else
                  (let r = te_listener_send env data;
                       t3 = tn_result r (tn_emit (LsSend l (client_id c) data r) t2)
                   in if r = 0 then tn_emit (UpFlowControl u (server_id c) no_flow) t3
                      else if 0 < r
                      then
                        (let t4 = mod_conn p (\<lambda>c. c\<lparr>incoming_bytes := incoming_bytes c + nat r\<rparr>) t3;
                             t5 = (if CONNF_MONITOR_STATS (vc_flags c)
                                   then tn_emit (StatsDownload (client_id c) (nat r)) t4 else t4)
                         in tn_emit (UpFlowControl u (server_id c) (te_flow_control env l (client_id c))) t5)
                      else t3))"
    unfolding server_read_def Some option.case with_conn_Some [OF c] look_def [symmetric] Let_def t2_def
    by (simp only: case_prod_beta)
  then show ?thesis using inv inv2 c2 add by (simp add: Let_def tn_inv_close_connection split: option.splits)
qed

lemma tn_inv_server_data_sent:
  assumes inv: "tn_inv t"
  shows "tn_inv (server_data_sent env u i len t)"
proof (cases "get_by_server_id i t")
  case None
  then show ?thesis using inv by (simp add: server_data_sent_def)
next
  case (Some p)
  then obtain c where c: "map_of (heap t) p = Some c" using tn_inv_server [OF inv] by blast
  have sched: "tn_inv (schedule_send_buffered_data p (tn_emit y (tn_emit x t)))" for x y
    by (rule calm_inv [OF calm_schedule]) (use inv c in simp_all)
  show ?thesis using Some c inv sched by (simp add: server_data_sent_def Let_def split: option.splits)
qed

lemma tn_inv_server_error:
  assumes inv: "tn_inv t"
  shows "tn_inv (server_error env u i e t)"
proof (cases "i = NON_ID \<or> get_by_server_id i t = None")
  case True
  then show ?thesis using inv by (auto simp: server_error_def tn_inv_destroy tn_inv_close_client_side)
next
  case False
  then obtain p where p: "i \<noteq> NON_ID" "get_by_server_id i t = Some p" by auto
  then obtain c where c: "map_of (heap t) p = Some c" using tn_inv_server [OF inv] by blast
  have dropped: "tn_inv (close_client_side_connection env p (ec e) False (t\<lparr>by_server_id := AList.delete (server_id c) (by_server_id t)\<rparr>))"
    if r: "get_by_client_id (client_id c) t = Some r" for r
  proof -
    have "r = p" using tn_inv_client [OF inv r] inv c store_okD(4) unfolding tn_inv_def by metis
    then have "tn_inv (t\<lparr>by_server_id := AList.delete (server_id c) (by_server_id t)\<rparr>)"
      using inv c r store_drop_server [of _ _ _ _ p c] unfolding tn_inv_def get_by_client_id_def
      by (simp add: delete_conv' distinct_delete)
    then show ?thesis using c by (simp add: tn_inv_close_connection)
  qed
  have source: "tn_inv (with_conn q (\<lambda>s. tn_emit (UpClose u (server_id s) False True)) t)" if "get_by_client_id j t = Some q" for j q
    using tn_inv_client [OF inv that] inv by auto
  show ?thesis
    using p c inv dropped source by (auto simp: server_error_def Let_def tn_inv_destroy split: option.splits)
qed

lemma tn_inv_upstream_handler:
  assumes inv: "tn_inv t" and src: "\<And>i. e = SERVER_EVENT_CONNECTION_OPENED i \<Longrightarrow> source_attached i t"
  shows "tn_inv (upstream_handler env u e t)"
proof (cases e)
  case (SERVER_EVENT_GET_AVAILABLE_TO_SEND i)
  have "tn_inv (with_conn p f t)" if "get_by_server_id i t = Some p" "\<And>c. tn_inv (f c t)" for p f
    using tn_inv_server [OF inv that(1)] that(2) by auto
  then show ?thesis using inv SERVER_EVENT_GET_AVAILABLE_TO_SEND by (simp split: option.splits)
qed (use assms in \<open>simp_all add: tn_inv_close_client_side tn_inv_server_opened tn_inv_server_closed tn_inv_server_read
       tn_inv_server_data_sent tn_inv_server_error server_echo_reply_def Let_def split: prod.splits\<close>)

section \<open>The handlers of the listeners\<close>

text \<open>The identifier of a request is none of a connection that exists.\<close>

definition fresh_client_id :: "u64 \<Rightarrow> ('c, 't, 's) tunnel_state \<Rightarrow> bool" where
  "fresh_client_id i t \<longleftrightarrow> i \<noteq> NON_ID \<and> list_all (\<lambda>(_, c). client_id c \<noteq> i) (heap t)"

lemma fresh_client_idD: "fresh_client_id i t \<Longrightarrow> map_of (heap t) p = Some c \<Longrightarrow> client_id c \<noteq> i"
  by (auto simp: fresh_client_id_def list_all_iff dest!: map_of_SomeD)

lemma tn_inv_new_client:
  assumes inv: "tn_inv t" and c: "client_id c \<noteq> NON_ID" "server_id c = NON_ID" "conn_ok c"
    and new: "\<And>q d. map_of (heap t) q = Some d \<Longrightarrow> client_id d \<noteq> client_id c"
  shows "tn_inv (add_connection (next_ref t) (t\<lparr>heap := (next_ref t, c) # heap t, next_ref := next_ref t + 1\<rparr>)) \<and>
    get_by_client_id (client_id c) (add_connection (next_ref t) (t\<lparr>heap := (next_ref t, c) # heap t, next_ref := next_ref t + 1\<rparr>)) = Some (next_ref t)"
  using inv store_new_client [OF _ c new] c
  by (simp add: tn_inv_def add_connection_def get_by_client_id_def Let_def update_conv' distinct_update)

lemma tn_inv_connect_request:
  assumes inv: "tn_inv t" and new: "fresh_client_id (cr_id ev) t" and ids: "fresh_server_ids env t"
  shows "tn_inv (client_connect_request env l ev t)"
proof -
  define d where "d = (case cr_dst ev of
                 TA_Name name port \<Rightarrow> (case te_ip_literal env name port of Some a \<Rightarrow> TA_Sock a | None \<Rightarrow> cr_dst ev)
               | TA_Sock _ \<Rightarrow> cr_dst ev)"
  define c0 where "c0 = vpn_connection_make (cr_id ev) \<lparr>src = cr_src ev, dst = d\<rparr> (cr_protocol ev)"
  define c where "c = c0\<lparr>vc_listener := Some l, vc_app_name := cr_app_name ev,
                 vc_flags := (vc_flags c0)\<lparr>CONNF_FIRST_PACKET := True\<rparr>\<rparr>"
  define t1 where "t1 = add_connection (next_ref t) (t\<lparr>heap := (next_ref t, c) # heap t, next_ref := next_ref t + 1\<rparr>)"
  have c: "client_id c = cr_id ev" "server_id c = NON_ID" "vc_state c = CONNS_WAITING_ACTION" "conn_ok c"
    by (simp_all add: c_def c0_def vpn_connection_make_def conn_ok_def)
  have one: "tn_inv t1" "get_by_client_id (cr_id ev) t1 = Some (next_ref t)"
    unfolding t1_def using tn_inv_new_client [OF inv, of c] c new fresh_client_idD [OF new] by (simp_all add: fresh_client_id_def)
  have h: "map_of (heap t1) = (map_of (heap t))(next_ref t \<mapsto> c)" by (simp add: t1_def)
  have ids1: "fresh_server_ids env t1" using ids c unfolding fresh_server_ids_def h by auto
  have completed: "tn_inv (complete_connect_request env (cr_id ev) act t1)" for act
    by (rule tn_inv_complete_connect_request [OF one(1) ids1]) (use one(2) h c in simp)
  have "client_connect_request env l ev t =
     (if Some l = tn_dns_resolver t1 then complete_connect_request env (client_id c) None t1
         else if Some l = te_dns_proxy_listener env
         then complete_connect_request env (client_id c) (Some VPN_CA_FORCE_REDIRECT) t1
         else if Some l = tn_dns_handler t1
         then complete_connect_request env (client_id c)
                (Some (if cr_dns_handler_bypass ev then VPN_CA_FORCE_BYPASS else VPN_CA_FORCE_REDIRECT)) t1
         else if \<not> CONNF_PLAIN_DNS_CONNECTION (vc_flags c) \<and>
                 (case cr_dst ev of TA_Sock s \<Rightarrow> te_is_loopback env s | TA_Name _ _ \<Rightarrow> False)
         then complete_connect_request env (client_id c) (Some VPN_CA_FORCE_BYPASS) t1
         else tn_emit (RaiseConnectRequest (cr_id ev) (cr_protocol ev) \<lparr>src = cr_src ev, dst = d\<rparr> (vc_app_name c)) t1)"
    unfolding client_connect_request_def Let_def t1_def c_def c0_def d_def by (rule refl)
  then show ?thesis using one completed c(1) by simp
qed

lemma calm_step:
  assumes "calm t t1" and "map_of (heap t) p = Some c" and "\<And>c1. map_of (heap t1) p = Some c1 \<Longrightarrow> calm t1 (f t1)"
  shows "calm t (f t1)"
  using calm_conn [OF assms(1,2)] assms(3) calm_trans [OF assms(1)] by blast

lemma calm_flags:
  assumes "calm t t1" and "map_of (heap t) p = Some c"
  shows "calm t (mod_flags p g t1)"
proof (rule calm_step [OF assms])
  fix c1 assume "map_of (heap t1) p = Some c1"
  then show "calm t1 (mod_flags p g t1)" using calm_put [OF calm_inv [OF assms(1)]] by (simp add: conn_core_def)
qed

lemma calm_reported:
  assumes "calm t t1" and "map_of (heap t) p = Some c"
  shows "calm t (report_connection_info env p d t1)"
  by (rule calm_step [OF assms]) (rule calm_report [OF calm_inv [OF assms(1)]])

lemma calm_buffer:
  assumes "calm t t1" and "map_of (heap t) p = Some c" and "\<And>c. conn_core (g c) = conn_core c"
  shows "calm t (mod_conn p g t1)"
proof (rule calm_step [OF assms(1,2)])
  fix c1 assume "map_of (heap t1) p = Some c1"
  then show "calm t1 (mod_conn p g t1)" using calm_put [OF calm_inv [OF assms(1)]] assms(3) by simp
qed

lemma tn_inv_migrate_client:
  assumes inv: "tn_inv t" and c: "map_of (heap t) p = Some c" and ids: "fresh_server_ids env t"
  shows "tn_inv (migrate_client env l p upstream i data g t)"
proof -
  obtain r t1 where m: "initiate_connection_migration env p upstream data t = (r, t1)" by fastforce
  then obtain c1 where t1: "tn_inv t1" "map_of (heap t1) p = Some c1" using tn_inv_migrate [OF inv c ids, of upstream data] by auto
  have "tn_inv (put_conn p (c1\<lparr>vc_flags := g (vc_flags c1)\<rparr>) (tn_result r t1))"
    by (rule tn_inv_put [where c = c1]) (use t1 tn_inv_conn [OF t1] in simp_all)
  then show ?thesis using t1 by (simp add: migrate_client_def m Let_def tn_inv_close_connection)
qed

lemma calm_more:
  "calm t t1 \<Longrightarrow> calm t (tn_emit x t1)" "calm t t1 \<Longrightarrow> calm t (tn_fault f t1)" "calm t t1 \<Longrightarrow> calm t (tn_result r t1)"
  by (simp_all add: calm_def)

lemma client_lookup_safe:
  assumes inv: "tn_inv t" and c: "map_of (heap t) p = Some c" and ids: "fresh_server_ids env t"
  shows "case client_lookup env l u p data c t of Inl t' \<Rightarrow> tn_inv t' | Inr t' \<Rightarrow> calm t t'"
proof -
  obtain look t1 where lk: "pass_through_domain_lookup env p data c t = (look, t1)" by fastforce
  then have t1: "calm t t1" using calm_lookup [OF inv c, of env data] by simp
  have tries: "calm t (mod_conn p (\<lambda>c. c\<lparr>lookup_attempts_num := lookup_attempts_num c + 1\<rparr>) t1)"
    by (rule calm_buffer [OF t1 c]) (simp add: conn_core_def)
  have keep: "calm t (mod_conn p (\<lambda>c. c\<lparr>buffered_packets := buffered_packets c @ [data]\<rparr>)
      (mod_conn p (\<lambda>c. c\<lparr>lookup_attempts_num := lookup_attempts_num c + 1\<rparr>) t1))"
    by (rule calm_buffer [OF tries c]) (simp add: conn_core_def)
  have stopped: "calm t (report_connection_info env p d (mod_flags p g t1))" for d g
    by (rule calm_reported [OF calm_flags [OF t1 c] c])
  have closed: "tn_inv (close_client_side_connection env p (- 1) True (tn_emit x t1))" for x
    using calm_conn [OF t1 c] calm_inv [OF t1] by (auto simp: tn_inv_close_connection)
  have migrated: "tn_inv (with_conn p (\<lambda>c t.
                     case vc_action c of
                       None \<Rightarrow> tn_fault (NullDeref ''conn->action'') t
                     | Some a \<Rightarrow>
                         migrate_client env l p (select_upstream env t a (Some c)) (client_id c) data
                           (\<lambda>f. f\<lparr>CONNF_FAKE_CONNECTION := False\<rparr>) t) t2)" if t2: "calm t t2" for t2
  proof -
    obtain c2 where c2: "map_of (heap t2) p = Some c2" using calm_conn [OF t2 c] by blast
    then show ?thesis
      using calm_inv [OF t2] tn_inv_migrate_client [OF calm_inv [OF t2] c2 calm_fresh [OF t2 ids]] by (simp split: option.splits)
  qed
  show ?thesis
    unfolding client_lookup_def lk prod.case Let_def
    by (cases look) (simp_all add: calm_inv [OF t1] calm_reported [OF t1 c] calm_reported [OF tries c] stopped closed migrated
        calm_inv [OF keep] calm_inv [OF stopped])
qed

lemma calm_client_send:
  assumes inv: "tn_inv t" and c: "map_of (heap t) p = Some c"
  shows "calm t (client_send env l u p data t)"
proof -
  define r where "r = te_send_result env (length (tn_out t)) data"
  define t1 where "t1 = tn_result r (tn_emit (UpSend u (server_id c) data r) t)"
  have t1: "calm t t1" by (simp add: t1_def calm_more calm_refl inv)
  have t2: "calm t (mod_conn p (\<lambda>c. c\<lparr>outgoing_bytes := outgoing_bytes c + nat r\<rparr>) t1)"
    by (rule calm_buffer [OF t1 c]) (simp add: conn_core_def)
  show ?thesis
    unfolding client_send_def with_conn_Some [OF c] Let_def r_def [symmetric] t1_def [symmetric]
    by (simp add: t1 t2 calm_more)
qed

lemma calm_client_forward:
  assumes inv: "tn_inv t" and c: "map_of (heap t) p = Some c"
  shows "calm t (client_forward env l u p data t)"
proof -
  obtain ok t1 where sb: "send_buffered_data env (client_id c) t = (ok, t1)" by fastforce
  then have t1: "calm t t1" using calm_send_buffered [OF inv, of env "client_id c"] by simp
  obtain c1 where c1: "map_of (heap t1) p = Some c1" using calm_conn [OF t1 c] by blast
  have put: "calm t (put_conn p (c\<lparr>buffered_packets := b\<rparr>) t)" for b by (rule calm_put [OF inv c]) (simp add: conn_core_def)
  show ?thesis
    unfolding client_forward_def with_conn_Some [OF c] sb Let_def prod.case with_conn_Some [OF c1]
    by (cases "vc_state c") (simp_all add: calm_more t1 put calm_refl inv calm_client_send [OF inv c] calm_trans [OF t1 calm_client_send [OF calm_inv [OF t1] c1]])
qed

lemma tn_inv_client_read:
  assumes inv: "tn_inv t" and ids: "fresh_server_ids env t"
  shows "tn_inv (client_read env l i data t)"
proof (cases "get_by_client_id i t")
  case None
  then show ?thesis using inv by (simp add: client_read_def)
next
  case (Some p)
  then obtain c where c: "map_of (heap t) p = Some c" using tn_inv_client [OF inv] by blast
  have second: "tn_inv (with_conn p (\<lambda>c t.
                       if CONNF_FAKE_CONNECTION (vc_flags c)
                       then
                         (let f = (vc_flags c)\<lparr>CONNF_FAKE_CONNECTION := False, CONNF_SUSPECT_EXCLUSION := False\<rparr>;
                              c1 = c\<lparr>vc_flags := f\<rparr>
                          in migrate_client env l p (select_upstream env t VPN_CA_DEFAULT (Some c1)) (client_id c1) data (\<lambda>f. f)
                               (put_conn p c1 t))
                       else
                         client_forward env l u p data
                           (put_conn p (c\<lparr>vc_flags := (vc_flags c)\<lparr>CONNF_FIRST_PACKET := False, CONNF_FAKE_CONNECTION := False\<rparr>\<rparr>) t)) t2)"
    if t2: "calm t t2" for t2 u
  proof -
    obtain c2 where c2: "map_of (heap t2) p = Some c2" using calm_conn [OF t2 c] by blast
    have put: "calm t (put_conn p (c2\<lparr>vc_flags := f\<rparr>) t2)" for f
      by (rule calm_trans [OF t2], rule calm_put [OF calm_inv [OF t2] c2]) (simp add: conn_core_def)
    have h: "map_of (heap (put_conn p (c2\<lparr>vc_flags := f\<rparr>) t2)) p = Some (c2\<lparr>vc_flags := f\<rparr>)" for f by simp
    show ?thesis
      using tn_inv_migrate_client [OF calm_inv [OF put] h calm_fresh [OF put ids]] calm_inv [OF calm_client_forward [OF calm_inv [OF put] h]] c2
      by (simp add: Let_def)
  qed
  have checked: "calm t (do_health_check env (Some u) False t)" for u by (rule calm_health_check [OF inv])
  have step: "tn_inv (case (if CONNF_LOOKINGUP_DOMAIN (vc_flags c) then client_lookup env l u p data c t1 else Inr t1) of
      Inl t2 \<Rightarrow> t2 | Inr t2 \<Rightarrow> g t2)" if t1: "t1 = do_health_check env (Some u) False t" and g: "\<And>t2. calm t t2 \<Longrightarrow> tn_inv (g t2)" for t1 u g
  proof -
    have h1: "map_of (heap t1) p = Some c" using c by (simp add: t1 do_health_check_def split: option.splits)
    have c1: "calm t t1" using checked t1 by simp
    show ?thesis
      using client_lookup_safe [OF calm_inv [OF c1] h1 calm_fresh [OF c1 ids], of l u data] g calm_trans [OF c1] c1
      by (auto split: sum.splits)
  qed
  show ?thesis
    unfolding client_read_def Let_def Some option.case with_conn_Some [OF c]
    using inv step [OF refl second [unfolded Let_def]] by (simp split: option.splits)
qed

lemma tn_inv_health_check: "tn_inv t \<Longrightarrow> tn_inv (do_health_check env u force t)"
  by (rule calm_inv [OF calm_health_check])

lemma tn_inv_client_data_sent:
  assumes inv: "tn_inv t"
  shows "tn_inv (client_data_sent env l i len t)"
proof (cases "get_by_client_id i t")
  case None
  then show ?thesis using inv by (simp add: client_data_sent_def)
next
  case (Some p)
  then obtain c where c: "map_of (heap t) p = Some c" using tn_inv_client [OF inv] by blast
  then show ?thesis
    using Some inv by (simp add: client_data_sent_def Let_def tn_inv_health_check split: option.splits)
qed

lemma tn_inv_client_icmp: "tn_inv t \<Longrightarrow> tn_inv (client_icmp_request env request t)"
  by (simp add: client_icmp_request_def Let_def tn_inv_health_check split: prod.splits icmp_message_status.splits option.splits)

lemma tn_inv_listener_handler:
  assumes inv: "tn_inv t" and ids: "fresh_server_ids env t"
    and new: "\<And>ev. e = CLIENT_EVENT_CONNECT_REQUEST ev \<Longrightarrow> fresh_client_id (cr_id ev) t"
  shows "tn_inv (listener_handler env l e t)"
  using assms
  by (cases e) (simp_all add: tn_inv_connect_request tn_inv_accepted tn_inv_client_closed tn_inv_client_read
      tn_inv_client_data_sent tn_inv_client_icmp)

section \<open>The other operations\<close>

lemma tn_inv_reset:
  "tn_inv t \<Longrightarrow> tn_inv (reset_connections_by_uid env k t)"
  "tn_inv t \<Longrightarrow> tn_inv (reset_connections_by_listener env l t)"
  "tn_inv t \<Longrightarrow> tn_inv (reset_connection env i t)"
  using tn_inv_close_ids tn_inv_close_selected
  unfolding reset_connections_by_uid_def reset_connections_by_listener_def reset_connection_def by blast+

lemma tn_inv_before_disconnect: "tn_inv t \<Longrightarrow> tn_inv (on_before_endpoint_disconnect env u t)"
  using tn_inv_close_ids [of "(tn_emit DnsStopResolving t)\<lparr>exclusions_resolve_task := False\<rparr>" "\<lambda>_. True" env "\<lambda>f. f"]
  by (simp add: on_before_endpoint_disconnect_def Let_def split: prod.splits)

lemma calm_mark:
  assumes inv: "tn_inv t" and c: "map_of (heap t) p = Some c"
  shows "calm t (session_closed_mark env u p t)"
  using c calm_refl [OF inv] calm_flags [OF calm_refl [OF inv] c]
  by (simp add: session_closed_mark_def Let_def calm_more split: option.splits)

lemma calm_marks:
  assumes "tn_inv t" and "\<And>p. p \<in> set ps \<Longrightarrow> map_of (heap t) p \<noteq> None"
  shows "calm t (fold (session_closed_mark env u) ps t)"
  using assms
proof (induction ps arbitrary: t)
  case (Cons p ps)
  obtain c where c: "map_of (heap t) p = Some c" using Cons.prems(2) [of p] by auto
  note one = calm_mark [OF Cons.prems(1) c, of env u]
  have "map_of (heap (session_closed_mark env u p t)) q \<noteq> None" if "q \<in> set ps" for q
    using Cons.prems(2) [of q] that calm_conn [OF one, of q] by fastforce
  then show ?case using calm_trans [OF one Cons.IH [OF calm_inv [OF one]]] by simp
qed (simp add: calm_refl)

lemma tn_inv_after_disconnect:
  assumes inv: "tn_inv t"
  shows "tn_inv (on_after_endpoint_disconnect env u t)"
proof -
  define t1 where "t1 = fold (session_closed_mark env u) (map snd (by_client_id t)) t"
  have "calm t t1" unfolding t1_def by (rule calm_marks [OF inv]) (use table_entry [OF inv] in auto)
  then have "tn_inv t1" by (rule calm_inv)
  moreover have "tn_inv (fold (server_connection_closed env) is t2)" if "tn_inv t2" for t2 "is"
    using tn_inv_fold [OF tn_inv_server_closed that] .
  ultimately show ?thesis unfolding on_after_endpoint_disconnect_def Let_def t1_def [symmetric] by simp
qed

lemma tn_inv_exclusions_updated: "tn_inv t \<Longrightarrow> tn_inv (on_exclusions_updated env t)"
  by (simp add: on_exclusions_updated_def Let_def tn_inv_fold)

lemmas small_operations =
  on_icmp_reply_ready_def update_dns_handler_parameters_def on_network_change_def tunnel_handle_sleep_def tunnel_handle_wake_def

section \<open>Destruction\<close>

lemma found_self:
  assumes inv: "tn_inv t" and c: "map_of (heap t) p = Some c"
  shows "found_conn (client_id c) (server_id c) t = Some p"
proof -
  have "q = p" if "get_by_client_id (client_id c) t = Some q" for q
    using tn_inv_client [OF inv that] inv c store_okD(4) unfolding tn_inv_def by metis
  then show ?thesis
    using tn_inv_conn [OF inv c] tn_inv_client [OF inv] tn_inv_server [OF inv]
    by (cases "get_by_client_id (client_id c) t") (auto simp: found_conn_def)
qed

lemma clean_connection:
  assumes inv: "tn_inv t" and c: "map_of (heap t) p = Some c"
  shows "tn_inv (clean_connection_table env p t) \<and>
    by_client_id (clean_connection_table env p t) = AList.delete (client_id c) (by_client_id t) \<and>
    by_server_id (clean_connection_table env p t) = AList.delete (server_id c) (by_server_id t)"
  using destroy_some [OF found_self [OF assms] c] tn_inv_destroy [OF inv] c by (simp add: clean_connection_table_def)

lemma clean_clients:
  assumes "tn_inv t" and "set (by_client_id t) \<subseteq> set es"
  shows "tn_inv (clean_table env by_client_id es t) \<and> by_client_id (clean_table env by_client_id es t) = []"
  using assms
proof (induction es arbitrary: t)
  case (Cons e es)
  obtain i p where e: "e = (i, p)" by fastforce
  show ?case
  proof (cases "map_of (by_client_id t) i = Some p")
    case True
    then obtain c where c: "map_of (heap t) p = Some c" "client_id c = i"
      using tn_inv_client [OF Cons.prems(1)] by (metis get_by_client_id_def)
    have "set (AList.delete i (by_client_id t)) \<subseteq> set es" using Cons.prems(2) e by (auto simp: AList.delete_eq)
    then show ?thesis using True e c Cons.IH clean_connection [OF Cons.prems(1) c(1), of env] by simp
  next
    case False
    then have "(i, p) \<notin> set (by_client_id t)" using Cons.prems(1) by (simp add: tn_inv_def)
    then have "set (by_client_id t) \<subseteq> set es" using Cons.prems(2) e by auto
    then show ?thesis using False e Cons.IH [OF Cons.prems(1)] by simp
  qed
qed simp

lemma clean_servers:
  assumes "tn_inv t" and "set (by_server_id t) \<subseteq> set es" and "by_client_id t = []"
  shows "tn_inv (clean_table env by_server_id es t) \<and> by_server_id (clean_table env by_server_id es t) = [] \<and>
    by_client_id (clean_table env by_server_id es t) = []"
  using assms
proof (induction es arbitrary: t)
  case (Cons e es)
  obtain i p where e: "e = (i, p)" by fastforce
  show ?case
  proof (cases "map_of (by_server_id t) i = Some p")
    case True
    then obtain c where c: "map_of (heap t) p = Some c" "server_id c = i"
      using tn_inv_server [OF Cons.prems(1)] by (metis get_by_server_id_def)
    have "set (AList.delete i (by_server_id t)) \<subseteq> set es" using Cons.prems(2) e by (auto simp: AList.delete_eq)
    then show ?thesis using True e c Cons.prems(3) Cons.IH clean_connection [OF Cons.prems(1) c(1), of env] by simp
  next
    case False
    then have "(i, p) \<notin> set (by_server_id t)" using Cons.prems(1) by (simp add: tn_inv_def)
    then have "set (by_server_id t) \<subseteq> set es" using Cons.prems(2) e by auto
    then show ?thesis using False e Cons.IH [OF Cons.prems(1) _ Cons.prems(3)] by simp
  qed
qed simp

lemma deinit_clean:
  assumes inv: "tn_inv t"
  shows "tn_inv (tunnel_deinit env t) \<and> heap (tunnel_deinit env t) = [] \<and>
    by_client_id (tunnel_deinit env t) = [] \<and> by_server_id (tunnel_deinit env t) = []"
proof -
  define t1 where "t1 = clean_table env by_client_id (by_client_id t) (t\<lparr>endpoint_upstream_connected := False\<rparr>)"
  define t2 where "t2 = clean_table env by_server_id (by_server_id t1) t1"
  have t1: "tn_inv t1" "by_client_id t1 = []" using clean_clients [of "t\<lparr>endpoint_upstream_connected := False\<rparr>"] inv by (simp_all add: t1_def)
  have t2: "tn_inv t2" "by_client_id t2 = []" "by_server_id t2 = []" using clean_servers [OF t1(1) subset_refl t1(2)] by (simp_all add: t2_def)
  have "map_of (heap t2) p = None" for p
    using t2 tn_inv_conn [OF t2(1), of p] by (cases "map_of (heap t2) p") (auto simp: get_by_client_id_def get_by_server_id_def)
  then have "heap t2 = []" by (metis ext map_of_eq_empty_iff)
  then show ?thesis using t2 unfolding tunnel_deinit_def Let_def t1_def [symmetric] t2_def [symmetric] by simp
qed

lemma tn_inv_new: "tn_inv (tunnel_new i f)"
  by (simp add: tn_inv_def store_ok_def tunnel_new_def)

lemma tn_inv_init: "tn_inv t \<Longrightarrow> tn_inv (snd (tunnel_init env parts t))"
  by (simp add: tunnel_init_def Let_def deinit_clean)

section \<open>Reachable states\<close>

text \<open>
  Everything that calls the tunnel: the events of the upstreams and of the listeners, the tasks of the
  event loop, the answers of the resolver and the operations that the client calls. The environment may
  differ from call to call.
\<close>

datatype tunnel_call =
    TnUpstreamEvent int server_event
  | TnListenerEvent int listener_event
  | TnCompleteConnectRequest u64 "vpn_connect_action option"
  | TnFinalizeConnectAction connect_request_result
  | TnCompleteTask u64 int
  | TnSendBufferedTask u64
  | TnDestinationResolved nat "sock_addr list option"
  | TnResetByUid int
  | TnResetByListener "int option"
  | TnResetConnection u64
  | TnBeforeEndpointDisconnect int
  | TnAfterEndpointDisconnect int
  | TnExclusionsUpdated
  | TnIcmpReplyReady icmp_echo_reply
  | TnUpdateDnsHandlerParameters
  | TnNetworkChange
  | TnHandleSleep
  | TnHandleWake
  | TnInit tunnel_parts
  | TnDeinit

fun tunnel_step :: "('c, 't, 's) tunnel_env \<Rightarrow> tunnel_call \<Rightarrow> ('c, 't, 's) tunnel_state \<Rightarrow> ('c, 't, 's) tunnel_state" where
  "tunnel_step env (TnUpstreamEvent u e) t = upstream_handler env u e t"
| "tunnel_step env (TnListenerEvent l e) t = listener_handler env l e t"
| "tunnel_step env (TnCompleteConnectRequest i a) t = complete_connect_request env i a t"
| "tunnel_step env (TnFinalizeConnectAction r) t = snd (tunnel_finalize_connect_action env r t)"
| "tunnel_step env (TnCompleteTask i err) t = tunnel_complete_connect_request_task env i err t"
| "tunnel_step env (TnSendBufferedTask i) t = snd (send_buffered_data env i t)"
| "tunnel_step env (TnDestinationResolved r result) t = on_destination_resolve_result env r result t"
| "tunnel_step env (TnResetByUid k) t = reset_connections_by_uid env k t"
| "tunnel_step env (TnResetByListener l) t = reset_connections_by_listener env l t"
| "tunnel_step env (TnResetConnection i) t = reset_connection env i t"
| "tunnel_step env (TnBeforeEndpointDisconnect u) t = on_before_endpoint_disconnect env u t"
| "tunnel_step env (TnAfterEndpointDisconnect u) t = on_after_endpoint_disconnect env u t"
| "tunnel_step env TnExclusionsUpdated t = on_exclusions_updated env t"
| "tunnel_step env (TnIcmpReplyReady r) t = on_icmp_reply_ready r t"
| "tunnel_step env TnUpdateDnsHandlerParameters t = update_dns_handler_parameters t"
| "tunnel_step env TnNetworkChange t = on_network_change t"
| "tunnel_step env TnHandleSleep t = tunnel_handle_sleep env t"
| "tunnel_step env TnHandleWake t = tunnel_handle_wake env t"
| "tunnel_step env (TnInit parts) t = snd (tunnel_init env parts t)"
| "tunnel_step env TnDeinit t = tunnel_deinit env t"

text \<open>
  What the callers promise: the upstreams give identifiers that no connection has, a listener gives a
  request an identifier that no connection has, a request is completed once, and a connection that is
  migrated keeps its old server side until the new one is open. The tunnel checks none of the four.
\<close>

definition awaits_action :: "u64 \<Rightarrow> ('c, 't, 's) tunnel_state \<Rightarrow> bool" where
  "awaits_action i t =
     (case Option.bind (get_by_client_id i t) (map_of (heap t)) of None \<Rightarrow> True | Some c \<Rightarrow> vc_state c = CONNS_WAITING_ACTION)"

lemma awaits_actionD:
  "awaits_action i t \<Longrightarrow> get_by_client_id i t = Some p \<Longrightarrow> map_of (heap t) p = Some c \<Longrightarrow> vc_state c = CONNS_WAITING_ACTION"
  by (simp add: awaits_action_def)

fun tunnel_call_ok :: "tunnel_call \<Rightarrow> ('c, 't, 's) tunnel_state \<Rightarrow> bool" where
  "tunnel_call_ok (TnUpstreamEvent _ (SERVER_EVENT_CONNECTION_OPENED i)) t = source_attached i t"
| "tunnel_call_ok (TnListenerEvent _ (CLIENT_EVENT_CONNECT_REQUEST ev)) t = fresh_client_id (cr_id ev) t"
| "tunnel_call_ok (TnCompleteConnectRequest i _) t = awaits_action i t"
| "tunnel_call_ok _ _ = True"

inductive tunnel_reachable :: "('c, 't, 's) tunnel_state \<Rightarrow> bool" where
  created: "tunnel_reachable (tunnel_new i f)"
| called: "tunnel_reachable t \<Longrightarrow> fresh_server_ids env t \<Longrightarrow> tunnel_call_ok call t \<Longrightarrow> tunnel_reachable (tunnel_step env call t)"

lemma tn_inv_step:
  assumes inv: "tn_inv t" and ids: "fresh_server_ids env t" and ok: "tunnel_call_ok call t"
  shows "tn_inv (tunnel_step env call t)"
proof (cases call)
  case (TnUpstreamEvent u e)
  then show ?thesis using tn_inv_upstream_handler [OF inv, of e] ok by (cases e) simp_all
next
  case (TnListenerEvent l e)
  then show ?thesis using tn_inv_listener_handler [OF inv ids, of e] ok by (cases e) simp_all
next
  case (TnCompleteConnectRequest i a)
  then show ?thesis using tn_inv_complete_connect_request [OF inv ids awaits_actionD] ok by simp
qed (use assms in \<open>simp_all add: calm_inv [OF calm_finalize] calm_inv [OF calm_send_buffered] tn_inv_complete_task
  tn_inv_resolve_result tn_inv_reset tn_inv_before_disconnect tn_inv_after_disconnect tn_inv_exclusions_updated
  small_operations tn_inv_health_check tn_inv_init deinit_clean Let_def split: option.splits\<close>)

lemma tunnel_reachable_inv: "tunnel_reachable t \<Longrightarrow> tn_inv t"
  by (induction rule: tunnel_reachable.induct) (simp_all add: tn_inv_new tn_inv_step)

section \<open>Memory safety\<close>


text \<open>A run of the tunnel in a sample environment, where the next connection of an upstream gets a given identifier.\<close>

definition sample_tunnel_env :: "u64 \<Rightarrow> (unit, unit, unit) tunnel_env" where
  "sample_tunnel_env next_id =
     \<lparr>te_lib = sample_lib, te_upstream_alive = (\<lambda>_. True), te_listener_alive = (\<lambda>_. True), te_endpoint_upstream = Some 1,
      te_bypass_upstream = Some 2, te_client_listener = Some 10, te_dns_proxy_listener = None, te_ip_available = (\<lambda>_ _. True),
      te_open_result = (\<lambda>_. next_id), te_send_result = (\<lambda>_ d. min 2 (int (length d))), te_available = (\<lambda>_ _. 0),
      te_listener_send = (\<lambda>d. int (length d)), te_flow_control = (\<lambda>_ _. \<lparr>send_buffer_size = 10, send_window_size = 10\<rparr>),
      te_listener_closes = (\<lambda>_. True), te_listener_accepts = (\<lambda>_. True), te_upstream_closes = (\<lambda>_. True),
      te_fake_connections = [], te_scannable_ports = [(443, 443)], te_tcp_early_ack = True, te_preresolve_enabled = False,
      te_preresolve_max_queries = 0, te_exclusions_mode = VPN_MODE_GENERAL, te_is_loopback = (\<lambda>_. False),
      te_ip_literal = (\<lambda>_ _. None), te_extract = \<lparr>des_status = DES_NOTFOUND, des_domain = []\<rparr>, te_quic = (\<lambda>_. QuicOther),
      te_hostname_cache = None, te_resolve_id = None, te_is_vpn_resolver_connection = (\<lambda>_. False),
      te_may_send_icmp_request = True, te_now = 0, te_now_ms = None, te_upstream_timeout_ms = 1, te_windows = True,
      te_etimedout = 110, te_enetunreach = 101, te_ehostunreach = 113, te_econnrefused = 111, te_econnreset = 104\<rparr>"

definition sample_connect :: connect_request where
  "sample_connect = \<lparr>cr_id = 5, cr_protocol = 6, cr_src = SA_V4 [10, 0, 0, 1] 4000, cr_dst = TA_Sock (SA_V4 [1, 2, 3, 4] 443),
     cr_app_name = ''app'', cr_dns_handler_bypass = False\<rparr>"

fun tunnel_run :: "(u64 \<times> tunnel_call) list \<Rightarrow> (unit, unit, unit) tunnel_state \<Rightarrow> (unit, unit, unit) tunnel_state" where
  "tunnel_run [] t = t"
| "tunnel_run ((n, call) # rest) t = tunnel_run rest (tunnel_step (sample_tunnel_env n) call t)"

fun tunnel_run_ok :: "(u64 \<times> tunnel_call) list \<Rightarrow> (unit, unit, unit) tunnel_state \<Rightarrow> bool" where
  "tunnel_run_ok [] t = True"
| "tunnel_run_ok ((n, call) # rest) t =
     (list_all (\<lambda>(_, c). server_id c \<noteq> n) (heap t) \<and> tunnel_call_ok call t \<and> tunnel_run_ok rest (tunnel_step (sample_tunnel_env n) call t))"

lemma run_reachable: "tunnel_reachable t \<Longrightarrow> tunnel_run_ok calls t \<Longrightarrow> tunnel_reachable (tunnel_run calls t)"
proof (induction calls t rule: tunnel_run_ok.induct)
  case (2 n call rest t)
  have "fresh_server_ids (sample_tunnel_env n) t"
    using 2(3) by (auto simp: fresh_server_ids_def sample_tunnel_env_def list_all_iff dest!: map_of_SomeD)
  then show ?case using 2 called [OF 2(2)] by simp
qed simp

definition sample_calls :: "(u64 \<times> tunnel_call) list" where
  "sample_calls =
     [(100, TnUpstreamEvent 1 SERVER_EVENT_SESSION_OPENED),
      (100, TnListenerEvent 10 (CLIENT_EVENT_CONNECT_REQUEST sample_connect)),
      (100, TnCompleteConnectRequest 5 (Some VPN_CA_FORCE_REDIRECT)),
      (101, TnUpstreamEvent 1 (SERVER_EVENT_CONNECTION_OPENED 100)),
      (101, TnListenerEvent 10 (CLIENT_EVENT_CONNECT_REQUEST (sample_connect\<lparr>cr_id := 6\<rparr>))),
      (101, TnCompleteConnectRequest 6 (Some VPN_CA_FORCE_BYPASS))]"

definition sample_tunnel :: "(unit, unit, unit) tunnel_state" where
  "sample_tunnel = tunnel_run sample_calls (tunnel_new 0 (domain_filter_new sample_lib))"

lemma sample_run_ok: "tunnel_run_ok sample_calls (tunnel_new 0 (domain_filter_new sample_lib))"
  by code_simp

lemma sample_reachable: "tunnel_reachable sample_tunnel"
  unfolding sample_tunnel_def by (rule run_reachable [OF created sample_run_ok])

lemma sample_tables:
  "by_client_id sample_tunnel = [(5, 0), (6, 1)] \<and> by_server_id sample_tunnel = [(100, 0), (101, 1)] \<and>
   map (vc_state \<circ> snd) (heap sample_tunnel) = [CONNS_WAITING_RESPONSE, CONNS_CONNECTED]"
  by code_simp




end
