(* ===== verification/TT_Tunnel_Behaviour.thy ===== *)
theory TT_Tunnel_Behaviour
  imports TT_Tunnel_Reachable
begin

text \<open>
  What the tunnel does to its connections in the states that it reaches: the order of the data of a
  client, the end of a session, the migration of a connection from one upstream to another, and two
  failures that the code does not handle.
\<close>

section \<open>The stream of the client\<close>

text \<open>The bytes of a connection that an upstream took.\<close>

fun taken :: "int \<Rightarrow> u64 \<Rightarrow> tunnel_effect \<Rightarrow> bytes" where
  "taken u i (UpSend u' i' d r) = (if u' = u \<and> i' = i then take (nat r) d else [])"
| "taken u i _ = []"

definition sent_to :: "int \<Rightarrow> u64 \<Rightarrow> tunnel_effect list \<Rightarrow> bytes" where
  "sent_to u i out = concat (map (taken u i) out)"

lemma sent_to_simps [simp]:
  "sent_to u i [] = []" "sent_to u i (x # out) = taken u i x @ sent_to u i out" "sent_to u i (out @ out') = sent_to u i out @ sent_to u i out'"
  by (simp_all add: sent_to_def)

text \<open>An upstream takes no more bytes than it is given.\<close>

definition sends_within :: "('c, 't, 's) tunnel_env \<Rightarrow> bool" where
  "sends_within env \<longleftrightarrow> (\<forall>k d. te_send_result env k d \<le> int (length d))"

lemma send_packets_stream:
  assumes "sends_within env"
  shows "send_packets env u c ps t = (failed, zero, left, sent, t') \<Longrightarrow>
     \<exists>out. tn_out t' = tn_out t @ out \<and> sent_to u (server_id c) out @ concat left = concat ps"
proof (induction ps arbitrary: t failed zero left sent t')
  case (Cons packet rest)
  define r where "r = te_send_result env (length (tn_out t)) packet"
  define t1 where "t1 = tn_emit (UpSend u (server_id c) packet r) t"
  define t2 where "t2 = (if CONNF_MONITOR_STATS (vc_flags c) then tn_emit (StatsUpload (client_id c) (nat r)) t1 else t1)"
  obtain f z l s t3 where rec: "send_packets env u c rest t2 = (f, z, l, s, t3)" by (metis prod_cases5)
  obtain out where out: "tn_out t3 = tn_out t2 @ out" "sent_to u (server_id c) out @ concat l = concat rest" using Cons(1) [OF rec] by blast
  have le: "r \<le> int (length packet)" using assms by (simp add: sends_within_def r_def)
  have out1: "tn_out t1 = tn_out t @ [UpSend u (server_id c) packet r]" by (simp add: t1_def)
  obtain stat where out2: "tn_out t2 = tn_out t @ UpSend u (server_id c) packet r # stat" "sent_to u (server_id c) stat = []"
    by (cases "CONNF_MONITOR_STATS (vc_flags c)") (simp_all add: t2_def out1)
  have step: "send_packets env u c (packet # rest) t =
      (if 0 \<le> r \<and> nat r = length packet then (f, z, l, s + nat r, t3)
       else if r < 0 then (True, False, packet # rest, 0, t1)
       else if r = 0 then (False, True, packet # rest, 0, t1)
       else (False, False, drop (nat r) packet # rest, 0, t1))"
    unfolding send_packets.simps Let_def r_def [symmetric] t1_def [symmetric] t2_def [symmetric] rec by simp
  show ?case
  proof (cases "0 \<le> r \<and> nat r = length packet")
    case True
    then have "left = l" "t' = t3" using Cons(2) step by auto
    then show ?thesis using True out out2 by (intro exI [of _ "UpSend u (server_id c) packet r # stat @ out"]) simp
  next
    case False
    then have "t' = t1 \<and> take (nat r) packet @ concat left = concat (packet # rest)" using Cons(2) step by (auto split: if_splits)
    then show ?thesis using out1 by (intro exI [of _ "[UpSend u (server_id c) packet r]"]) simp
  qed
qed simp

lemma send_buffered_stream:
  assumes within: "sends_within env" and p: "get_by_client_id i t = Some p" "map_of (heap t) p = Some c"
    and u: "lock_upstream env c = Some u" and l: "lock_listener env c = Some l"
  obtains ok t' out c' where "send_buffered_data env i t = (ok, t')" "tn_out t' = tn_out t @ out" "map_of (heap t') p = Some c'"
    "sent_to u (server_id c) out @ concat (buffered_packets c') = concat (buffered_packets c)" "server_id c' = server_id c"
proof -
  define c0 where "c0 = c\<lparr>send_buffered_task := None\<rparr>"
  obtain failed zero left sent t1 where sp: "send_packets env u c0 (buffered_packets c0) (put_conn p c0 t) = (failed, zero, left, sent, t1)"
    by (metis prod_cases5)
  define t2 where "t2 = put_conn p (c0\<lparr>buffered_packets := left, outgoing_bytes := outgoing_bytes c0 + sent\<rparr>) t1"
  define tail where "tail = [LsTurnRead l (client_id c0) (0 < te_available env u (server_id c0) \<and> \<not> zero),
    UpFlowControl u (server_id c0) (te_flow_control env l i)]"
  obtain out where out: "tn_out t1 = tn_out t @ out" "sent_to u (server_id c0) out @ concat left = concat (buffered_packets c0)"
    using send_packets_stream [OF within sp] by auto
  have locks: "lock_upstream env c0 = Some u" "lock_listener env c0 = Some l" using u l by (simp_all add: c0_def lock_upstream_def lock_listener_def)
  have eq: "send_buffered_data env i t = (if failed then (False, t2) else (True, tn_emit (tail ! 1) (tn_emit (tail ! 0) t2)))"
    unfolding send_buffered_data_def Let_def p option.case c0_def [symmetric] locks prod.case sp t2_def tail_def by simp
  show ?thesis
  proof (cases failed)
    case True
    then show ?thesis
      by (intro that [of False t2 out "c0\<lparr>buffered_packets := left, outgoing_bytes := outgoing_bytes c0 + sent\<rparr>"])
        (use eq out in \<open>simp_all add: t2_def c0_def\<close>)
  next
    case False
    then show ?thesis
      by (intro that [of True "tn_emit (tail ! 1) (tn_emit (tail ! 0) t2)" "out @ tail"
            "c0\<lparr>buffered_packets := left, outgoing_bytes := outgoing_bytes c0 + sent\<rparr>"])
        (use eq out in \<open>simp_all add: t2_def c0_def tail_def\<close>)
  qed
qed

text \<open>
  From one state to the other: what the upstream took, then what is buffered, then the part of the data
  that the listener keeps, is what was buffered followed by the data.
\<close>

definition delivers ::
  "int \<Rightarrow> u64 \<Rightarrow> nat \<Rightarrow> bytes \<Rightarrow> bytes \<Rightarrow> ('c, 't, 's) tunnel_state \<Rightarrow> ('c, 't, 's) tunnel_state \<Rightarrow> bool" where
  "delivers u i p pending data t t' \<longleftrightarrow>
     (\<exists>out c r. tn_out t' = tn_out t @ out \<and> map_of (heap t') p = Some c \<and> event_result t' = Some r \<and>
        sent_to u i out @ concat (buffered_packets c) @ drop (nat r) data = pending @ data)"

lemma delivers_after:
  assumes "delivers u i p pending' data t1 t'" and "tn_out t1 = tn_out t @ out" and "sent_to u i out @ pending' = pending"
  shows "delivers u i p pending data t t'"
proof -
  obtain out' c r where d: "tn_out t' = tn_out t1 @ out'" "map_of (heap t') p = Some c" "event_result t' = Some r"
    "sent_to u i out' @ concat (buffered_packets c) @ drop (nat r) data = pending' @ data"
    using assms(1) unfolding delivers_def by blast
  have "sent_to u i (out @ out') @ concat (buffered_packets c) @ drop (nat r) data = pending @ data" using d(4) assms(3) by auto
  then show ?thesis using d assms(2) unfolding delivers_def by (metis append_assoc)
qed

lemma client_send_delivers:
  assumes within: "sends_within env" and c: "map_of (heap t) p = Some c" "buffered_packets c = []"
  shows "delivers u (server_id c) p [] data t (client_send env l u p data t)"
proof -
  define r where "r = te_send_result env (length (tn_out t)) data"
  define t1 where "t1 = tn_result r (tn_emit (UpSend u (server_id c) data r) t)"
  have le: "r \<le> int (length data)" using within by (simp add: sends_within_def r_def)
  have t1: "tn_out t1 = tn_out t @ [UpSend u (server_id c) data r]" "event_result t1 = Some r" "map_of (heap t1) p = Some c"
    using c by (simp_all add: t1_def)
  have eq: "client_send env l u p data t =
      (if 0 < r \<or> (0 \<le> r \<and> nat r = length data)
          then
            (let t2 = put_conn p (c\<lparr>outgoing_bytes := outgoing_bytes c + nat r\<rparr>) t1;
                 t3 = (if CONNF_MONITOR_STATS (vc_flags c) then tn_emit (StatsUpload (client_id c) (nat r)) t2 else t2)
             in tn_emit (LsTurnRead l (client_id c) (0 < te_available env u (server_id c))) t3)
          else if r = 0 then tn_emit (LsTurnRead l (client_id c) False) t1
          else t1)"
    unfolding client_send_def with_conn_Some [OF c(1)] Let_def r_def [symmetric] t1_def [symmetric] mod_conn_Some [OF t1(3)] by (rule refl)
  show ?thesis
    unfolding delivers_def eq Let_def using t1 c(2) le by (auto simp: nat_eq_iff2)
qed

lemma client_forward_delivers:
  assumes within: "sends_within env" and inv: "tn_inv t" and p: "get_by_client_id (client_id c) t = Some p" "map_of (heap t) p = Some c"
    and st: "vc_state c = CONNS_CONNECTED" and u: "lock_upstream env c = Some u" and l: "lock_listener env c = Some l"
  shows "delivers u (server_id c) p (concat (buffered_packets c)) data t (client_forward env l u p data t)"
proof (cases "buffered_packets c = []")
  case True
  then show ?thesis using client_send_delivers [OF within p(2) True] p(2) st by (simp add: client_forward_def)
next
  case False
  obtain ok t1 out c1 where sb: "send_buffered_data env (client_id c) t = (ok, t1)" "tn_out t1 = tn_out t @ out" "map_of (heap t1) p = Some c1"
    "sent_to u (server_id c) out @ concat (buffered_packets c1) = concat (buffered_packets c)" "server_id c1 = server_id c"
    by (rule send_buffered_stream [OF within p u l])
  have eq: "client_forward env l u p data t =
      (if \<not> ok then tn_result (- 1) t1
       else if buffered_packets c1 \<noteq> [] then tn_result 0 t1 else client_send env l u p data t1)"
    unfolding client_forward_def with_conn_Some [OF p(2)] st conn_state.case sb(1) Let_def prod.case with_conn_Some [OF sb(3)] using False by simp
  have kept: "delivers u (server_id c) p (concat (buffered_packets c)) data t (tn_result r t1)" if "nat r = 0" for r
    unfolding delivers_def using sb that by (intro exI [of _ out] exI [of _ c1] exI [of _ r]) auto
  have sent: "delivers u (server_id c) p (concat (buffered_packets c)) data t (client_send env l u p data t1)" if "buffered_packets c1 = []"
    using delivers_after [OF client_send_delivers [OF within sb(3) that] sb(2)] sb(4,5) that by simp
  show ?thesis unfolding eq using kept sent by simp
qed


definition sample_conn :: vpn_connection where
  "sample_conn = the (map_of (heap sample_tunnel) 0)"

lemma sample_conn_facts:
  "map_of (heap sample_tunnel) 0 = Some sample_conn"
  "get_by_client_id 5 sample_tunnel = Some 0"
  "vc_state sample_conn = CONNS_CONNECTED \<and> lock_upstream (sample_tunnel_env 102) sample_conn = Some 1 \<and>
   lock_listener (sample_tunnel_env 102) sample_conn = Some 10 \<and> \<not> CONNF_LOOKINGUP_DOMAIN (vc_flags sample_conn) \<and>
   \<not> CONNF_FAKE_CONNECTION (vc_flags sample_conn) \<and> buffered_packets sample_conn = []"
proof -
  have "map_of (heap sample_tunnel) 0 \<noteq> None" by code_simp
  then show "map_of (heap sample_tunnel) 0 = Some sample_conn" by (auto simp: sample_conn_def)
qed code_simp+

lemma sample_sends_within: "sends_within (sample_tunnel_env n)"
  by (simp add: sends_within_def sample_tunnel_env_def)


section \<open>The end of a session\<close>

definition mark_closed :: "conn_flags \<Rightarrow> conn_flags" where
  "mark_closed f = f\<lparr>CONNF_SESSION_CLOSED := True\<rparr>"

lemma client_closed_destroys:
  assumes p: "get_by_client_id i t = Some p" "map_of (heap t) p = Some c" "CONNF_SESSION_CLOSED (vc_flags c)" "client_id c = i" "i \<noteq> NON_ID"
  shows "heap (client_connection_closed env i t) = AList.delete p (heap t) \<and>
    by_client_id (client_connection_closed env i t) = AList.delete i (by_client_id t)"
proof -
  have "found_conn i (server_id c) t = Some p" using p by (simp add: found_conn_def)
  then show ?thesis using destroy_some [OF _ p(2)] p by (simp add: client_connection_closed_def)
qed

lemma close_marked:
  assumes inv: "tn_inv t" and p: "get_by_client_id i t = Some p" and all: "\<And>j. te_listener_closes env j"
  shows "map_of (heap (close_selected env mark_closed i t)) = (map_of (heap t))(p := None) \<and>
    by_client_id (close_selected env mark_closed i t) = AList.delete i (by_client_id t)"
proof -
  obtain c where c: "map_of (heap t) p = Some c" "client_id c = i" "i \<noteq> NON_ID" using tn_inv_client [OF inv p] by blast
  define c1 where "c1 = c\<lparr>vc_flags := mark_closed (vc_flags c)\<rparr>"
  define t1 where "t1 = put_conn p c1 t"
  have t1: "map_of (heap t1) p = Some c1" "get_by_client_id i t1 = Some p" using p by (simp_all add: t1_def get_by_client_id_def)
  have c1: "CONNF_SESSION_CLOSED (vc_flags c1)" "client_id c1 = i" "vc_state c1 \<noteq> CONNS_WAITING_RESPONSE_MIGRATING"
    using c tn_inv_conn [OF inv c(1)] by (auto simp: c1_def mark_closed_def conn_ok_def)
  have del: "map_of (AList.delete p (heap t1)) = (map_of (heap t))(p := None)" by (simp add: t1_def delete_conv')
  have closed: "heap (client_connection_closed env i (tn_emit x t1)) = AList.delete p (heap t1) \<and>
      by_client_id (client_connection_closed env i (tn_emit x t1)) = AList.delete i (by_client_id t)" for x
    using client_closed_destroys [of i "tn_emit x t1" p c1 env] t1 c1 c by (simp add: t1_def get_by_client_id_def)
  have gone: "get_by_client_id i (client_connection_closed env i (tn_emit x t1)) = None" for x
    using closed by (simp add: get_by_client_id_def delete_conv')
  have destroyed: "heap (destroy_connection env i (server_id c1) t1) = AList.delete p (heap t1) \<and>
      by_client_id (destroy_connection env i (server_id c1) t1) = AList.delete i (by_client_id t)"
    using destroy_some [OF _ t1(1), of i "server_id c1" env] t1 c c1 by (simp add: found_conn_def t1_def)
  have eq: "close_selected env mark_closed i t = close_client_side_connection env p (- 1) False t1"
    using p c by (simp add: close_selected_def t1_def c1_def)
  show ?thesis
    unfolding eq close_client_side_connection_def with_conn_Some [OF t1(1)]
    using c1 all closed gone destroyed del
    by (cases "lock_listener env c1"; cases "vc_state c1")
      (simp_all add: listener_close_connection_def listener_fail_request_def Let_def)
qed

lemma close_all_marked:
  assumes "tn_inv t" and "\<And>j. te_listener_closes env j" and "distinct ids" and "\<And>i. i \<in> set ids \<Longrightarrow> get_by_client_id i t \<noteq> None"
  shows "map_of (heap (fold (close_selected env mark_closed) ids t)) p =
      (if \<exists>i \<in> set ids. get_by_client_id i t = Some p then None else map_of (heap t) p) \<and>
    by_client_id (fold (close_selected env mark_closed) ids t) = filter (\<lambda>(i, _). i \<notin> set ids) (by_client_id t)"
  using assms
proof (induction ids arbitrary: t)
  case Nil
  then show ?case by simp
next
  case (Cons i ids)
  obtain q where q: "get_by_client_id i t = Some q" using Cons.prems(4) [of i] by auto
  define t1 where "t1 = close_selected env mark_closed i t"
  have t1: "map_of (heap t1) = (map_of (heap t))(q := None)" "by_client_id t1 = AList.delete i (by_client_id t)"
    using close_marked [OF Cons.prems(1) q Cons.prems(2)] by (simp_all add: t1_def)
  have inv1: "tn_inv t1" unfolding t1_def by (rule tn_inv_close_selected [OF Cons.prems(1)])
  have get: "get_by_client_id j t1 = get_by_client_id j t" if "j \<in> set ids" for j
    using that Cons.prems(3) t1 by (auto simp: get_by_client_id_def delete_conv')
  have "map_of (heap (fold (close_selected env mark_closed) ids t1)) p =
      (if \<exists>i \<in> set ids. get_by_client_id i t1 = Some p then None else map_of (heap t1) p) \<and>
    by_client_id (fold (close_selected env mark_closed) ids t1) = filter (\<lambda>(i, _). i \<notin> set ids) (by_client_id t1)"
    by (rule Cons.IH [OF inv1 Cons.prems(2)]) (use Cons.prems(3,4) get in auto)
  then show ?case using q get t1 by (auto simp: t1_def AList.delete_eq intro!: filter_cong)
qed

text \<open>The clients of an upstream.\<close>

definition served_by :: "('c, 't, 's) tunnel_env \<Rightarrow> int \<Rightarrow> ('c, 't, 's) tunnel_state \<Rightarrow> nat \<Rightarrow> bool" where
  "served_by env u t p \<longleftrightarrow> Option.bind (map_of (heap t) p) (lock_upstream env) = Some u"

lemma selected_ids:
  assumes inv: "tn_inv t" and ids: "fst (select_connections (by_client_id t) (\<lambda>c. lock_upstream env c = Some u) t) = ids"
  shows "ids = map fst (filter (\<lambda>(_, p). served_by env u t p) (by_client_id t))"
proof -
  have "(case map_of (heap t) p of Some c \<Rightarrow> if lock_upstream env c = Some u then [client_id c] else [] | None \<Rightarrow> []) =
      (if served_by env u t p then [i] else [])" if "(i, p) \<in> set (by_client_id t)" for i p
  proof -
    have "get_by_client_id i t = Some p" using that inv by (simp add: get_by_client_id_def tn_inv_def)
    then obtain c where "map_of (heap t) p = Some c" "client_id c = i" using tn_inv_client [OF inv] by blast
    then show ?thesis by (simp add: served_by_def)
  qed
  then have "ids = concat (map (\<lambda>(i, p). if served_by env u t p then [i] else []) (by_client_id t))"
    using ids unfolding select_connections_def by (auto intro!: arg_cong [of _ _ concat] map_cong)
  also have "\<dots> = map fst (filter (\<lambda>(_, p). served_by env u t p) (by_client_id t))" 
  proof -
    have "concat (map (\<lambda>(i, p). if P p then [i] else []) xs) = map fst (filter (\<lambda>(_, p). P p) xs)" for P and xs :: "(u64 \<times> nat) list"
      by (induction xs) auto
    then show ?thesis .
  qed
  finally show ?thesis .
qed


lemma sample_listener_closes: "\<forall>i. te_listener_closes (sample_tunnel_env n) i"
  by (simp add: sample_tunnel_env_def)


section \<open>Migration\<close>

definition sample_parts :: tunnel_parts where
  "sample_parts = \<lparr>resolver_ok = True, resolver_number = 20, fake_ok = True, fake_number = 3,
     dns_handler_ok = True, dns_handler_number = 4\<rparr>"

text \<open>A sample: the connection 0, opened on the fake upstream 3, is being migrated to the endpoint 1 as the connection 1.\<close>

definition migrating_calls :: "(u64 \<times> tunnel_call) list" where
  "migrating_calls =
     [(100, TnInit sample_parts), (100, TnUpstreamEvent 1 SERVER_EVENT_SESSION_OPENED),
      (100, TnListenerEvent 10 (CLIENT_EVENT_CONNECT_REQUEST sample_connect)),
      (100, TnCompleteConnectRequest 5 None),
      (101, TnUpstreamEvent 3 (SERVER_EVENT_CONNECTION_OPENED 100)),
      (101, TnListenerEvent 10 (CLIENT_EVENT_READ 5 [1, 2, 3]))]"

definition migrating_tunnel :: "(unit, unit, unit) tunnel_state" where
  "migrating_tunnel = tunnel_run migrating_calls (tunnel_new 0 (domain_filter_new sample_lib))"

definition old_conn :: vpn_connection where
  "old_conn = the (map_of (heap migrating_tunnel) 0)"

definition new_conn :: vpn_connection where
  "new_conn = the (map_of (heap migrating_tunnel) 1)"

lemma migrating_reachable: "tunnel_reachable migrating_tunnel"
proof -
  have "tunnel_run_ok migrating_calls (tunnel_new 0 (domain_filter_new sample_lib))" by code_simp
  then show ?thesis unfolding migrating_tunnel_def by (rule run_reachable [OF created])
qed

lemma migrating_conns: "map_of (heap migrating_tunnel) 0 = Some old_conn" "map_of (heap migrating_tunnel) 1 = Some new_conn"
proof -
  have "map_of (heap migrating_tunnel) 0 \<noteq> None" "map_of (heap migrating_tunnel) 1 \<noteq> None" by code_simp+
  then show "map_of (heap migrating_tunnel) 0 = Some old_conn" "map_of (heap migrating_tunnel) 1 = Some new_conn"
    by (auto simp: old_conn_def new_conn_def)
qed

lemma migrating_facts:
  "get_by_server_id 101 migrating_tunnel = Some 1" "get_by_client_id (migrating_client_id new_conn) migrating_tunnel = Some 0"
  "vc_state new_conn = CONNS_WAITING_RESPONSE_MIGRATING" "lock_upstream (sample_tunnel_env 102) new_conn = Some 1"
  "lock_listener (sample_tunnel_env 102) new_conn = Some 10" "lock_upstream (sample_tunnel_env 102) old_conn = Some 3"
  "migrating_client_id new_conn = 5" "server_id old_conn = 100" "server_id new_conn = 101" "vc_state old_conn = CONNS_CONNECTED_MIGRATING"
  "source_attached 101 migrating_tunnel"
  by code_simp+

lemma finish_migration_result:
  assumes inv: "tn_inv t" and c: "map_of (heap t) p = Some c" "client_id c = NON_ID" "server_id c \<noteq> server_id s"
    and s: "map_of (heap t) q = Some s" "get_by_client_id (client_id s) t = Some q" "get_by_server_id (server_id s) t = Some q"
  shows "get_by_client_id (client_id s) (finish_migration env u l p q c t) = Some p \<and>
    get_by_server_id (server_id c) (finish_migration env u l p q c t) = Some p \<and>
    (\<exists>c'. map_of (heap (finish_migration env u l p q c t)) p = Some c' \<and> client_id c' = client_id s \<and> server_id c' = server_id c \<and>
       vc_state c' = CONNS_CONNECTED \<and>
       buffered_packets c' = (if vc_proto c = IPPROTO_UDP then buffered_packets s else buffered_packets c))"
proof -
  have cid: "client_id s \<noteq> NON_ID" using tn_inv_client [OF inv s(2)] by simp
  obtain t3 c3 s3 where inv3: "tn_inv t3" and h3: "map_of (heap t3) p = Some c3" "map_of (heap t3) q = Some s3" "p \<noteq> q"
    and ids: "client_id s3 = NON_ID" "server_id s3 = server_id s" "client_id c3 = client_id s" "server_id c3 = server_id c"
    and c3: "vc_state c3 = CONNS_CONNECTED" "buffered_packets c3 = (if vc_proto c = IPPROTO_UDP then buffered_packets s else buffered_packets c)"
    and tab: "get_by_client_id (client_id s) t3 = Some p" "get_by_server_id (server_id c) t3 = Some p"
    and eq: "finish_migration env u l p q c t = with_conn p (\<lambda>c t.
            if buffered_packets c \<noteq> [] then schedule_send_buffered_data p t
            else tn_emit (UpFlowControl u (server_id c) (te_flow_control env l (client_id c)))
                   (tn_emit (LsTurnRead l (client_id c) True) t))
       (case lock_upstream env s of Some u' \<Rightarrow> upstream_close_connection env u' (server_id s) False False t3 | None \<Rightarrow> t3)"
    by (rule taken_over [OF inv c(1,2) s, of env u l])
  define t4 where "t4 = (case lock_upstream env s of Some u' \<Rightarrow> upstream_close_connection env u' (server_id s) False False t3 | None \<Rightarrow> t3)"
  have t4: "map_of (heap t4) p = Some c3" "get_by_client_id (client_id s) t4 = Some p" "get_by_server_id (server_id c) t4 = Some p"
    using upstream_close_orphan [OF inv3 h3(2) ids(1) h3(1,3), where i = "client_id s" and j = "server_id c"] h3 ids tab cid c(3)
    by (simp_all add: t4_def split: option.splits)
  show ?thesis
    unfolding eq t4_def [symmetric] with_conn_Some [OF t4(1)] using t4 ids c3
    by (simp add: schedule_send_buffered_data_def get_by_client_id_def get_by_server_id_def)
qed

text \<open>
  C8: When the new upstream opens a migrated connection, the client of the old connection belongs to the
  new one: both tables find the new connection, which is connected and has the packets that are still to
  be sent, those buffered before the migration for TCP and those buffered during it for UDP.
\<close>

theorem migration_moves_client:
  assumes "tunnel_reachable t" and "source_attached i t"
    and "get_by_server_id i t = Some p" and "map_of (heap t) p = Some c" and "vc_state c = CONNS_WAITING_RESPONSE_MIGRATING"
    and "lock_upstream env c = Some u" and "lock_listener env c = Some l"
    and "get_by_client_id (migrating_client_id c) t = Some q" and "map_of (heap t) q = Some s"
  shows "get_by_client_id (migrating_client_id c) (upstream_handler env u (SERVER_EVENT_CONNECTION_OPENED i) t) = Some p \<and>
    get_by_server_id i (upstream_handler env u (SERVER_EVENT_CONNECTION_OPENED i) t) = Some p \<and>
    (\<exists>c'. map_of (heap (upstream_handler env u (SERVER_EVENT_CONNECTION_OPENED i) t)) p = Some c' \<and>
       client_id c' = migrating_client_id c \<and> server_id c' = i \<and> vc_state c' = CONNS_CONNECTED \<and>
       buffered_packets c' = (if vc_proto c = IPPROTO_UDP then buffered_packets s else buffered_packets c))"
proof -
  note inv = tunnel_reachable_inv [OF assms(1)]
  have s: "client_id s = migrating_client_id c" "migrating_client_id c \<noteq> NON_ID" using tn_inv_client [OF inv assms(8)] assms(9) by auto
  have c: "client_id c = NON_ID" "server_id c = i"
    using tn_inv_conn [OF inv assms(4)] assms(5) tn_inv_server [OF inv assms(3)] assms(4) by (auto simp: conn_ok_def)
  have src: "get_by_server_id (server_id s) t = Some q" using assms by (simp add: source_attached_def)
  have "server_id c \<noteq> server_id s" using src assms(3,4,9) c s by auto
  then have "get_by_client_id (client_id s) (finish_migration env u l p q c t) = Some p \<and>
    get_by_server_id (server_id c) (finish_migration env u l p q c t) = Some p \<and>
    (\<exists>c'. map_of (heap (finish_migration env u l p q c t)) p = Some c' \<and> client_id c' = client_id s \<and> server_id c' = server_id c \<and>
       vc_state c' = CONNS_CONNECTED \<and>
       buffered_packets c' = (if vc_proto c = IPPROTO_UDP then buffered_packets s else buffered_packets c))"
    by (intro finish_migration_result [OF inv assms(4) c(1) _ assms(9)]) (use assms(8) s src in simp_all)
  moreover have "upstream_handler env u (SERVER_EVENT_CONNECTION_OPENED i) t = finish_migration env u l p q c t"
    using assms by (simp add: server_connection_opened_def)
  ultimately show ?thesis using s c by simp
qed

theorem migration_moves_client_witness:
  "tunnel_reachable migrating_tunnel \<and> get_by_client_id 5 migrating_tunnel = Some 0 \<and>
   get_by_client_id 5 (upstream_handler (sample_tunnel_env 102) 1 (SERVER_EVENT_CONNECTION_OPENED 101) migrating_tunnel) = Some 1"
  using migration_moves_client [OF migrating_reachable migrating_facts(11,1) migrating_conns(2) migrating_facts(3-5,2) migrating_conns(1)]
    migrating_facts(2,7) migrating_reachable by simp

section \<open>Failures\<close>

text \<open>
  C37: When the new upstream of a migration reports an error, the tunnel closes the identifier of the old
  connection on the new upstream, which knows no such identifier, instead of on the upstream that the
  old connection is open on. The old connection and its client are not told: the connection stays in the
  state of a migration, with the reads of the client turned off.
\<close>

theorem migration_error_misses_source:
  assumes "i \<noteq> NON_ID" and "get_by_server_id i t = Some p" and "map_of (heap t) p = Some c"
    and "vc_state c = CONNS_WAITING_RESPONSE_MIGRATING" and "lock_upstream env c = Some u"
    and "get_by_client_id (migrating_client_id c) t = Some q" and "map_of (heap t) q = Some s"
  shows "upstream_handler env u (SERVER_EVENT_ERROR i e) t =
    t\<lparr>tn_out := tn_out t @ [UpClose u (server_id s) False True, UpClose u (server_id c) False True]\<rparr>"
  using assms by (simp add: server_error_def tn_emit_def)

theorem migration_error_misses_source_witness:
  "tunnel_reachable migrating_tunnel \<and> lock_upstream (sample_tunnel_env 102) old_conn = Some 3 \<and>
   vc_state old_conn = CONNS_CONNECTED_MIGRATING \<and>
   upstream_handler (sample_tunnel_env 102) 1 (SERVER_EVENT_ERROR 101 (VpnError 1 [])) migrating_tunnel =
     migrating_tunnel\<lparr>tn_out := tn_out migrating_tunnel @ [UpClose 1 100 False True, UpClose 1 101 False True]\<rparr>"
  using migration_error_misses_source [OF _ migrating_facts(1) migrating_conns(2) migrating_facts(3,4,2) migrating_conns(1)]
    migrating_reachable migrating_facts by (simp add: NON_ID_def)


end
