(* ===== verification/TT_Upstream_Multiplexer.thy ===== *)
theory TT_Upstream_Multiplexer
  imports TT_Vpn_Types
begin

text \<open>
  The multiplexer of upstream sessions (\<open>core/src/upstream_multiplexer.cpp\<close>): the pool of child
  upstreams, the choice of one for a connection, the connections that wait for a session to open, and the
  handler of the events of the children.

  The child upstreams are the environment: an argument gives the results of their calls and the
  connections they have. A child closes its connections, with one event each, when its session is
  closed. The events raised to the handler and the calls of the children are a log; the handler does
  not call the multiplexer back. The tables are association lists in the order of their iteration. The
  counter of upstream identifiers, which all multiplexers share, is a field.
\<close>

section \<open>State\<close>

datatype upstream_state = US_OPENING_SESSION | US_SESSION_OPENED

record pending_connection =
  pc_upstream :: int
  pc_addr :: addr_pair
  pc_proto :: int
  pc_app :: bytes

datatype child_call =
    ChildOpenSession
  | ChildCloseSession
  | ChildOpenConnection u64 addr_pair int bytes
  | ChildCloseConnection u64 bool bool
  | ChildSend u64 bytes
  | ChildConsume u64 nat
  | ChildUpdateFlowControl u64
  | ChildDoHealthCheck bool
  | ChildCancelHealthCheck
  | ChildIcmpRequest
  | ChildSleep
  | ChildWake

datatype umux_effect = Raised server_event | Called int child_call

record connection_stats =
  rtt_us :: u32
  packet_loss_ratio :: real

record child_env =
  child_opens_session :: "int \<Rightarrow> bool"
  child_opens_connection :: "int \<Rightarrow> u64 \<Rightarrow> bool"
  child_connections :: "int \<Rightarrow> u64 list"
  child_send_result :: "int \<Rightarrow> int"
  child_available :: "int \<Rightarrow> u64 \<Rightarrow> nat"
  child_stats :: "int \<Rightarrow> connection_stats"
  child_kex_group :: "int \<Rightarrow> int"
  econnreset :: int
  econnrefused :: int

record umux =
  um_connections :: "(u64 \<times> int) list"
  um_pool :: "(int \<times> upstream_state) list"
  um_max_upstreams_num :: nat
  um_pending :: "(u64 \<times> pending_connection) list"
  um_pending_error :: "vpn_error option"
  um_session_open :: bool
  next_upstream_id :: int
  um_out :: "umux_effect list"
  um_faults :: "fault list"

definition DEFAULT_UPSTREAMS_NUM :: nat where
  "DEFAULT_UPSTREAMS_NUM = 8"

definition NEW_UPSTREAM_CONNECTIONS_NUM_THRESHOLD :: nat where
  "NEW_UPSTREAM_CONNECTIONS_NUM_THRESHOLD = 5"

definition umux_new :: "nat \<Rightarrow> int \<Rightarrow> umux" where
  "umux_new upstreams_num next_id =
     \<lparr>um_connections = [], um_pool = [],
      um_max_upstreams_num = (if upstreams_num = 0 then DEFAULT_UPSTREAMS_NUM else upstreams_num),
      um_pending = [], um_pending_error = None, um_session_open = False, next_upstream_id = next_id,
      um_out = [], um_faults = []\<rparr>"

definition um_emit :: "umux_effect \<Rightarrow> umux \<Rightarrow> umux" where
  "um_emit x m = m\<lparr>um_out := um_out m @ [x]\<rparr>"

definition um_raise :: "server_event \<Rightarrow> umux \<Rightarrow> umux" where
  "um_raise e = um_emit (Raised e)"

definition um_fault :: "fault \<Rightarrow> umux \<Rightarrow> umux" where
  "um_fault f m = m\<lparr>um_faults := um_faults m @ [f]\<rparr>"

text \<open>\<open>unordered_map::emplace\<close> does nothing when the key is there.\<close>

definition emplace :: "'k \<Rightarrow> 'v \<Rightarrow> ('k \<times> 'v) list \<Rightarrow> ('k \<times> 'v) list" where
  "emplace k v xs = (if map_of xs k = None then xs @ [(k, v)] else xs)"

section \<open>Choice of an upstream\<close>

definition connections_num_by_upstream :: "child_env \<Rightarrow> int \<Rightarrow> umux \<Rightarrow> nat" where
  "connections_num_by_upstream env i m =
     length (child_connections env i) + length (filter (\<lambda>(_, p). pc_upstream p = i) (um_pending m))"

fun least_loaded :: "child_env \<Rightarrow> int option \<Rightarrow> int option \<Rightarrow> (int \<times> upstream_state) list \<Rightarrow> int option" where
  "least_loaded env ignored best [] = best"
| "least_loaded env ignored best ((i, _) # rest) =
     (if ignored = Some i then least_loaded env ignored best rest
      else least_loaded env ignored
             (case best of
                None \<Rightarrow> Some i
              | Some b \<Rightarrow>
                  if length (child_connections env i) < length (child_connections env b) then Some i else Some b) rest)"

definition select_existing_upstream :: "child_env \<Rightarrow> int option \<Rightarrow> bool \<Rightarrow> umux \<Rightarrow> int option" where
  "select_existing_upstream env ignored allow_underflow m =
     (case List.find (\<lambda>(i, _). ignored \<noteq> Some i \<and>
             connections_num_by_upstream env i m < NEW_UPSTREAM_CONNECTIONS_NUM_THRESHOLD) (um_pool m) of
        Some (i, _) \<Rightarrow> Some i
      | None \<Rightarrow>
          if allow_underflow \<or> length (um_pool m) = DEFAULT_UPSTREAMS_NUM
          then least_loaded env ignored None (um_pool m) else None)"

definition select_upstream_for_connection :: "child_env \<Rightarrow> umux \<Rightarrow> int \<times> umux" where
  "select_upstream_for_connection env m =
     (case select_existing_upstream env None False m of
        Some i \<Rightarrow> (i, m)
      | None \<Rightarrow> (next_upstream_id m, m\<lparr>next_upstream_id := next_upstream_id m + 1\<rparr>))"

definition open_new_upstream :: "child_env \<Rightarrow> int \<Rightarrow> umux \<Rightarrow> bool \<times> umux" where
  "open_new_upstream env i m =
     (let m1 = (if map_of (um_pool m) i = None then m else um_fault (AssertFailed ''m_upstreams_pool.count(id) == 0'') m);
          m2 = um_emit (Called i ChildOpenSession) m1
      in if \<not> child_opens_session env i then (False, m2)
         else (True, m2\<lparr>um_pool := AList.update i US_OPENING_SESSION (um_pool m2)\<rparr>))"

section \<open>Connections\<close>

definition pending_of :: "int \<Rightarrow> addr_pair \<Rightarrow> int \<Rightarrow> bytes \<Rightarrow> pending_connection" where
  "pending_of i a proto app = \<lparr>pc_upstream = i, pc_addr = a, pc_proto = proto, pc_app = app\<rparr>"

definition open_connection_on ::
  "child_env \<Rightarrow> int \<Rightarrow> u64 \<Rightarrow> addr_pair \<Rightarrow> int \<Rightarrow> bytes \<Rightarrow> umux \<Rightarrow> bool \<times> umux" where
  "open_connection_on env i conn_id a proto app m =
     (case map_of (um_pool m) i of
        None \<Rightarrow> (False, um_fault (AssertFailed ''0'') m)
      | Some US_OPENING_SESSION \<Rightarrow>
          (True, m\<lparr>um_pending := emplace conn_id (pending_of i a proto app) (um_pending m)\<rparr>)
      | Some US_SESSION_OPENED \<Rightarrow>
          (let m1 = um_emit (Called i (ChildOpenConnection conn_id a proto app)) m in
           if child_opens_connection env i conn_id
           then (True, m1\<lparr>um_connections := emplace conn_id i (um_connections m1)\<rparr>)
           else (False, m1)))"

text \<open>\<open>conn_id\<close> is what the generator of connection identifiers returns.\<close>

definition umux_open_connection ::
  "child_env \<Rightarrow> u64 \<Rightarrow> addr_pair \<Rightarrow> int \<Rightarrow> bytes \<Rightarrow> umux \<Rightarrow> u64 \<times> umux" where
  "umux_open_connection env conn_id a proto app m =
     (if um_pool m = [] then (NON_ID, m)
      else
        (let (i, m1) = select_upstream_for_connection env m in
         if map_of (um_pool m1) i \<noteq> None
         then (let (ok, m2) = open_connection_on env i conn_id a proto app m1 in (if ok then conn_id else NON_ID, m2))
         else
           (let (ok, m2) = open_new_upstream env i m1 in
            if ok then (conn_id, m2\<lparr>um_pending := emplace conn_id (pending_of i a proto app) (um_pending m2)\<rparr>)
            else case select_existing_upstream env (Some i) True m2 of
                   Some j \<Rightarrow>
                     (let (ok', m3) = open_connection_on env j conn_id a proto app m2
                      in (if ok' then conn_id else NON_ID, m3))
                 | None \<Rightarrow> (NON_ID, m2))))"

definition get_upstream_by_conn :: "u64 \<Rightarrow> umux \<Rightarrow> int option" where
  "get_upstream_by_conn c m =
     (case map_of (um_connections m) c of
        None \<Rightarrow> None
      | Some i \<Rightarrow> if map_of (um_pool m) i = None then None else Some i)"

definition umux_close_connection :: "u64 \<Rightarrow> bool \<Rightarrow> bool \<Rightarrow> umux \<Rightarrow> umux" where
  "umux_close_connection c graceful async m =
     (case get_upstream_by_conn c m of
        Some i \<Rightarrow> um_emit (Called i (ChildCloseConnection c graceful async)) m
      | None \<Rightarrow> m)"

definition umux_send :: "child_env \<Rightarrow> u64 \<Rightarrow> bytes \<Rightarrow> umux \<Rightarrow> int \<times> umux" where
  "umux_send env c data m =
     (case get_upstream_by_conn c m of
        Some i \<Rightarrow> (child_send_result env i, um_emit (Called i (ChildSend c data)) m)
      | None \<Rightarrow> (- 1, m))"

definition umux_consume :: "u64 \<Rightarrow> nat \<Rightarrow> umux \<Rightarrow> umux" where
  "umux_consume c n m =
     (case get_upstream_by_conn c m of Some i \<Rightarrow> um_emit (Called i (ChildConsume c n)) m | None \<Rightarrow> m)"

definition umux_available_to_send :: "child_env \<Rightarrow> u64 \<Rightarrow> umux \<Rightarrow> nat" where
  "umux_available_to_send env c m =
     (case get_upstream_by_conn c m of Some i \<Rightarrow> child_available env i c | None \<Rightarrow> 0)"

definition umux_update_flow_control :: "u64 \<Rightarrow> umux \<Rightarrow> umux" where
  "umux_update_flow_control c m =
     (case get_upstream_by_conn c m of Some i \<Rightarrow> um_emit (Called i (ChildUpdateFlowControl c)) m | None \<Rightarrow> m)"

section \<open>Sessions\<close>

definition umux_open_session :: "child_env \<Rightarrow> umux \<Rightarrow> bool \<times> umux" where
  "umux_open_session env m =
     (if um_pool m \<noteq> [] then (False, um_fault (AssertFailed ''0'') m)
      else let (i, m1) = select_upstream_for_connection env m in open_new_upstream env i m1)"

text \<open>The event of a closed connection, and what closing the session of a child leads to.\<close>

definition connection_closed :: "u64 \<Rightarrow> umux \<Rightarrow> umux" where
  "connection_closed c m =
     (let m1 = (if map_of (um_connections m) c \<noteq> None then m
                else um_fault (AssertFailed ''mux->m_connections.count(id) != 0'') m)
      in um_raise (SERVER_EVENT_CONNECTION_CLOSED c)
           (m1\<lparr>um_connections := AList.delete c (um_connections m1)\<rparr>))"

definition child_close_session :: "child_env \<Rightarrow> int \<Rightarrow> umux \<Rightarrow> umux" where
  "child_close_session env i m =
     fold connection_closed (child_connections env i) (um_emit (Called i ChildCloseSession) m)"

definition umux_close_session :: "child_env \<Rightarrow> umux \<Rightarrow> umux" where
  "umux_close_session env m =
     (let m1 = fold (child_close_session env) (map fst (um_pool m)) m;
          m2 = m1\<lparr>um_pool := [], um_connections := []\<rparr>;
          m3 = fold (\<lambda>(c, _). um_raise (SERVER_EVENT_ERROR c (VpnError (econnreset env) ''Session closed'')))
                 (um_pending m2) (m2\<lparr>um_pending := []\<rparr>)
      in m3\<lparr>um_pending_error := None\<rparr>)"

definition close_upstream :: "int \<Rightarrow> umux \<Rightarrow> umux" where
  "close_upstream i m =
     (if map_of (um_pool m) i = None then um_fault (AssertFailed ''0'') m
      else
        (let m1 = m\<lparr>um_pool := AList.delete i (um_pool m)\<rparr> in
         if um_pool m1 \<noteq> [] then m1
         else
           (let m2 = m1\<lparr>um_session_open := False\<rparr> in
            case um_pending_error m2 of
              Some e \<Rightarrow> um_raise (SERVER_EVENT_ERROR NON_ID e) (m2\<lparr>um_pending_error := None\<rparr>)
            | None \<Rightarrow> um_raise SERVER_EVENT_SESSION_CLOSED m2)))"

definition umux_is_fatal_error :: "vpn_error \<Rightarrow> bool" where
  "umux_is_fatal_error e \<longleftrightarrow>
     ec e = VPN_EC_AUTH_REQUIRED \<or> ec e = VPN_EC_CERTIFICATE_VERIFICATION_FAILED \<or> ec e = VPN_EC_CERTIFICATE_NOT_YET_VALID"

definition proceed_pending_connection :: "child_env \<Rightarrow> int \<Rightarrow> u64 \<Rightarrow> pending_connection \<Rightarrow> umux \<Rightarrow> umux" where
  "proceed_pending_connection env i conn_id p m =
     (let (ok, m1) = open_connection_on env i conn_id (pc_addr p) (pc_proto p) (pc_app p) m in
      if ok then m1
      else
        (case um_pool m1 of
           [] \<Rightarrow> um_fault (AssertFailed ''!m_upstreams_pool.empty()'') m1
         | (j, _) # _ \<Rightarrow>
             (let (ok', m2) = open_connection_on env j conn_id (pc_addr p) (pc_proto p) (pc_app p) m1 in
              if ok' then m2
              else um_raise (SERVER_EVENT_ERROR conn_id (VpnError (econnrefused env) ''Failed to connect'')) m2)))"

text \<open>
  The two loops over the pending connections. The entry at the iterator is erased after it was handled;
  nothing that happens in between adds or removes another entry.
\<close>

definition proceed_one :: "child_env \<Rightarrow> int \<Rightarrow> u64 \<times> pending_connection \<Rightarrow> umux \<Rightarrow> umux" where
  "proceed_one env i cp m =
     (if pc_upstream (snd cp) = i
      then (let m1 = proceed_pending_connection env i (fst cp) (snd cp) m
            in m1\<lparr>um_pending := AList.delete (fst cp) (um_pending m1)\<rparr>)
      else m)"

definition refuse_one :: "child_env \<Rightarrow> int \<Rightarrow> u64 \<times> pending_connection \<Rightarrow> umux \<Rightarrow> umux" where
  "refuse_one env i cp m =
     (if pc_upstream (snd cp) = i
      then (um_raise (SERVER_EVENT_ERROR (fst cp) (VpnError (econnrefused env) ''Session closed'')) m)
             \<lparr>um_pending := AList.delete (fst cp) (um_pending m)\<rparr>
      else m)"

lemma um_emit_frame [simp]:
  "um_connections (um_emit x m) = um_connections m" "um_pool (um_emit x m) = um_pool m"
  "um_pending (um_emit x m) = um_pending m" "um_pending_error (um_emit x m) = um_pending_error m"
  "um_session_open (um_emit x m) = um_session_open m" "next_upstream_id (um_emit x m) = next_upstream_id m"
  "um_faults (um_emit x m) = um_faults m" "um_out (um_emit x m) = um_out m @ [x]"
  by (simp_all add: um_emit_def)

lemma um_raise_frame [simp]:
  "um_connections (um_raise x m) = um_connections m" "um_pool (um_raise x m) = um_pool m"
  "um_pending (um_raise x m) = um_pending m" "um_pending_error (um_raise x m) = um_pending_error m"
  "um_session_open (um_raise x m) = um_session_open m" "next_upstream_id (um_raise x m) = next_upstream_id m"
  "um_faults (um_raise x m) = um_faults m" "um_out (um_raise x m) = um_out m @ [Raised x]"
  by (simp_all add: um_raise_def)

lemma connection_closed_pool [simp]: "um_pool (connection_closed c m) = um_pool m"
  by (simp add: connection_closed_def um_fault_def Let_def)

lemma fold_connection_closed_pool [simp]: "um_pool (fold connection_closed cs m) = um_pool m"
  by (induction cs arbitrary: m) simp_all

lemma child_close_session_pool [simp]: "um_pool (child_close_session env i m) = um_pool m"
  by (simp add: child_close_session_def)

lemma close_upstream_pool [simp]: "um_pool (close_upstream i m) = AList.delete i (um_pool m)"
  by (auto simp: close_upstream_def um_fault_def Let_def map_of_eq_None_iff delete_id split: option.splits)

text \<open>The loop that closes every upstream after a fatal error.\<close>

function close_all_upstreams :: "child_env \<Rightarrow> umux \<Rightarrow> umux" where
  "close_all_upstreams env m =
     (case um_pool m of
        [] \<Rightarrow> m
      | (i, _) # _ \<Rightarrow> close_all_upstreams env (close_upstream i (child_close_session env i m)))"
  by pat_completeness auto

termination
  by (relation "measure (\<lambda>(env, m). length (um_pool m))") (auto simp: less_Suc_eq_le length_delete_le)

declare close_all_upstreams.simps [simp del]

definition child_upstream_handler :: "child_env \<Rightarrow> int \<Rightarrow> server_event \<Rightarrow> umux \<Rightarrow> umux" where
  "child_upstream_handler env i what m =
     (if map_of (um_pool m) i = None then um_fault (AssertFailed ''0'') m
      else case what of
        SERVER_EVENT_SESSION_OPENED \<Rightarrow>
          (let m1 = (if um_session_open m then m else um_raise SERVER_EVENT_SESSION_OPENED (m\<lparr>um_session_open := True\<rparr>));
               m2 = m1\<lparr>um_pool := AList.update i US_SESSION_OPENED (um_pool m1)\<rparr>
           in fold (proceed_one env i) (um_pending m2) m2)
      | SERVER_EVENT_SESSION_CLOSED \<Rightarrow> close_upstream i (fold (refuse_one env i) (um_pending m) m)
      | SERVER_EVENT_CONNECTION_CLOSED c \<Rightarrow> connection_closed c m
      | SERVER_EVENT_ERROR c e \<Rightarrow>
          if c \<noteq> NON_ID
          then um_raise (SERVER_EVENT_ERROR c e) (m\<lparr>um_connections := AList.delete c (um_connections m)\<rparr>)
          else if umux_is_fatal_error e
          then close_all_upstreams env (if ec e \<noteq> 0 then m\<lparr>um_pending_error := Some e\<rparr> else m)
          else close_upstream i (child_close_session env i m)
      | _ \<Rightarrow> um_raise what m)"

section \<open>The other operations\<close>

definition opened_upstreams :: "umux \<Rightarrow> int list" where
  "opened_upstreams m = map fst (filter (\<lambda>(_, st). st = US_SESSION_OPENED) (um_pool m))"

definition umux_cancel_health_check :: "umux \<Rightarrow> umux" where
  "umux_cancel_health_check m = fold (\<lambda>(i, _). um_emit (Called i ChildCancelHealthCheck)) (um_pool m) m"

definition umux_do_health_check :: "umux \<Rightarrow> umux" where
  "umux_do_health_check m0 =
     (let m = umux_cancel_health_check m0 in
      case opened_upstreams m of
        [] \<Rightarrow> m
      | i # rest \<Rightarrow>
          fold (\<lambda>j. um_emit (Called j (ChildDoHealthCheck False))) rest (um_emit (Called i (ChildDoHealthCheck True)) m))"

definition umux_get_connection_stats :: "child_env \<Rightarrow> umux \<Rightarrow> connection_stats" where
  "umux_get_connection_stats env m =
     fold (\<lambda>i s. \<lparr>rtt_us = max (rtt_us s) (rtt_us (child_stats env i)),
                 packet_loss_ratio = max (packet_loss_ratio s) (packet_loss_ratio (child_stats env i))\<rparr>)
       (opened_upstreams m) \<lparr>rtt_us = 0, packet_loss_ratio = 0\<rparr>"

text \<open>The result is whether the request was handed to a child.\<close>

definition umux_on_icmp_request :: "umux \<Rightarrow> bool \<times> umux" where
  "umux_on_icmp_request m =
     (case opened_upstreams m of
        i # _ \<Rightarrow> (True, um_emit (Called i ChildIcmpRequest) m)
      | [] \<Rightarrow> (False, um_fault (AssertFailed ''0'') m))"

definition umux_handle_sleep :: "umux \<Rightarrow> umux" where
  "umux_handle_sleep m = fold (\<lambda>(i, _). um_emit (Called i ChildSleep)) (um_pool m) m"

definition umux_handle_wake :: "umux \<Rightarrow> umux" where
  "umux_handle_wake m = fold (\<lambda>(i, _). um_emit (Called i ChildWake)) (um_pool m) m"

definition umux_kex_group_nid :: "child_env \<Rightarrow> int \<Rightarrow> umux \<Rightarrow> int" where
  "umux_kex_group_nid env nid_undef m =
     (case opened_upstreams m of i # _ \<Rightarrow> child_kex_group env i | [] \<Rightarrow> nid_undef)"

section \<open>Connections and their final events\<close>

definition live :: "umux \<Rightarrow> u64 set" where
  "live m = fst ` set (um_connections m) \<union> fst ` set (um_pending m)"

fun final_id :: "umux_effect \<Rightarrow> u64 list" where
  "final_id (Raised (SERVER_EVENT_CONNECTION_CLOSED c)) = [c]"
| "final_id (Raised (SERVER_EVENT_ERROR c _)) = (if c = NON_ID then [] else [c])"
| "final_id _ = []"

definition final_ids :: "umux_effect list \<Rightarrow> u64 list" where
  "final_ids es = concat (map final_id es)"

lemma final_ids_simps [simp]: "final_ids [] = []" "final_ids (x # xs) = final_id x @ final_ids xs"
  "final_ids (xs @ ys) = final_ids xs @ final_ids ys"
  by (simp_all add: final_ids_def)

text \<open>The tables of connections, and the pool that they refer to.\<close>

definition conn_inv :: "umux \<Rightarrow> bool" where
  "conn_inv m \<longleftrightarrow>
     distinct (map fst (um_connections m)) \<and> distinct (map fst (um_pending m)) \<and>
     fst ` set (um_connections m) \<inter> fst ` set (um_pending m) = {} \<and> NON_ID \<notin> live m"

definition pool_inv :: "umux \<Rightarrow> bool" where
  "pool_inv m \<longleftrightarrow>
     distinct (map fst (um_pool m)) \<and> length (um_pool m) \<le> DEFAULT_UPSTREAMS_NUM \<and>
     (\<forall>i \<in> fst ` set (um_pool m). i < next_upstream_id m) \<and>
     (\<forall>x \<in> set (um_pending m). pc_upstream (snd x) \<in> fst ` set (um_pool m)) \<and>
     (\<forall>x \<in> set (um_connections m). snd x \<in> fst ` set (um_pool m))"

definition umux_inv :: "umux \<Rightarrow> bool" where
  "umux_inv m \<longleftrightarrow> conn_inv m \<and> pool_inv m"

text \<open>A step that settles exactly the connections \<open>A\<close>, in this order.\<close>

definition settles :: "u64 list \<Rightarrow> umux \<Rightarrow> umux \<Rightarrow> bool" where
  "settles A m m' \<longleftrightarrow>
     conn_inv m' \<and> live m' = live m - set A \<and> distinct A \<and> set A \<subseteq> live m \<and>
     (\<exists>new. um_out m' = um_out m @ new \<and> final_ids new = A)"

lemma settles_trans:
  assumes "settles A m m'" and "settles B m' m''"
  shows "settles (A @ B) m m''"
proof -
  obtain x y where "um_out m' = um_out m @ x" "final_ids x = A" "um_out m'' = um_out m' @ y" "final_ids y = B"
    using assms unfolding settles_def by blast
  then have "um_out m'' = um_out m @ (x @ y) \<and> final_ids (x @ y) = A @ B" by simp
  then have new: "\<exists>new. um_out m'' = um_out m @ new \<and> final_ids new = A @ B" by blast
  have "conn_inv m''" "live m'' = live m - set (A @ B)" "distinct (A @ B)" "set (A @ B) \<subseteq> live m"
    using assms unfolding settles_def by auto
  then show ?thesis using new by (simp add: settles_def)
qed

lemma settles_refl: "conn_inv m \<Longrightarrow> settles [] m m"
  by (simp add: settles_def)

lemma settles_fold:
  assumes "settles [] m m" and "\<And>x s. x \<in> set xs \<Longrightarrow> conn_inv s \<Longrightarrow> P s \<Longrightarrow> settles (f x s) s (g x s) \<and> P (g x s)"
    and "P m"
  shows "\<exists>A. settles A m (fold g xs m) \<and> P (fold g xs m)"
  using assms
proof (induction xs arbitrary: m)
  case Nil
  then show ?case by (intro exI [of _ "[]"]) simp
next
  case (Cons x xs)
  have inv: "conn_inv m" using Cons(2) by (simp add: settles_def)
  have one: "settles (f x m) m (g x m)" "P (g x m)" using Cons(3) [of x m] inv Cons(4) by auto
  then have "settles [] (g x m) (g x m)" by (simp add: settles_def)
  then obtain A where "settles A (g x m) (fold g xs (g x m))" "P (fold g xs (g x m))"
    using Cons(1) [of "g x m"] Cons(3) one(2) by auto
  then show ?case using settles_trans [OF one(1)] by (intro exI [of _ "f x m @ A"]) simp
qed

lemma conn_inv_cong:
  "um_connections m' = um_connections m \<Longrightarrow> um_pending m' = um_pending m \<Longrightarrow> conn_inv m' = conn_inv m"
  "um_connections m' = um_connections m \<Longrightarrow> um_pending m' = um_pending m \<Longrightarrow> live m' = live m"
  by (simp_all add: conn_inv_def live_def)

lemma settles_quiet:
  assumes "conn_inv m" and "um_connections m' = um_connections m" and "um_pending m' = um_pending m"
    and "um_out m' = um_out m @ new" and "final_ids new = []"
  shows "settles [] m m'"
  using assms conn_inv_cong [OF assms(2,3)] by (auto simp: settles_def)

lemma delete_fst: "fst ` set (AList.delete k xs) = fst ` set xs - {k}"
  by (rule delete_fst_set)

lemma distinct_delete_fst: "distinct (map fst xs) \<Longrightarrow> distinct (map fst (AList.delete k xs))"
  by (rule distinct_delete)

lemma settles_connection_closed:
  assumes "conn_inv m" and "c \<in> fst ` set (um_connections m)"
  shows "settles [c] m (connection_closed c m)"
proof -
  have "map_of (um_connections m) c \<noteq> None" using assms(2) by (simp add: map_of_eq_None_iff)
  then have m': "connection_closed c m = um_raise (SERVER_EVENT_CONNECTION_CLOSED c) (m\<lparr>um_connections := AList.delete c (um_connections m)\<rparr>)"
    by (simp add: connection_closed_def)
  have "c \<notin> fst ` set (um_pending m)" using assms by (auto simp: conn_inv_def)
  then show ?thesis
    using assms unfolding m' settles_def
    by (auto simp: conn_inv_def live_def delete_fst distinct_delete_fst)
qed

lemma connection_closed_keeps [simp]:
  "um_pending (connection_closed c m) = um_pending m"
  "next_upstream_id (connection_closed c m) = next_upstream_id m"
  "um_connections (connection_closed c m) = AList.delete c (um_connections m)"
  by (simp_all add: connection_closed_def um_fault_def Let_def)

lemma settles_closed_list:
  "conn_inv m \<Longrightarrow> distinct cs \<Longrightarrow> set cs \<subseteq> fst ` set (um_connections m) \<Longrightarrow> settles cs m (fold connection_closed cs m)"
proof (induction cs arbitrary: m)
  case (Cons c cs)
  have one: "settles [c] m (connection_closed c m)" using Cons by (intro settles_connection_closed) auto
  moreover have "settles cs (connection_closed c m) (fold connection_closed cs (connection_closed c m))"
    using Cons one by (intro Cons(1)) (auto simp: settles_def delete_fst)
  ultimately show ?case using settles_trans [of "[c]"] by simp
qed (simp add: settles_refl)

lemma fold_connection_closed_keeps [simp]:
  "um_pending (fold connection_closed cs m) = um_pending m"
  "next_upstream_id (fold connection_closed cs m) = next_upstream_id m"
  "set (um_connections (fold connection_closed cs m)) = {x \<in> set (um_connections m). fst x \<notin> set cs}"
  by (induction cs arbitrary: m) (auto simp: AList.delete_eq)

lemma settles_child_close:
  assumes "conn_inv m" and "distinct (child_connections env i)" and "set (child_connections env i) \<subseteq> fst ` set (um_connections m)"
  shows "settles (child_connections env i) m (child_close_session env i m)"
proof -
  let ?m1 = "um_emit (Called i ChildCloseSession) m"
  have one: "settles [] m ?m1" by (rule settles_quiet [OF assms(1), of _ "[Called i ChildCloseSession]"]) simp_all
  then have "conn_inv ?m1" by (simp add: settles_def)
  then have "settles (child_connections env i) ?m1 (child_close_session env i m)"
    unfolding child_close_session_def using assms(2,3) by (intro settles_closed_list) simp_all
  then show ?thesis using settles_trans [OF one] by simp
qed

lemma child_close_session_keeps [simp]:
  "um_pending (child_close_session env i m) = um_pending m"
  "next_upstream_id (child_close_session env i m) = next_upstream_id m"
  "set (um_connections (child_close_session env i m)) = {x \<in> set (um_connections m). fst x \<notin> set (child_connections env i)}"
  by (simp_all add: child_close_session_def)

lemma close_upstream_keeps [simp]:
  "um_pending (close_upstream i m) = um_pending m" "um_connections (close_upstream i m) = um_connections m"
  "next_upstream_id (close_upstream i m) = next_upstream_id m"
  by (auto simp: close_upstream_def um_fault_def Let_def split: option.splits)

lemma settles_close_upstream: "conn_inv m \<Longrightarrow> settles [] m (close_upstream i m)"
proof -
  assume inv: "conn_inv m"
  have "\<exists>new. um_out (close_upstream i m) = um_out m @ new \<and> final_ids new = []"
    by (auto simp: close_upstream_def um_fault_def Let_def split: option.splits)
  then show ?thesis using settles_quiet [OF inv, of "close_upstream i m"] by auto
qed

text \<open>The loop that refuses the pending connections of a closed session.\<close>

lemma conn_inv_pending:
  "conn_inv m \<Longrightarrow> c \<in> fst ` set (um_pending m) \<Longrightarrow> c \<noteq> NON_ID \<and> c \<notin> fst ` set (um_connections m)"
  unfolding conn_inv_def live_def by blast

lemma settles_failed:
  assumes "conn_inv m" and "c \<in> fst ` set (um_pending m)" and "um_connections m' = um_connections m"
    and "um_pending m' = AList.delete c (um_pending m)" and "um_out m' = um_out m @ new" and "final_ids new = [c]"
  shows "settles [c] m m'"
proof -
  have "c \<notin> fst ` set (um_connections m)" using conn_inv_pending [OF assms(1,2)] by simp
  then have "live m' = live m - {c}" unfolding live_def assms(3,4) delete_fst by blast
  moreover have "conn_inv m'"
    using assms(1) unfolding conn_inv_def live_def assms(3,4) delete_fst by (auto simp: distinct_delete_fst)
  moreover have "c \<in> live m" using assms(2) unfolding live_def by blast
  ultimately show ?thesis unfolding settles_def using assms(5,6) by auto
qed

lemma settles_refuse_one:
  assumes "conn_inv m" and "cp \<in> set (um_pending m)" and "pc_upstream (snd cp) = i"
  shows "settles [fst cp] m (refuse_one env i cp m)"
proof -
  have key: "fst cp \<in> fst ` set (um_pending m)" using assms(2) by simp
  let ?m' = "refuse_one env i cp m"
  have m': "um_connections ?m' = um_connections m" "um_pending ?m' = AList.delete (fst cp) (um_pending m)"
    "um_out ?m' = um_out m @ [Raised (SERVER_EVENT_ERROR (fst cp) (VpnError (econnrefused env) ''Session closed''))]"
    using assms(3) by (simp_all add: refuse_one_def)
  show ?thesis
    by (rule settles_failed [OF assms(1) key m']) (simp add: conn_inv_pending [OF assms(1) key])
qed

lemma refuse_one_keeps [simp]:
  "um_connections (refuse_one env i cp m) = um_connections m" "um_pool (refuse_one env i cp m) = um_pool m"
  "next_upstream_id (refuse_one env i cp m) = next_upstream_id m"
  "set (um_pending (refuse_one env i cp m)) =
     {x \<in> set (um_pending m). pc_upstream (snd cp) = i \<longrightarrow> fst x \<noteq> fst cp}"
  by (auto simp: refuse_one_def AList.delete_eq)

definition keys_on :: "int \<Rightarrow> (u64 \<times> pending_connection) list \<Rightarrow> u64 list" where
  "keys_on i xs = map fst (filter (\<lambda>cp. pc_upstream (snd cp) = i) xs)"

lemma refuse_fold:
  assumes "conn_inv m" and "distinct (map fst xs)" and "set xs \<subseteq> set (um_pending m)"
  shows "settles (keys_on i xs) m (fold (refuse_one env i) xs m) \<and>
    um_connections (fold (refuse_one env i) xs m) = um_connections m \<and> um_pool (fold (refuse_one env i) xs m) = um_pool m \<and>
    next_upstream_id (fold (refuse_one env i) xs m) = next_upstream_id m \<and>
    set (um_pending (fold (refuse_one env i) xs m)) = {x \<in> set (um_pending m). fst x \<notin> set (keys_on i xs)}"
  using assms
proof (induction xs arbitrary: m)
  case (Cons cp xs)
  let ?m1 = "refuse_one env i cp m"
  have one: "settles (if pc_upstream (snd cp) = i then [fst cp] else []) m ?m1"
  proof (cases "pc_upstream (snd cp) = i")
    case True
    then show ?thesis using settles_refuse_one [OF Cons(2)] Cons(4) by simp
  next
    case False
    then have "?m1 = m" by (simp add: refuse_one_def)
    then show ?thesis using False Cons(2) by (simp add: settles_refl)
  qed
  have "fst cp \<notin> fst ` set xs" using Cons(3) by simp
  then have "set xs \<subseteq> set (um_pending ?m1)" using Cons(4) by (auto simp: image_iff)
  moreover have "conn_inv ?m1" using one by (simp add: settles_def)
  ultimately have rest: "settles (keys_on i xs) ?m1 (fold (refuse_one env i) xs ?m1) \<and>
      um_connections (fold (refuse_one env i) xs ?m1) = um_connections ?m1 \<and> um_pool (fold (refuse_one env i) xs ?m1) = um_pool ?m1 \<and>
      next_upstream_id (fold (refuse_one env i) xs ?m1) = next_upstream_id ?m1 \<and>
      set (um_pending (fold (refuse_one env i) xs ?m1)) = {x \<in> set (um_pending ?m1). fst x \<notin> set (keys_on i xs)}"
    using Cons(1) [of ?m1] Cons(3) by auto
  have "settles (keys_on i (cp # xs)) m (fold (refuse_one env i) xs ?m1)"
    using settles_trans [OF one conjunct1 [OF rest]] by (simp add: keys_on_def split: if_splits)
  then show ?case using rest by (auto simp: keys_on_def)
qed (auto simp: keys_on_def settles_refl)

text \<open>The loop that opens the pending connections of a session.\<close>

lemma settles_moved:
  assumes "conn_inv m" and "c \<in> fst ` set (um_pending m)" and "um_connections m' = um_connections m @ [(c, k)]"
    and "um_pending m' = AList.delete c (um_pending m)" and "um_out m' = um_out m @ new" and "final_ids new = []"
  shows "settles [] m m'"
proof -
  have fresh: "c \<notin> fst ` set (um_connections m)" "c \<noteq> NON_ID" using conn_inv_pending [OF assms(1,2)] by simp_all
  have keys: "fst ` set (um_connections m') = insert c (fst ` set (um_connections m))" using assms(3) by simp
  have "live m' = live m" using assms(2) unfolding live_def assms(4) delete_fst keys by blast
  moreover have "conn_inv m'"
    using assms(1) fresh unfolding conn_inv_def live_def assms(4) delete_fst keys by (auto simp: distinct_delete_fst assms(3))
  ultimately show ?thesis unfolding settles_def using assms(5,6) by auto
qed

lemma emplace_new: "c \<notin> fst ` set xs \<Longrightarrow> emplace c v xs = xs @ [(c, v)]"
  by (simp add: emplace_def map_of_eq_None_iff)

lemma proceed_one_settles:
  assumes inv: "conn_inv m" and cp: "cp \<in> set (um_pending m)" "pc_upstream (snd cp) = i"
    and i: "map_of (um_pool m) i = Some US_SESSION_OPENED"
    and ok: "child_opens_connection env i (fst cp) \<or> map_of (um_pool m) (fst (hd (um_pool m))) = Some US_SESSION_OPENED"
  shows "\<exists>A. settles A m (proceed_one env i cp m) \<and> um_pool (proceed_one env i cp m) = um_pool m \<and>
    next_upstream_id (proceed_one env i cp m) = next_upstream_id m \<and>
    um_pending (proceed_one env i cp m) = AList.delete (fst cp) (um_pending m) \<and>
    (\<forall>x \<in> set (um_connections (proceed_one env i cp m)).
       x \<in> set (um_connections m) \<or> map_of (um_pool m) (snd x) = Some US_SESSION_OPENED)"
proof -
  let ?c = "fst cp" and ?p = "snd cp"
  have key: "?c \<in> fst ` set (um_pending m)" using cp(1) by simp
  then have new: "?c \<notin> fst ` set (um_connections m)" "?c \<noteq> NON_ID" using conn_inv_pending [OF inv] by simp_all
  have open_on: "open_connection_on env k ?c (pc_addr ?p) (pc_proto ?p) (pc_app ?p) s =
      (let s1 = um_emit (Called k (ChildOpenConnection ?c (pc_addr ?p) (pc_proto ?p) (pc_app ?p))) s in
       if child_opens_connection env k ?c then (True, s1\<lparr>um_connections := um_connections m @ [(?c, k)]\<rparr>) else (False, s1))"
    if "map_of (um_pool s) k = Some US_SESSION_OPENED" "um_connections s = um_connections m" for k s
    using that new by (simp add: open_connection_on_def emplace_new Let_def)
  obtain j st rest where pool: "um_pool m = (j, st) # rest" using i by (cases "um_pool m") auto
  show ?thesis
  proof (cases "child_opens_connection env i ?c")
    case True
    then show ?thesis
      using cp(2) i open_on [OF i] settles_moved [OF inv key, of "proceed_one env i cp m" i]
      by (intro exI [of _ "[]"]) (auto simp: proceed_one_def proceed_pending_connection_def Let_def)
  next
    case False
    then have j: "map_of (um_pool m) j = Some US_SESSION_OPENED" using ok pool by simp
    define m1 where "m1 = um_emit (Called i (ChildOpenConnection ?c (pc_addr ?p) (pc_proto ?p) (pc_app ?p))) m"
    have m1: "open_connection_on env i ?c (pc_addr ?p) (pc_proto ?p) (pc_app ?p) m = (False, m1)"
      using open_on [OF i] False by (simp add: m1_def Let_def)
    have fall: "open_connection_on env j ?c (pc_addr ?p) (pc_proto ?p) (pc_app ?p) m1 =
        (let s1 = um_emit (Called j (ChildOpenConnection ?c (pc_addr ?p) (pc_proto ?p) (pc_app ?p))) m1 in
         if child_opens_connection env j ?c then (True, s1\<lparr>um_connections := um_connections m @ [(?c, j)]\<rparr>) else (False, s1))"
      using open_on [of m1 j] j by (simp add: m1_def)
    have out: "um_out m1 = um_out m @ [Called i (ChildOpenConnection ?c (pc_addr ?p) (pc_proto ?p) (pc_app ?p))]"
      "um_pool m1 = um_pool m" "um_pending m1 = um_pending m" "um_connections m1 = um_connections m" "next_upstream_id m1 = next_upstream_id m"
      by (simp_all add: m1_def)
    show ?thesis
    proof (cases "child_opens_connection env j ?c")
      case True
      have eq: "proceed_one env i cp m = (um_emit (Called j (ChildOpenConnection ?c (pc_addr ?p) (pc_proto ?p) (pc_app ?p))) m1)
          \<lparr>um_connections := um_connections m @ [(?c, j)], um_pending := AList.delete ?c (um_pending m)\<rparr>"
        using True cp(2) by (simp add: proceed_one_def proceed_pending_connection_def m1 fall out pool Let_def)
      show ?thesis
        using settles_moved [OF inv key, of "proceed_one env i cp m" j] j unfolding eq
        by (intro exI [of _ "[]"]) (auto simp: out)
    next
      case fail: False
      have eq: "proceed_one env i cp m =
          (um_raise (SERVER_EVENT_ERROR ?c (VpnError (econnrefused env) ''Failed to connect''))
            (um_emit (Called j (ChildOpenConnection ?c (pc_addr ?p) (pc_proto ?p) (pc_app ?p))) m1))
          \<lparr>um_pending := AList.delete ?c (um_pending m)\<rparr>"
        using fail cp(2) by (simp add: proceed_one_def proceed_pending_connection_def m1 fall out pool Let_def)
      show ?thesis
        using settles_failed [OF inv key, of "proceed_one env i cp m"] new unfolding eq
        by (intro exI [of _ "[?c]"]) (auto simp: out)
    qed
  qed
qed

lemma proceed_fold:
  assumes "conn_inv m" and "distinct (map fst xs)" and "set xs \<subseteq> set (um_pending m)"
    and "map_of (um_pool m) i = Some US_SESSION_OPENED"
    and "\<forall>cp \<in> set xs. pc_upstream (snd cp) = i \<longrightarrow>
      child_opens_connection env i (fst cp) \<or> map_of (um_pool m) (fst (hd (um_pool m))) = Some US_SESSION_OPENED"
  shows "\<exists>A. settles A m (fold (proceed_one env i) xs m) \<and> um_pool (fold (proceed_one env i) xs m) = um_pool m \<and>
    next_upstream_id (fold (proceed_one env i) xs m) = next_upstream_id m \<and>
    set (um_pending (fold (proceed_one env i) xs m)) = {x \<in> set (um_pending m). fst x \<notin> set (keys_on i xs)} \<and>
    (\<forall>x \<in> set (um_connections (fold (proceed_one env i) xs m)).
       x \<in> set (um_connections m) \<or> map_of (um_pool m) (snd x) = Some US_SESSION_OPENED)"
  using assms
proof (induction xs arbitrary: m)
  case Nil
  then show ?case by (intro exI [of _ "[]"]) (simp add: settles_refl keys_on_def)
next
  case (Cons cp xs)
  let ?m1 = "proceed_one env i cp m"
  obtain A where one: "settles A m ?m1" "um_pool ?m1 = um_pool m" "next_upstream_id ?m1 = next_upstream_id m"
      "set (um_pending ?m1) = {x \<in> set (um_pending m). pc_upstream (snd cp) = i \<longrightarrow> fst x \<noteq> fst cp}"
      "\<forall>x \<in> set (um_connections ?m1). x \<in> set (um_connections m) \<or> map_of (um_pool m) (snd x) = Some US_SESSION_OPENED"
  proof (cases "pc_upstream (snd cp) = i")
    case True
    have "cp \<in> set (um_pending m)" using Cons(4) by simp
    moreover have "child_opens_connection env i (fst cp) \<or> map_of (um_pool m) (fst (hd (um_pool m))) = Some US_SESSION_OPENED"
      using Cons(6) True by simp
    ultimately obtain A where "settles A m ?m1" "um_pool ?m1 = um_pool m" "next_upstream_id ?m1 = next_upstream_id m"
        "um_pending ?m1 = AList.delete (fst cp) (um_pending m)"
        "\<forall>x \<in> set (um_connections ?m1). x \<in> set (um_connections m) \<or> map_of (um_pool m) (snd x) = Some US_SESSION_OPENED"
      using proceed_one_settles [OF Cons(2) _ True Cons(5)] by blast
    then show thesis using that [of A] True by (simp add: set_delete_eq)
  next
    case False
    then have "?m1 = m" by (simp add: proceed_one_def)
    then show thesis using that [of "[]"] False Cons(2) by (simp add: settles_refl)
  qed
  have "fst cp \<notin> fst ` set xs" using Cons(3) by simp
  then have sub: "set xs \<subseteq> set (um_pending ?m1)" using Cons(4) one(4) by (auto simp: image_iff)
  have "conn_inv ?m1" using one(1) by (simp add: settles_def)
  then obtain B where rest: "settles B ?m1 (fold (proceed_one env i) xs ?m1)" "um_pool (fold (proceed_one env i) xs ?m1) = um_pool m"
      "next_upstream_id (fold (proceed_one env i) xs ?m1) = next_upstream_id m"
      "set (um_pending (fold (proceed_one env i) xs ?m1)) = {x \<in> set (um_pending ?m1). fst x \<notin> set (keys_on i xs)}"
      "\<forall>x \<in> set (um_connections (fold (proceed_one env i) xs ?m1)).
         x \<in> set (um_connections ?m1) \<or> map_of (um_pool m) (snd x) = Some US_SESSION_OPENED"
    using Cons(1) [of ?m1] sub Cons(3,5,6) one(2,3) by auto
  have "set (um_pending (fold (proceed_one env i) xs ?m1)) = {x \<in> set (um_pending m). fst x \<notin> set (keys_on i (cp # xs))}"
    unfolding rest(4) one(4) by (auto simp: keys_on_def)
  then show ?case
    using settles_trans [OF one(1) rest(1)] rest(2,3,5) one(5) by (intro exI [of _ "A @ B"]) auto
qed

text \<open>The children know their connections.\<close>

definition child_lists_match :: "child_env \<Rightarrow> umux \<Rightarrow> int \<Rightarrow> bool" where
  "child_lists_match env m i \<longleftrightarrow>
     distinct (child_connections env i) \<and> set (child_connections env i) = fst ` {x \<in> set (um_connections m). snd x = i}"

lemma key_unique: "distinct (map fst xs) \<Longrightarrow> x \<in> set xs \<Longrightarrow> y \<in> set xs \<Longrightarrow> fst x = fst y \<Longrightarrow> x = y"
  by (metis eq_key_imp_eq_value prod.collapse)

lemma child_closed_connections:
  assumes "conn_inv m" and "child_lists_match env m i"
  shows "{x \<in> set (um_connections m). fst x \<notin> set (child_connections env i)} = {x \<in> set (um_connections m). snd x \<noteq> i}"
proof -
  have d: "distinct (map fst (um_connections m))" using assms(1) by (simp add: conn_inv_def)
  have "fst x \<in> set (child_connections env i) \<longleftrightarrow> snd x = i" if x: "x \<in> set (um_connections m)" for x
  proof
    assume "fst x \<in> set (child_connections env i)"
    then obtain y where "y \<in> set (um_connections m)" "snd y = i" "fst y = fst x"
      using assms(2) by (auto simp: child_lists_match_def)
    then show "snd x = i" using key_unique [OF d x] by metis
  qed (use assms(2) x in \<open>auto simp: child_lists_match_def\<close>)
  then show ?thesis by blast
qed

lemma child_close_one:
  assumes "conn_inv m" and "child_lists_match env m i"
  shows "settles (child_connections env i) m (child_close_session env i m)"
    and "set (um_connections (child_close_session env i m)) = {x \<in> set (um_connections m). snd x \<noteq> i}"
    and "\<And>j. j \<noteq> i \<Longrightarrow> child_lists_match env m j \<Longrightarrow> child_lists_match env (child_close_session env i m) j"
proof -
  show "settles (child_connections env i) m (child_close_session env i m)"
    using assms by (intro settles_child_close) (auto simp: child_lists_match_def)
  show conns: "set (um_connections (child_close_session env i m)) = {x \<in> set (um_connections m). snd x \<noteq> i}"
    using child_closed_connections [OF assms] by simp
  show "\<And>j. j \<noteq> i \<Longrightarrow> child_lists_match env m j \<Longrightarrow> child_lists_match env (child_close_session env i m) j"
    unfolding child_lists_match_def conns by (auto simp: image_iff)
qed

lemma child_close_list:
  assumes "conn_inv m" and "distinct is" and "\<forall>i \<in> set is. child_lists_match env m i"
  shows "settles (concat (map (child_connections env) is)) m (fold (child_close_session env) is m) \<and>
    set (um_connections (fold (child_close_session env) is m)) = {x \<in> set (um_connections m). snd x \<notin> set is} \<and>
    um_pending (fold (child_close_session env) is m) = um_pending m"
  using assms
proof (induction "is" arbitrary: m)
  case (Cons i "is")
  let ?m1 = "child_close_session env i m"
  note one = child_close_one [OF Cons(2), of env i]
  have match: "child_lists_match env m i" "\<forall>j \<in> set is. child_lists_match env ?m1 j"
  proof -
    show first: "child_lists_match env m i" using Cons(4) by simp
    show "\<forall>j \<in> set is. child_lists_match env ?m1 j"
    proof
      fix j assume j: "j \<in> set is"
      then have "j \<noteq> i" "child_lists_match env m j" using Cons(3,4) by auto
      then show "child_lists_match env ?m1 j" by (rule one(3) [OF first])
    qed
  qed
  have "conn_inv ?m1" using one(1) [OF match(1)] by (simp add: settles_def)
  then have "settles (concat (map (child_connections env) is)) ?m1 (fold (child_close_session env) is ?m1) \<and>
      set (um_connections (fold (child_close_session env) is ?m1)) = {x \<in> set (um_connections ?m1). snd x \<notin> set is} \<and>
      um_pending (fold (child_close_session env) is ?m1) = um_pending ?m1"
    using Cons(1) [of ?m1] Cons(3) match(2) by simp
  then show ?case using settles_trans [OF one(1) [OF match(1)]] one(2) [OF match(1)] by auto
qed (simp add: settles_refl)

text \<open>Closing every upstream.\<close>

lemma close_all_settles:
  assumes "conn_inv m" and "distinct (map fst (um_pool m))" and "\<forall>i \<in> fst ` set (um_pool m). child_lists_match env m i"
  shows "\<exists>A. settles A m (close_all_upstreams env m) \<and> um_pool (close_all_upstreams env m) = [] \<and>
    um_pending (close_all_upstreams env m) = um_pending m \<and>
    next_upstream_id (close_all_upstreams env m) = next_upstream_id m \<and>
    set (um_connections (close_all_upstreams env m)) = {x \<in> set (um_connections m). snd x \<notin> fst ` set (um_pool m)}"
  using assms
proof (induction env m rule: close_all_upstreams.induct)
  case (1 env m)
  show ?case
  proof (cases "um_pool m")
    case Nil
    then have "close_all_upstreams env m = m" by (subst close_all_upstreams.simps) simp
    then show ?thesis using 1(2) Nil by (intro exI [of _ "[]"]) (simp add: settles_refl)
  next
    case (Cons x rest)
    obtain i st where x: "x = (i, st)" by force
    let ?m1 = "child_close_session env i m" and ?m2 = "close_upstream i (child_close_session env i m)"
    have eq: "close_all_upstreams env m = close_all_upstreams env ?m2"
      by (subst close_all_upstreams.simps) (simp add: Cons x)
    have match: "child_lists_match env m i" using 1(4) Cons x by simp
    note one = child_close_one [OF 1(2) match]
    have s2: "settles (child_connections env i) m ?m2"
      using settles_trans [OF one(1) settles_close_upstream [of ?m1 i]] one(1) by (simp add: settles_def)
    then have inv2: "conn_inv ?m2" by (simp add: settles_def)
    have pool2: "um_pool ?m2 = rest" using Cons x 1(3) by (simp add: delete_id map_of_eq_None_iff)
    have match2: "\<forall>j \<in> fst ` set (um_pool ?m2). child_lists_match env ?m2 j"
    proof
      fix j assume j: "j \<in> fst ` set (um_pool ?m2)"
      then have "j \<noteq> i" "child_lists_match env m j" using pool2 1(3,4) Cons x by auto
      then have "child_lists_match env ?m1 j" using one(3) by blast
      then show "child_lists_match env ?m2 j" by (simp add: child_lists_match_def)
    qed
    have d2: "distinct (map fst (um_pool ?m2))" using pool2 1(3) Cons by simp
    obtain A where A: "settles A ?m2 (close_all_upstreams env ?m2)" "um_pool (close_all_upstreams env ?m2) = []"
        "um_pending (close_all_upstreams env ?m2) = um_pending m" "next_upstream_id (close_all_upstreams env ?m2) = next_upstream_id m"
        "set (um_connections (close_all_upstreams env ?m2)) = {y \<in> set (um_connections ?m2). snd y \<notin> fst ` set (um_pool ?m2)}"
      using 1(1) [OF Cons x [symmetric] inv2 d2 match2] by auto
    have "set (um_connections (close_all_upstreams env ?m2)) = {y \<in> set (um_connections m). snd y \<notin> fst ` set (um_pool m)}"
      unfolding A(5) pool2 using one(2) Cons x by auto
    then show ?thesis
      unfolding eq using settles_trans [OF s2 A(1)] A(2-4) by blast
  qed
qed

section \<open>Opening connections\<close>

lemma least_loaded_in: "least_loaded env ignored best pool = Some j \<Longrightarrow> best = Some j \<or> j \<in> fst ` set pool"
  by (induction env ignored best pool rule: least_loaded.induct) (auto split: if_splits option.splits)

lemma least_loaded_Some: "best \<noteq> None \<Longrightarrow> least_loaded env None best pool \<noteq> None"
  by (induction pool arbitrary: best) (auto split: option.splits)

lemma least_loaded_None: "least_loaded env None None pool = None \<Longrightarrow> pool = []"
  using least_loaded_Some [of "Some (fst (hd pool))" env "tl pool"] by (cases pool) auto

lemma select_existing_in: "select_existing_upstream env ignored allow m = Some j \<Longrightarrow> j \<in> fst ` set (um_pool m)"
  by (force simp: select_existing_upstream_def dest: find_SomeD least_loaded_in split: option.splits if_splits)

text \<open>A new upstream is opened only when all others are loaded and there is room for it.\<close>

lemma select_existing_none:
  assumes "select_existing_upstream env None False m = None" and "um_pool m \<noteq> []"
  shows "length (um_pool m) \<noteq> DEFAULT_UPSTREAMS_NUM"
    and "\<forall>i \<in> fst ` set (um_pool m). NEW_UPSTREAM_CONNECTIONS_NUM_THRESHOLD \<le> connections_num_by_upstream env i m"
proof -
  have none: "List.find (\<lambda>(i, _). connections_num_by_upstream env i m < NEW_UPSTREAM_CONNECTIONS_NUM_THRESHOLD) (um_pool m) = None"
    using assms(1) by (auto simp: select_existing_upstream_def split: option.splits prod.splits)
  then show "\<forall>i \<in> fst ` set (um_pool m). NEW_UPSTREAM_CONNECTIONS_NUM_THRESHOLD \<le> connections_num_by_upstream env i m"
    by (auto simp: find_None_iff not_less)
  show "length (um_pool m) \<noteq> DEFAULT_UPSTREAMS_NUM"
    using assms least_loaded_None [of env "um_pool m"] none by (auto simp: select_existing_upstream_def)
qed

definition admits :: "u64 \<Rightarrow> bool \<Rightarrow> umux \<Rightarrow> umux \<Rightarrow> bool" where
  "admits c ok m m' \<longleftrightarrow>
     umux_inv m' \<and> live m' = (if ok then insert c (live m) else live m) \<and>
     (\<exists>new. um_out m' = um_out m @ new \<and> final_ids new = [])"

lemma pool_inv_frame:
  assumes "pool_inv m" and "um_pool m' = um_pool m" and "next_upstream_id m \<le> next_upstream_id m'"
    and "set (um_pending m') \<subseteq> set (um_pending m)" and "set (um_connections m') \<subseteq> set (um_connections m)"
  shows "pool_inv m'"
proof -
  have "i < next_upstream_id m'" if "i \<in> fst ` set (um_pool m)" for i
    using that assms(1,3) unfolding pool_inv_def by (meson order_less_le_trans)
  then show ?thesis using assms(1,4,5) unfolding pool_inv_def assms(2) by blast
qed

lemma conn_inv_add_pending:
  "conn_inv m \<Longrightarrow> c \<notin> live m \<Longrightarrow> c \<noteq> NON_ID \<Longrightarrow> um_connections m' = um_connections m \<Longrightarrow>
     um_pending m' = um_pending m @ [(c, p)] \<Longrightarrow> conn_inv m' \<and> live m' = insert c (live m)"
  by (auto simp: conn_inv_def live_def)

lemma conn_inv_add_connection:
  "conn_inv m \<Longrightarrow> c \<notin> live m \<Longrightarrow> c \<noteq> NON_ID \<Longrightarrow> um_pending m' = um_pending m \<Longrightarrow>
     um_connections m' = um_connections m @ [(c, i)] \<Longrightarrow> conn_inv m' \<and> live m' = insert c (live m)"
  by (auto simp: conn_inv_def live_def)

lemma open_connection_on_admits:
  assumes inv: "umux_inv m" and fresh: "c \<notin> live m" "c \<noteq> NON_ID" and i: "i \<in> fst ` set (um_pool m)"
    and eq: "open_connection_on env i c a proto app m = (ok, m')"
  shows "admits c ok m m' \<and> um_pool m' = um_pool m"
proof -
  have new: "c \<notin> fst ` set (um_connections m)" "c \<notin> fst ` set (um_pending m)" using fresh by (auto simp: live_def)
  have ci: "conn_inv m" and pi: "pool_inv m" using inv by (simp_all add: umux_inv_def)
  obtain st where st: "map_of (um_pool m) i = Some st" using i by (metis map_of_eq_None_iff not_None_eq)
  show ?thesis
  proof (cases st)
    case US_OPENING_SESSION
    then have m': "ok" "m' = m\<lparr>um_pending := um_pending m @ [(c, pending_of i a proto app)]\<rparr>"
      using eq st new by (auto simp: open_connection_on_def emplace_new)
    have "pool_inv m'" using pi i by (simp add: pool_inv_def m' pending_of_def)
    then show ?thesis
      using conn_inv_add_pending [OF ci fresh, of m'] m' by (simp add: admits_def umux_inv_def)
  next
    case US_SESSION_OPENED
    define call where "call = Called i (ChildOpenConnection c a proto app)"
    show ?thesis
    proof (cases "child_opens_connection env i c")
      case True
      then have m': "ok" "m' = (um_emit call m)\<lparr>um_connections := um_connections m @ [(c, i)]\<rparr>"
        using eq st new US_SESSION_OPENED by (auto simp: open_connection_on_def emplace_new Let_def call_def)
      have "pool_inv m'" using pi i by (simp add: pool_inv_def m')
      then show ?thesis
        using conn_inv_add_connection [OF ci fresh, of m'] m' by (simp add: admits_def umux_inv_def call_def)
    next
      case False
      then have m': "\<not> ok" "m' = um_emit call m"
        using eq st US_SESSION_OPENED by (auto simp: open_connection_on_def Let_def call_def)
      have "pool_inv m'" using pool_inv_frame [OF pi, of m'] by (simp add: m')
      then show ?thesis using ci m' conn_inv_cong [of m' m] by (simp add: admits_def umux_inv_def call_def)
    qed
  qed
qed

lemma update_new_key: "k \<notin> fst ` set xs \<Longrightarrow> AList.update k v xs = xs @ [(k, v)]"
  by (induction xs) auto

lemma open_new_upstream_inv:
  assumes "umux_inv m" and "i \<notin> fst ` set (um_pool m)" and "i < next_upstream_id m" and "length (um_pool m) < DEFAULT_UPSTREAMS_NUM"
    and "open_new_upstream env i m = (ok, m')"
  shows "umux_inv m' \<and> um_connections m' = um_connections m \<and> um_pending m' = um_pending m \<and>
    um_pool m' = (if ok then um_pool m @ [(i, US_OPENING_SESSION)] else um_pool m) \<and>
    (\<exists>new. um_out m' = um_out m @ new \<and> final_ids new = [])"
proof -
  have none: "map_of (um_pool m) i = None" using assms(2) by (simp add: map_of_eq_None_iff)
  have upd: "AList.update i US_OPENING_SESSION (um_pool m) = um_pool m @ [(i, US_OPENING_SESSION)]"
    using assms(2) by (simp add: update_new_key)
  show ?thesis
  proof (cases "child_opens_session env i")
    case True
    then have m': "ok" "m' = (um_emit (Called i ChildOpenSession) m)\<lparr>um_pool := um_pool m @ [(i, US_OPENING_SESSION)]\<rparr>"
      using assms(5) none upd by (auto simp: open_new_upstream_def Let_def)
    have "pool_inv m'"
      using assms(1-4) by (simp add: umux_inv_def pool_inv_def m')
    moreover have "conn_inv m'" using assms(1) conn_inv_cong [of m' m] by (simp add: umux_inv_def m')
    ultimately show ?thesis by (simp add: umux_inv_def m')
  next
    case False
    then have m': "\<not> ok" "m' = um_emit (Called i ChildOpenSession) m"
      using assms(5) none by (auto simp: open_new_upstream_def Let_def)
    have "umux_inv m'" using assms(1) conn_inv_cong [of m' m] pool_inv_frame [of m m'] by (simp add: umux_inv_def m')
    then show ?thesis by (simp add: m')
  qed
qed

lemma select_upstream_cases:
  assumes "umux_inv m" and "select_upstream_for_connection env m = (i, m1)"
  shows "umux_inv m1 \<and> um_connections m1 = um_connections m \<and> um_pending m1 = um_pending m \<and> um_pool m1 = um_pool m \<and>
    um_out m1 = um_out m \<and> (um_pool m = [] \<or> i \<in> fst ` set (um_pool m) \<or> length (um_pool m) \<noteq> DEFAULT_UPSTREAMS_NUM) \<and>
    (i \<notin> fst ` set (um_pool m) \<longrightarrow> i < next_upstream_id m1)"
proof (cases "select_existing_upstream env None False m")
  case None
  then have m1: "i = next_upstream_id m" "m1 = m\<lparr>next_upstream_id := next_upstream_id m + 1\<rparr>"
    using assms(2) by (auto simp: select_upstream_for_connection_def)
  have "umux_inv m1" using assms(1) conn_inv_cong [of m1 m] pool_inv_frame [of m m1] by (simp add: umux_inv_def m1)
  moreover have "um_pool m = [] \<or> length (um_pool m) \<noteq> DEFAULT_UPSTREAMS_NUM" using select_existing_none(1) [OF None] by blast
  ultimately show ?thesis by (auto simp: m1)
next
  case (Some j)
  then have "i = j" "m1 = m" using assms(2) by (auto simp: select_upstream_for_connection_def)
  then show ?thesis using assms(1) select_existing_in [OF Some] by simp
qed

lemma umux_open_session_inv:
  assumes "umux_inv m" and "um_pool m = []"
  shows "umux_inv (snd (umux_open_session env m)) \<and> live (snd (umux_open_session env m)) = live m \<and>
    (\<exists>new. um_out (snd (umux_open_session env m)) = um_out m @ new \<and> final_ids new = [])"
proof -
  obtain i m1 where sel: "select_upstream_for_connection env m = (i, m1)" by fastforce
  note s = select_upstream_cases [OF assms(1) sel]
  obtain ok m2 where op: "open_new_upstream env i m1 = (ok, m2)" by fastforce
  have "i \<notin> fst ` set (um_pool m1)" "i < next_upstream_id m1" "length (um_pool m1) < DEFAULT_UPSTREAMS_NUM"
    using s assms(2) by (simp_all add: DEFAULT_UPSTREAMS_NUM_def)
  then have "umux_inv m2 \<and> um_connections m2 = um_connections m \<and> um_pending m2 = um_pending m \<and> (\<exists>new. um_out m2 = um_out m @ new \<and> final_ids new = [])"
    using open_new_upstream_inv [OF _ _ _ _ op] s by metis
  then show ?thesis using assms(2) conn_inv_cong(2) [of m2 m] by (simp add: umux_open_session_def sel op)
qed

lemma admits_later:
  assumes "admits c ok m1 m'" and "um_connections m1 = um_connections m" "um_pending m1 = um_pending m"
    and "um_out m1 = um_out m @ new" and "final_ids new = []"
  shows "admits c ok m m'"
proof -
  have "live m1 = live m" using assms conn_inv_cong(2) by blast
  moreover obtain new' where "um_out m' = um_out m1 @ new'" "final_ids new' = []" using assms(1) by (auto simp: admits_def)
  then have "um_out m' = um_out m @ (new @ new') \<and> final_ids (new @ new') = []" using assms by simp
  ultimately show ?thesis using assms(1) unfolding admits_def by metis
qed

lemma open_fallback_admits:
  assumes inv: "umux_inv m" and fresh: "c \<notin> live m" "c \<noteq> NON_ID" and i: "ok \<Longrightarrow> i \<in> fst ` set (um_pool m)"
    and eq: "(if ok then (c, m\<lparr>um_pending := emplace c (pending_of i a proto app) (um_pending m)\<rparr>)
            else case select_existing_upstream env (Some i) True m of
                   Some j \<Rightarrow>
                     (let (ok', m3) = open_connection_on env j c a proto app m in (if ok' then c else NON_ID, m3))
                 | None \<Rightarrow> (NON_ID, m)) = (r, m')"
  shows "(r = c \<or> r = NON_ID) \<and> admits c (r \<noteq> NON_ID) m m'"
proof (cases ok)
  case True
  have "c \<notin> fst ` set (um_pending m)" using fresh by (auto simp: live_def)
  then have m': "r = c" "m' = m\<lparr>um_pending := um_pending m @ [(c, pending_of i a proto app)]\<rparr>"
    using eq True by (auto simp: emplace_new)
  have "pool_inv m'" using inv i [OF True] by (simp add: umux_inv_def pool_inv_def m' pending_of_def)
  then show ?thesis
    using inv conn_inv_add_pending [OF _ fresh, of m'] fresh(2) by (simp add: admits_def umux_inv_def m')
next
  case False
  show ?thesis
  proof (cases "select_existing_upstream env (Some i) True m")
    case None
    then show ?thesis using eq False inv by (auto simp: admits_def)
  next
    case (Some j)
    obtain ok' m3 where op: "open_connection_on env j c a proto app m = (ok', m3)" by fastforce
    have "admits c ok' m m3" using open_connection_on_admits [OF inv fresh select_existing_in [OF Some] op] by simp
    moreover have "r = (if ok' then c else NON_ID)" "m' = m3" using eq False Some op by auto
    ultimately show ?thesis using fresh(2) by auto
  qed
qed

lemma umux_open_connection_admits:
  assumes inv: "umux_inv m" and fresh: "c \<notin> live m" "c \<noteq> NON_ID"
    and eq: "umux_open_connection env c a proto app m = (r, m')"
  shows "(r = c \<or> r = NON_ID) \<and> admits c (r \<noteq> NON_ID) m m'"
proof (cases "um_pool m = []")
  case True
  then have "r = NON_ID" "m' = m" using eq by (auto simp: umux_open_connection_def)
  then show ?thesis using inv by (simp add: admits_def)
next
  case False
  obtain i m1 where sel: "select_upstream_for_connection env m = (i, m1)" by fastforce
  note s = select_upstream_cases [OF inv sel]
  have fresh1: "c \<notin> live m1" using s fresh conn_inv_cong(2) [of m1 m] by simp
  show ?thesis
  proof (cases "i \<in> fst ` set (um_pool m1)")
    case True
    obtain ok m2 where op: "open_connection_on env i c a proto app m1 = (ok, m2)" by fastforce
    have "admits c ok m1 m2" using open_connection_on_admits [OF _ fresh1 fresh(2) True op] s by blast
    then have "admits c ok m m2" using admits_later [of c ok m1 m2 m "[]"] s by simp
    moreover have "map_of (um_pool m1) i \<noteq> None" using True by (simp add: map_of_eq_None_iff)
    then have "r = (if ok then c else NON_ID)" "m' = m2" using eq False by (auto simp: umux_open_connection_def sel op)
    ultimately show ?thesis using fresh(2) by auto
  next
    case new: False
    then have none: "map_of (um_pool m1) i = None" by (simp add: map_of_eq_None_iff)
    obtain ok m2 where op: "open_new_upstream env i m1 = (ok, m2)" by fastforce
    have "length (um_pool m1) < DEFAULT_UPSTREAMS_NUM"
      using s new False unfolding umux_inv_def pool_inv_def by (metis le_neq_implies_less)
    then have o: "umux_inv m2" "um_connections m2 = um_connections m" "um_pending m2 = um_pending m"
      "um_pool m2 = (if ok then um_pool m @ [(i, US_OPENING_SESSION)] else um_pool m)"
      "\<exists>x. um_out m2 = um_out m @ x \<and> final_ids x = []"
      using open_new_upstream_inv [OF _ new _ _ op] s new by simp_all
    then obtain x where x: "um_out m2 = um_out m @ x" "final_ids x = []" by blast
    have fresh2: "c \<notin> live m2" using o(2,3) fresh conn_inv_cong(2) [of m2 m] by simp
    show ?thesis
      using eq False none o(4) admits_later [OF _ o(2,3) x]
        open_fallback_admits [OF o(1) fresh2 fresh(2), of ok i a proto app env r m']
      by (auto simp: umux_open_connection_def sel op)
  qed
qed

section \<open>Runs of the multiplexer\<close>

text \<open>
  What the multiplexer is called with: the calls of the tunnel and the events of its children, each with
  the answers the children give during the call. The contract of a call is what the tunnel and
  \<open>Http2Upstream\<close> or \<open>Http3Upstream\<close> keep: a fresh connection identifier, a session opened once,
  events only of children in the pool and for their own connections, and a child's connection list that
  is the multiplexer's. It excludes what the multiplexer does not survive, shown in the last section: a
  fallback to an upstream that is still opening its session, and a session error with connections pending.
\<close>

datatype umux_call =
    UmuxOpenSession
  | UmuxOpenConnection u64 addr_pair int bytes
  | UmuxCloseConnection u64 bool bool
  | UmuxCloseSession
  | UmuxChildEvent int server_event

definition proceeds_safely :: "child_env \<Rightarrow> int \<Rightarrow> umux \<Rightarrow> bool" where
  "proceeds_safely env i m \<longleftrightarrow>
     (\<forall>cp \<in> set (um_pending m). pc_upstream (snd cp) = i \<longrightarrow>
        child_opens_connection env i (fst cp) \<or>
        fst (hd (um_pool m)) = i \<or> map_of (um_pool m) (fst (hd (um_pool m))) = Some US_SESSION_OPENED)"

fun event_ok :: "child_env \<Rightarrow> int \<Rightarrow> server_event \<Rightarrow> umux \<Rightarrow> bool" where
  "event_ok env i SERVER_EVENT_SESSION_OPENED m \<longleftrightarrow> proceeds_safely env i m"
| "event_ok env i SERVER_EVENT_SESSION_CLOSED m \<longleftrightarrow> i \<notin> snd ` set (um_connections m)"
| "event_ok env i (SERVER_EVENT_CONNECTION_CLOSED c) m \<longleftrightarrow> c \<in> fst ` set (um_connections m)"
| "event_ok env i (SERVER_EVENT_ERROR c e) m \<longleftrightarrow>
     (if c \<noteq> NON_ID then c \<in> fst ` set (um_connections m)
      else if umux_is_fatal_error e
      then um_pending m = [] \<and> (\<forall>j \<in> fst ` set (um_pool m). child_lists_match env m j)
      else child_lists_match env m i \<and> i \<notin> pc_upstream ` snd ` set (um_pending m))"
| "event_ok env i _ m \<longleftrightarrow> True"

fun call_ok :: "child_env \<Rightarrow> umux_call \<Rightarrow> umux \<Rightarrow> bool" where
  "call_ok env UmuxOpenSession m \<longleftrightarrow> um_pool m = []"
| "call_ok env (UmuxOpenConnection c a proto app) m \<longleftrightarrow> c \<notin> live m \<and> c \<noteq> NON_ID"
| "call_ok env (UmuxCloseConnection c graceful async) m \<longleftrightarrow> True"
| "call_ok env UmuxCloseSession m \<longleftrightarrow> (\<forall>j \<in> fst ` set (um_pool m). child_lists_match env m j)"
| "call_ok env (UmuxChildEvent i ev) m \<longleftrightarrow> i \<in> fst ` set (um_pool m) \<and> event_ok env i ev m"

fun umux_run :: "child_env \<Rightarrow> umux_call \<Rightarrow> umux \<Rightarrow> umux" where
  "umux_run env UmuxOpenSession m = snd (umux_open_session env m)"
| "umux_run env (UmuxOpenConnection c a proto app) m = snd (umux_open_connection env c a proto app m)"
| "umux_run env (UmuxCloseConnection c graceful async) m = umux_close_connection c graceful async m"
| "umux_run env UmuxCloseSession m = umux_close_session env m"
| "umux_run env (UmuxChildEvent i ev) m = child_upstream_handler env i ev m"

definition umux_step :: "child_env \<times> umux_call \<Rightarrow> umux \<Rightarrow> umux" where
  "umux_step x m = (if call_ok (fst x) (snd x) m then umux_run (fst x) (snd x) m else m)"

definition umux_accepted :: "child_env \<times> umux_call \<Rightarrow> umux \<Rightarrow> u64 list" where
  "umux_accepted x m =
     (case snd x of
        UmuxOpenConnection c a proto app \<Rightarrow>
          if call_ok (fst x) (snd x) m \<and> fst (umux_open_connection (fst x) c a proto app m) \<noteq> NON_ID then [c] else []
      | _ \<Rightarrow> [])"

definition umux_answered :: "child_env \<times> umux_call \<Rightarrow> umux \<Rightarrow> u64 list" where
  "umux_answered x m = final_ids (drop (length (um_out m)) (um_out (umux_step x m)))"

lemma pool_inv_opened:
  assumes "pool_inv m" and "i \<in> fst ` set (um_pool m)" and "um_pool m' = AList.update i st (um_pool m)"
    and "next_upstream_id m' = next_upstream_id m" and "um_pending m' = um_pending m" "um_connections m' = um_connections m"
  shows "pool_inv m'"
proof -
  have keys: "map fst (um_pool m') = map fst (um_pool m)" using assms(2,3) by (simp add: update_keys)
  then have "fst ` set (um_pool m') = fst ` set (um_pool m)" by (metis list.set_map)
  moreover have "length (um_pool m') = length (um_pool m)" using keys by (metis length_map)
  ultimately show ?thesis using assms(1) keys unfolding pool_inv_def assms(4-6) by simp
qed

lemma pool_inv_shrinks:
  assumes "pool_inv m" and "um_pool m' = AList.delete i (um_pool m)" and "next_upstream_id m' = next_upstream_id m"
    and "\<And>x. x \<in> set (um_pending m') \<Longrightarrow> x \<in> set (um_pending m) \<and> pc_upstream (snd x) \<noteq> i"
    and "\<And>x. x \<in> set (um_connections m') \<Longrightarrow> x \<in> set (um_connections m) \<and> snd x \<noteq> i"
  shows "pool_inv m'"
proof -
  have keys: "fst ` set (um_pool m') = fst ` set (um_pool m) - {i}" by (simp add: assms(2) delete_fst)
  moreover have "length (um_pool m') \<le> length (um_pool m)" by (simp add: assms(2) length_delete_le)
  moreover have "distinct (map fst (um_pool m'))" using assms(1) by (simp add: assms(2) pool_inv_def distinct_delete_fst)
  moreover have "pc_upstream (snd x) \<in> fst ` set (um_pool m')" if "x \<in> set (um_pending m')" for x
    using assms(1) assms(4) [OF that] unfolding keys pool_inv_def by simp
  moreover have "snd x \<in> fst ` set (um_pool m')" if "x \<in> set (um_connections m')" for x
    using assms(1) assms(5) [OF that] unfolding keys pool_inv_def by simp
  moreover have "j < next_upstream_id m" if "j \<in> fst ` set (um_pool m')" for j
    using assms(1) that unfolding keys pool_inv_def by blast
  moreover have "length (um_pool m) \<le> DEFAULT_UPSTREAMS_NUM" using assms(1) by (simp add: pool_inv_def)
  ultimately show ?thesis unfolding pool_inv_def assms(3) by (meson order_trans)
qed

lemma opened_in_pool: "map_of (um_pool m) j = Some st \<Longrightarrow> j \<in> fst ` set (um_pool m)"
  by (metis map_of_eq_None_iff option.distinct(1))

lemma session_opened_step:
  assumes inv: "umux_inv m" and i: "i \<in> fst ` set (um_pool m)" and ok: "proceeds_safely env i m"
  shows "\<exists>A. settles A m (child_upstream_handler env i SERVER_EVENT_SESSION_OPENED m) \<and>
    umux_inv (child_upstream_handler env i SERVER_EVENT_SESSION_OPENED m)"
proof -
  define m1 where "m1 = (if um_session_open m then m else um_raise SERVER_EVENT_SESSION_OPENED (m\<lparr>um_session_open := True\<rparr>))"
  define m2 where "m2 = m1\<lparr>um_pool := AList.update i US_SESSION_OPENED (um_pool m1)\<rparr>"
  have pool: "um_pool m2 = AList.update i US_SESSION_OPENED (um_pool m)" by (simp add: m2_def m1_def)
  have keep: "um_connections m2 = um_connections m" "um_pending m2 = um_pending m" "next_upstream_id m2 = next_upstream_id m"
    by (simp_all add: m2_def m1_def)
  have "\<exists>new. um_out m2 = um_out m @ new \<and> final_ids new = []" by (simp add: m2_def m1_def)
  then have quiet: "settles [] m m2" using inv settles_quiet [OF _ keep(1,2)] by (auto simp: umux_inv_def)
  have p2: "pool_inv m2" using pool_inv_opened [OF _ i pool keep(3,2,1)] inv by (simp add: umux_inv_def)
  have c2: "conn_inv m2" using quiet by (simp add: settles_def)
  have fstpool: "fst (hd (um_pool m2)) = fst (hd (um_pool m))"
    using i by (cases "um_pool m") (auto simp: pool)
  have st: "map_of (um_pool m2) j = (if j = i then Some US_SESSION_OPENED else map_of (um_pool m) j)" for j
    by (simp add: pool update_conv')
  have "\<forall>cp \<in> set (um_pending m2). pc_upstream (snd cp) = i \<longrightarrow>
      child_opens_connection env i (fst cp) \<or> map_of (um_pool m2) (fst (hd (um_pool m2))) = Some US_SESSION_OPENED"
    using ok unfolding proceeds_safely_def keep fstpool st by auto
  then obtain A where A: "settles A m2 (fold (proceed_one env i) (um_pending m2) m2)"
    and rest: "um_pool (fold (proceed_one env i) (um_pending m2) m2) = um_pool m2"
      "next_upstream_id (fold (proceed_one env i) (um_pending m2) m2) = next_upstream_id m2"
      "set (um_pending (fold (proceed_one env i) (um_pending m2) m2)) \<subseteq> set (um_pending m2)"
      "\<forall>x \<in> set (um_connections (fold (proceed_one env i) (um_pending m2) m2)).
         x \<in> set (um_connections m2) \<or> map_of (um_pool m2) (snd x) = Some US_SESSION_OPENED"
    using proceed_fold [OF c2 _ subset_refl, of i env] c2 st [of i] by (auto simp: conn_inv_def)
  have "child_upstream_handler env i SERVER_EVENT_SESSION_OPENED m = fold (proceed_one env i) (um_pending m2) m2"
    using i by (auto simp: child_upstream_handler_def m1_def m2_def map_of_eq_None_iff Let_def)
  moreover have "pool_inv (fold (proceed_one env i) (um_pending m2) m2)"
    using p2 rest opened_in_pool [of m2] unfolding pool_inv_def rest(1,2) by blast
  ultimately show ?thesis using settles_trans [OF quiet A] A by (auto simp: umux_inv_def settles_def)
qed

lemma session_closed_step:
  assumes inv: "umux_inv m" and i: "i \<in> fst ` set (um_pool m)" and none: "i \<notin> snd ` set (um_connections m)"
  shows "settles (keys_on i (um_pending m)) m (child_upstream_handler env i SERVER_EVENT_SESSION_CLOSED m) \<and>
    umux_inv (child_upstream_handler env i SERVER_EVENT_SESSION_CLOSED m)"
proof -
  define m1 where "m1 = fold (refuse_one env i) (um_pending m) m"
  have ci: "conn_inv m" and pi: "pool_inv m" using inv by (simp_all add: umux_inv_def)
  have d: "distinct (map fst (um_pending m))" using ci by (simp add: conn_inv_def)
  note r = refuse_fold [OF ci d subset_refl, of i env, folded m1_def]
  have h: "child_upstream_handler env i SERVER_EVENT_SESSION_CLOSED m = close_upstream i m1"
    using i by (auto simp: child_upstream_handler_def map_of_eq_None_iff m1_def)
  have "conn_inv m1" using r by (simp add: settles_def)
  then have s: "settles (keys_on i (um_pending m)) m (close_upstream i m1)"
    using settles_trans [OF _ settles_close_upstream] r by fastforce
  have "pool_inv (close_upstream i m1)"
  proof (rule pool_inv_shrinks [OF pi, of _ i])
    fix x assume "x \<in> set (um_pending (close_upstream i m1))"
    then show "x \<in> set (um_pending m) \<and> pc_upstream (snd x) \<noteq> i" using r by (auto simp: keys_on_def)
  next
    fix x assume "x \<in> set (um_connections (close_upstream i m1))"
    then show "x \<in> set (um_connections m) \<and> snd x \<noteq> i" using r none by auto
  qed (use r in simp_all)
  then show ?thesis using s by (simp add: h umux_inv_def settles_def)
qed

lemma session_error_step:
  assumes inv: "umux_inv m" and i: "i \<in> fst ` set (um_pool m)" and match: "child_lists_match env m i"
    and none: "i \<notin> pc_upstream ` snd ` set (um_pending m)"
  shows "settles (child_connections env i) m (close_upstream i (child_close_session env i m)) \<and>
    umux_inv (close_upstream i (child_close_session env i m))"
proof -
  define m1 where "m1 = child_close_session env i m"
  have ci: "conn_inv m" and pi: "pool_inv m" using inv by (simp_all add: umux_inv_def)
  note one = child_close_one [OF ci match, folded m1_def]
  have "conn_inv m1" using one by (simp add: settles_def)
  then have s: "settles (child_connections env i) m (close_upstream i m1)"
    using settles_trans [OF _ settles_close_upstream] one by fastforce
  have "pool_inv (close_upstream i m1)"
  proof (rule pool_inv_shrinks [OF pi, of _ i])
    fix x assume "x \<in> set (um_pending (close_upstream i m1))"
    then show "x \<in> set (um_pending m) \<and> pc_upstream (snd x) \<noteq> i" using none by (auto simp: m1_def)
  next
    fix x assume "x \<in> set (um_connections (close_upstream i m1))"
    then show "x \<in> set (um_connections m) \<and> snd x \<noteq> i" using one(2) by simp
  qed (simp_all add: m1_def)
  then show ?thesis using s by (simp add: umux_inv_def settles_def m1_def)
qed

lemma pool_inv_empty: "um_connections m = [] \<Longrightarrow> um_pending m = [] \<Longrightarrow> um_pool m = [] \<Longrightarrow> pool_inv m"
  by (simp add: pool_inv_def)

lemma fatal_error_step:
  assumes inv: "umux_inv m" and match: "\<forall>j \<in> fst ` set (um_pool m). child_lists_match env m j" and none: "um_pending m = []"
    and m1: "m1 = m \<or> m1 = m\<lparr>um_pending_error := Some e\<rparr>"
  shows "\<exists>A. settles A m (close_all_upstreams env m1) \<and> umux_inv (close_all_upstreams env m1)"
proof -
  have ci: "conn_inv m" and pi: "pool_inv m" using inv by (simp_all add: umux_inv_def)
  have same: "um_pool m1 = um_pool m" "um_connections m1 = um_connections m" "um_pending m1 = um_pending m" "um_out m1 = um_out m"
    using m1 by auto
  have quiet: "settles [] m m1" using settles_quiet [OF ci same(2,3), of "[]"] same by simp
  then have "conn_inv m1" by (simp add: settles_def)
  moreover have "distinct (map fst (um_pool m1))" using pi by (simp add: same pool_inv_def)
  moreover have "\<forall>j \<in> fst ` set (um_pool m1). child_lists_match env m1 j" using match by (simp add: same child_lists_match_def)
  ultimately obtain A where A: "settles A m1 (close_all_upstreams env m1)" "um_pool (close_all_upstreams env m1) = []"
    "um_pending (close_all_upstreams env m1) = um_pending m1"
    "set (um_connections (close_all_upstreams env m1)) = {x \<in> set (um_connections m1). snd x \<notin> fst ` set (um_pool m1)}"
    using close_all_settles [of m1 env] by blast
  have "um_connections (close_all_upstreams env m1) = []"
    using A(4) pi by (simp add: same pool_inv_def flip: set_empty)
  then have "pool_inv (close_all_upstreams env m1)" using A none by (intro pool_inv_empty) (simp_all add: same)
  then show ?thesis using settles_trans [OF quiet A(1)] A(1) by (auto simp: umux_inv_def settles_def)
qed

lemma fold_refuse_all:
  fixes e :: vpn_error
  defines "f \<equiv> \<lambda>(c, _ :: pending_connection). um_raise (SERVER_EVENT_ERROR c e)"
  shows "um_connections (fold f xs m) = um_connections m" "um_pending (fold f xs m) = um_pending m"
    "um_pool (fold f xs m) = um_pool m"
    "um_out (fold f xs m) = um_out m @ map (\<lambda>x. Raised (SERVER_EVENT_ERROR (fst x) e)) xs"
  by (induction xs arbitrary: m) (auto simp: f_def)

lemma final_ids_errors: "NON_ID \<notin> fst ` set xs \<Longrightarrow> final_ids (map (\<lambda>x. Raised (SERVER_EVENT_ERROR (fst x) e)) xs) = map fst xs"
  by (induction xs) auto

lemma close_session_step:
  assumes inv: "umux_inv m" and match: "\<forall>j \<in> fst ` set (um_pool m). child_lists_match env m j"
  shows "\<exists>A. settles A m (umux_close_session env m) \<and> umux_inv (umux_close_session env m)"
proof -
  have ci: "conn_inv m" and pi: "pool_inv m" using inv by (simp_all add: umux_inv_def)
  define m1 where "m1 = fold (child_close_session env) (map fst (um_pool m)) m"
  define m' where "m' = umux_close_session env m"
  obtain A where A: "settles A m m1" "um_pending m1 = um_pending m"
      "set (um_connections m1) = {x \<in> set (um_connections m). snd x \<notin> set (map fst (um_pool m))}"
    using child_close_list [OF ci, of "map fst (um_pool m)" env] match pi by (auto simp: m1_def pool_inv_def)
  have conns: "um_connections m1 = []" using A(3) pi by (simp add: pool_inv_def flip: set_empty)
  have c1: "conn_inv m1" using A(1) by (simp add: settles_def)
  have ids: "live m1 = fst ` set (um_pending m)" "NON_ID \<notin> fst ` set (um_pending m)" "distinct (map fst (um_pending m))"
    using c1 by (simp_all add: conns A(2) live_def conn_inv_def)
  have m': "um_connections m' = []" "um_pending m' = []" "um_pool m' = []"
    "um_out m' = um_out m1 @ map (\<lambda>x. Raised (SERVER_EVENT_ERROR (fst x) (VpnError (econnreset env) ''Session closed''))) (um_pending m)"
    by (simp_all add: m'_def umux_close_session_def Let_def fold_refuse_all A(2) flip: m1_def)
  have "conn_inv m'" "live m' = {}" by (simp_all add: conn_inv_def live_def m')
  then have "settles (map fst (um_pending m)) m1 m'"
    using ids by (simp add: settles_def m'(4) final_ids_errors)
  then show ?thesis
    using settles_trans [OF A(1)] pool_inv_empty [of m'] \<open>conn_inv m'\<close> m' unfolding m'_def umux_inv_def by blast
qed

lemma connection_error_step:
  assumes "conn_inv m" and "c \<in> fst ` set (um_connections m)" and "c \<noteq> NON_ID"
  shows "settles [c] m (um_raise (SERVER_EVENT_ERROR c e) (m\<lparr>um_connections := AList.delete c (um_connections m)\<rparr>))"
proof -
  have "c \<notin> fst ` set (um_pending m)" using assms by (auto simp: conn_inv_def)
  then show ?thesis
    using assms unfolding settles_def conn_inv_def live_def
    by (auto simp: delete_fst distinct_delete_fst)
qed

lemma pool_inv_fewer_connections:
  "pool_inv m \<Longrightarrow> um_pool m' = um_pool m \<Longrightarrow> next_upstream_id m' = next_upstream_id m \<Longrightarrow> um_pending m' = um_pending m \<Longrightarrow>
     um_connections m' = AList.delete c (um_connections m) \<Longrightarrow> pool_inv m'"
  by (rule pool_inv_frame [of m]) (auto simp: AList.delete_eq)

lemma settles_raise:
  "umux_inv m \<Longrightarrow> final_ids [Raised ev] = [] \<Longrightarrow> settles [] m (um_raise ev m) \<and> umux_inv (um_raise ev m)"
  using settles_quiet [of m "um_raise ev m" "[Raised ev]"] pool_inv_frame [of m "um_raise ev m"]
  by (simp add: umux_inv_def settles_def)

lemma settles_inv: "settles A m m' \<Longrightarrow> pool_inv m' \<Longrightarrow> \<exists>A. settles A m m' \<and> umux_inv m'"
  by (auto simp: umux_inv_def settles_def)

lemma child_event_step:
  assumes inv: "umux_inv m" and i: "i \<in> fst ` set (um_pool m)" and ok: "event_ok env i ev m"
  shows "\<exists>A. settles A m (child_upstream_handler env i ev m) \<and> umux_inv (child_upstream_handler env i ev m)"
proof -
  obtain st where pool: "map_of (um_pool m) i = Some st" using i by (metis map_of_eq_None_iff not_None_eq)
  have ci: "conn_inv m" and pi: "pool_inv m" using inv by (simp_all add: umux_inv_def)
  show ?thesis
  proof (cases ev)
    case SERVER_EVENT_SESSION_OPENED
    then show ?thesis using session_opened_step [OF inv i] ok by simp
  next
    case SERVER_EVENT_SESSION_CLOSED
    then show ?thesis using session_closed_step [OF inv i] ok by auto
  next
    case (SERVER_EVENT_CONNECTION_CLOSED c)
    then have "settles [c] m (connection_closed c m)" using settles_connection_closed [OF ci] ok by simp
    moreover have "pool_inv (connection_closed c m)" by (rule pool_inv_fewer_connections [OF pi]) simp_all
    ultimately show ?thesis
      using settles_inv [of "[c]" m] SERVER_EVENT_CONNECTION_CLOSED pool by (simp add: child_upstream_handler_def)
  next
    case (SERVER_EVENT_ERROR c e)
    consider "c \<noteq> NON_ID" | "c = NON_ID" "umux_is_fatal_error e" | "c = NON_ID" "\<not> umux_is_fatal_error e" by blast
    then show ?thesis
    proof cases
      case 1
      let ?m' = "um_raise (SERVER_EVENT_ERROR c e) (m\<lparr>um_connections := AList.delete c (um_connections m)\<rparr>)"
      have "settles [c] m ?m'" using connection_error_step [OF ci _ 1] ok 1 SERVER_EVENT_ERROR by simp
      moreover have "pool_inv ?m'" by (rule pool_inv_fewer_connections [OF pi]) simp_all
      ultimately show ?thesis
        using settles_inv [of "[c]" m] SERVER_EVENT_ERROR pool 1 by (simp add: child_upstream_handler_def)
    next
      case 2
      then show ?thesis
        using fatal_error_step [OF inv, of env "if ec e \<noteq> 0 then m\<lparr>um_pending_error := Some e\<rparr> else m" e] ok SERVER_EVENT_ERROR pool
        by (simp add: child_upstream_handler_def split: if_splits)
    next
      case 3
      then show ?thesis
        using session_error_step [OF inv i, of env] ok SERVER_EVENT_ERROR pool
        by (simp add: child_upstream_handler_def) blast
    qed
  qed (use settles_raise [OF inv, of ev] pool in \<open>simp add: child_upstream_handler_def, blast\<close>)+
qed

lemma settles_answered: "settles A m (umux_step x m) \<Longrightarrow> umux_answered x m = A"
  by (auto simp: settles_def umux_answered_def)

lemma close_connection_step:
  "umux_inv m \<Longrightarrow> settles [] m (umux_close_connection c graceful async m) \<and> umux_inv (umux_close_connection c graceful async m)"
proof -
  assume inv: "umux_inv m"
  have e: "settles [] m (um_emit (Called i k) m) \<and> umux_inv (um_emit (Called i k) m)" for i k
    using settles_quiet [of m "um_emit (Called i k) m" "[Called i k]"] pool_inv_frame [of m "um_emit (Called i k) m"] inv
    by (simp add: umux_inv_def settles_def)
  show ?thesis using e inv settles_refl by (simp add: umux_close_connection_def umux_inv_def split: option.splits)
qed

lemma umux_step_settles:
  assumes inv: "umux_inv m" and other: "\<And>c a proto app. snd x \<noteq> UmuxOpenConnection c a proto app"
  shows "\<exists>A. settles A m (umux_step x m) \<and> umux_inv (umux_step x m)"
proof (cases "call_ok (fst x) (snd x) m")
  case False
  then show ?thesis using inv settles_refl by (auto simp: umux_step_def umux_inv_def)
next
  case ok: True
  show ?thesis
  proof (cases "snd x")
    case UmuxOpenSession
    then show ?thesis using ok umux_open_session_inv [OF inv, of "fst x"] inv by (auto simp: umux_step_def settles_def umux_inv_def)
  next
    case (UmuxCloseConnection c graceful async)
    then show ?thesis using close_connection_step [OF inv] by (auto simp: umux_step_def)
  next
    case UmuxCloseSession
    then show ?thesis using ok close_session_step [OF inv, of "fst x"] by (simp add: umux_step_def)
  next
    case (UmuxChildEvent i ev)
    then show ?thesis using ok child_event_step [OF inv, of i "fst x" ev] by (simp add: umux_step_def)
  qed (use other in auto)
qed

lemma umux_step_opens:
  assumes inv: "umux_inv m" and x: "snd x = UmuxOpenConnection c a proto app"
  shows "umux_inv (umux_step x m) \<and> umux_answered x m = [] \<and> live (umux_step x m) = live m \<union> set (umux_accepted x m)"
proof (cases "call_ok (fst x) (snd x) m")
  case False
  then show ?thesis using inv by (auto simp: umux_step_def umux_answered_def umux_accepted_def x)
next
  case True
  obtain r m' where r: "umux_open_connection (fst x) c a proto app m = (r, m')" by fastforce
  have step: "umux_step x m = m'" using True by (simp add: umux_step_def x r)
  have "admits c (r \<noteq> NON_ID) m m'" using umux_open_connection_admits [OF inv _ _ r] True x by simp
  then show ?thesis using True unfolding step admits_def umux_answered_def umux_accepted_def by (auto simp: x r)
qed

interpretation umux_connections: request_tracker umux_step umux_inv live umux_accepted umux_answered
proof
  fix m x assume inv: "umux_inv m"
  have acc: "umux_accepted x m = []" if "\<And>c a proto app. snd x \<noteq> UmuxOpenConnection c a proto app"
    using that by (cases "snd x") (auto simp: umux_accepted_def)
  consider (opens) c a proto app where "snd x = UmuxOpenConnection c a proto app"
    | (other) "settles (umux_answered x m) m (umux_step x m)" "umux_inv (umux_step x m)" "umux_accepted x m = []"
    using umux_step_settles [OF inv, of x] acc settles_answered [of _ m x] by metis
  note cases = this
  show "umux_inv (umux_step x m)" by (cases rule: cases) (use umux_step_opens [OF inv] in auto)
  show "distinct (umux_accepted x m) \<and> set (umux_accepted x m) \<inter> live m = {}"
    by (cases rule: cases) (auto simp: umux_accepted_def)
  show "distinct (umux_answered x m) \<and> set (umux_answered x m) \<subseteq> live m \<union> set (umux_accepted x m)"
    by (cases rule: cases) (use umux_step_opens [OF inv] in \<open>auto simp: settles_def\<close>)
  show "live (umux_step x m) = (live m \<union> set (umux_accepted x m)) - set (umux_answered x m)"
    by (cases rule: cases) (use umux_step_opens [OF inv] in \<open>auto simp: settles_def\<close>)
qed

lemma umux_step_out:
  assumes inv: "umux_inv m"
  shows "final_ids (um_out (umux_step x m)) = final_ids (um_out m) @ umux_answered x m"
proof -
  have "\<exists>new. um_out (umux_step x m) = um_out m @ new"
  proof (cases "\<exists>c a proto app. snd x = UmuxOpenConnection c a proto app \<and> call_ok (fst x) (snd x) m")
    case True
    then obtain c a proto app where x: "snd x = UmuxOpenConnection c a proto app" "c \<notin> live m" "c \<noteq> NON_ID" by auto
    obtain r m' where r: "umux_open_connection (fst x) c a proto app m = (r, m')" by fastforce
    have "admits c (r \<noteq> NON_ID) m m'" using umux_open_connection_admits [OF inv x(2,3) r] by simp
    moreover have "umux_step x m = m'" using x r by (simp add: umux_step_def)
    ultimately show ?thesis by (auto simp: admits_def)
  next
    case False
    show ?thesis
    proof (cases "call_ok (fst x) (snd x) m")
      case True
      then show ?thesis using False umux_step_settles [OF inv, of x] by (auto simp: settles_def)
    qed (simp add: umux_step_def)
  qed
  then show ?thesis by (auto simp: umux_answered_def)
qed

lemma umux_run_out:
  "umux_inv m \<Longrightarrow> final_ids (um_out (fold umux_step calls m)) = final_ids (um_out m) @ history umux_step umux_answered calls m"
  by (induction calls arbitrary: m) (simp_all add: umux_step_out umux_connections.step_ok)

lemma umux_new_inv: "umux_inv (umux_new n i0)" "live (umux_new n i0) = {}" "um_out (umux_new n i0) = []"
  by (simp_all add: umux_new_def umux_inv_def conn_inv_def pool_inv_def live_def)

section \<open>What the multiplexer promises\<close>


lemma open_connection_on_pool: "open_connection_on env i c a proto app m = (ok, m') \<Longrightarrow> um_pool m' = um_pool m"
  by (auto simp: open_connection_on_def um_fault_def Let_def split: option.splits upstream_state.splits if_splits)

lemma open_connection_grows:
  assumes "um_pool (snd (umux_open_connection env c a proto app m)) \<noteq> um_pool m" and "pool_inv m"
  shows "um_pool (snd (umux_open_connection env c a proto app m)) = um_pool m @ [(next_upstream_id m, US_OPENING_SESSION)] \<and>
    (\<forall>i \<in> fst ` set (um_pool m). NEW_UPSTREAM_CONNECTIONS_NUM_THRESHOLD \<le> connections_num_by_upstream env i m)"
proof -
  have ne: "um_pool m \<noteq> []" using assms(1) by (auto simp: umux_open_connection_def)
  show ?thesis
  proof (cases "select_existing_upstream env None False m")
    case (Some j)
    then have "map_of (um_pool m) j \<noteq> None" using select_existing_in [OF Some] by (simp add: map_of_eq_None_iff)
    then have False
      using assms(1) ne Some
      by (auto simp: umux_open_connection_def select_upstream_for_connection_def dest: open_connection_on_pool split: prod.splits)
    then show ?thesis ..
  next
    case None
    define m1 where "m1 = m\<lparr>next_upstream_id := next_upstream_id m + 1\<rparr>"
    have sel: "select_upstream_for_connection env m = (next_upstream_id m, m1)"
      using None by (simp add: select_upstream_for_connection_def m1_def)
    have new: "next_upstream_id m \<notin> fst ` set (um_pool m)" using assms(2) unfolding pool_inv_def by blast
    then have none: "map_of (um_pool m1) (next_upstream_id m) = None" by (simp add: map_of_eq_None_iff m1_def)
    have "um_pool (snd (umux_open_connection env c a proto app m)) \<in>
        {um_pool m, um_pool m @ [(next_upstream_id m, US_OPENING_SESSION)]}"
      using ne none new
      by (auto simp: umux_open_connection_def sel open_new_upstream_def Let_def m1_def update_new_key
          dest: open_connection_on_pool split: option.splits prod.splits)
    then show ?thesis using assms(1) select_existing_none(2) [OF None ne] by auto
  qed
qed

text \<open>A sample run: a session whose first upstream is still opening when five connections are asked for.\<close>

definition sample_child :: child_env where
  "sample_child = \<lparr>child_opens_session = \<lambda>_. True, child_opens_connection = \<lambda>i c. i \<noteq> 1, child_connections = \<lambda>_. [],
     child_send_result = \<lambda>_. 0, child_available = \<lambda>_ _. 0, child_stats = \<lambda>_. \<lparr>rtt_us = 0, packet_loss_ratio = 0\<rparr>,
     child_kex_group = \<lambda>_. 0, econnreset = 104, econnrefused = 111\<rparr>"

definition sample_pair :: addr_pair where
  "sample_pair = \<lparr>src = SA_V4 [10, 0, 0, 2] 4000, dst = TA_Sock (SA_V4 [8, 8, 8, 8] 53)\<rparr>"

definition open_sample :: "u64 \<Rightarrow> umux_call" where
  "open_sample c = UmuxOpenConnection c sample_pair 6 []"

definition busy_calls :: "(child_env \<times> umux_call) list" where
  "busy_calls = map (Pair sample_child) (UmuxOpenSession # map open_sample [1, 2, 3, 4, 5])"

definition busy_mux :: umux where
  "busy_mux = (umux_new 0 0)\<lparr>um_pool := [(0, US_OPENING_SESSION)], next_upstream_id := 1,
     um_pending := map (\<lambda>c. (c, pending_of 0 sample_pair 6 [])) [1, 2, 3, 4, 5], um_out := [Called 0 ChildOpenSession]\<rparr>"



lemma close_last_upstream:
  "um_pool m = [(i, st)] \<Longrightarrow> um_pending_error m = Some e \<Longrightarrow>
     close_upstream i m = um_raise (SERVER_EVENT_ERROR NON_ID e) (m\<lparr>um_pool := [], um_session_open := False, um_pending_error := None\<rparr>)"
  by (simp add: close_upstream_def)

lemma connection_closed_error [simp]: "um_pending_error (connection_closed c m) = um_pending_error m"
  by (simp add: connection_closed_def um_fault_def Let_def)

lemma child_close_session_error [simp]: "um_pending_error (child_close_session env i m) = um_pending_error m"
proof -
  have "um_pending_error (fold connection_closed cs s) = um_pending_error s" for cs s
    by (induction cs arbitrary: s) simp_all
  then show ?thesis by (simp add: child_close_session_def)
qed

lemma close_all_reports:
  "um_pool m \<noteq> [] \<Longrightarrow> distinct (map fst (um_pool m)) \<Longrightarrow> um_pending_error m = Some e \<Longrightarrow>
   um_pool (close_all_upstreams env m) = [] \<and> um_pending_error (close_all_upstreams env m) = None \<and>
   \<not> um_session_open (close_all_upstreams env m) \<and>
   last (um_out (close_all_upstreams env m)) = Raised (SERVER_EVENT_ERROR NON_ID e)"
proof (induction env m rule: close_all_upstreams.induct)
  case (1 env m)
  obtain i st rest where pool: "um_pool m = (i, st) # rest" using 1(2) by (metis neq_Nil_conv surj_pair)
  have del: "AList.delete i (um_pool m) = rest" using 1(3) by (simp add: pool delete_id)
  let ?m1 = "close_upstream i (child_close_session env i m)"
  have step: "close_all_upstreams env m = close_all_upstreams env ?m1"
    by (subst close_all_upstreams.simps) (simp add: pool)
  show ?case
  proof (cases "rest = []")
    case True
    then have "?m1 = um_raise (SERVER_EVENT_ERROR NON_ID e)
        ((child_close_session env i m)\<lparr>um_pool := [], um_session_open := False, um_pending_error := None\<rparr>)"
      using pool 1(4) by (intro close_last_upstream) simp_all
    moreover have "close_all_upstreams env ?m1 = ?m1" by (subst close_all_upstreams.simps) (simp add: del True)
    ultimately show ?thesis by (simp add: step)
  next
    case False
    have "um_pending_error ?m1 = Some e"
      using pool False del 1(4) by (simp add: close_upstream_def Let_def)
    then show ?thesis unfolding step using 1(1) [OF pool refl] 1(3) False del pool by simp
  qed
qed

text \<open>
  C34: a fatal error ends the whole session. Whatever the children answer, the loop that closes the
  upstreams after an authentication or certificate error ends with an empty pool, and the last event
  reports the error as the error of the session.
\<close>

theorem umux_fatal_error_ends_session:
  assumes "umux_inv m" and "i \<in> fst ` set (um_pool m)" and "umux_is_fatal_error e"
  shows "let m' = child_upstream_handler env i (SERVER_EVENT_ERROR NON_ID e) m in
    um_pool m' = [] \<and> um_pending_error m' = None \<and> \<not> um_session_open m' \<and>
    last (um_out m') = Raised (SERVER_EVENT_ERROR NON_ID e)"
proof -
  have "map_of (um_pool m) i \<noteq> None" using assms(2) by (simp add: map_of_eq_None_iff)
  moreover have "ec e \<noteq> 0" using assms(3) by (auto simp: umux_is_fatal_error_def ec_defs)
  ultimately have "child_upstream_handler env i (SERVER_EVENT_ERROR NON_ID e) m =
      close_all_upstreams env (m\<lparr>um_pending_error := Some e\<rparr>)"
    using assms(3) by (auto simp: child_upstream_handler_def)
  moreover have "um_pool m \<noteq> []" using assms(2) by auto
  ultimately show ?thesis
    using close_all_reports [of "m\<lparr>um_pending_error := Some e\<rparr>" e env] assms(1)
    by (simp add: umux_inv_def pool_inv_def Let_def)
qed

theorem umux_fatal_error_ends_session_witness:
  "let m' = child_upstream_handler sample_child 0 (SERVER_EVENT_ERROR NON_ID (VpnError VPN_EC_AUTH_REQUIRED [])) busy_mux in
   um_pool m' = [] \<and> last (um_out m') = Raised (SERVER_EVENT_ERROR NON_ID (VpnError VPN_EC_AUTH_REQUIRED []))"
proof -
  have "umux_inv busy_mux" by code_simp
  moreover have "0 \<in> fst ` set (um_pool busy_mux)" by (simp add: busy_mux_def)
  ultimately show ?thesis
    using umux_fatal_error_ends_session [of busy_mux 0 "VpnError VPN_EC_AUTH_REQUIRED []" sample_child]
    by (simp add: umux_is_fatal_error_def Let_def)
qed

text \<open>
  C35: a connection can get lost. When the new upstream refuses a pending connection and the upstream
  that \<open>proceed_pending_connection\<close> falls back to is itself still opening its session, the connection is
  put back under its identifier into the table of pending connections, where the insertion does
  nothing because the entry is still there, and the caller then erases the entry: the connection is
  neither open nor pending and no event tells of its end.
\<close>

theorem umux_fallback_loses_connection:
  assumes "um_pool m = (j, US_OPENING_SESSION) # rest" and "map_of rest i = Some US_OPENING_SESSION" and "i \<noteq> j"
    and "um_pending m = [(c, p)]" and "pc_upstream p = i" and "c \<notin> fst ` set (um_connections m)"
    and "\<not> child_opens_connection env i c"
  shows "let m' = child_upstream_handler env i SERVER_EVENT_SESSION_OPENED m in
    c \<notin> live m' \<and> final_ids (um_out m') = final_ids (um_out m)"
proof -
  have "map_of (AList.update i US_SESSION_OPENED rest) i = Some US_SESSION_OPENED" by (simp add: update_conv')
  then show ?thesis
    using assms
    by (simp add: child_upstream_handler_def proceed_one_def proceed_pending_connection_def open_connection_on_def
        emplace_def live_def Let_def)
qed

definition two_opening :: umux where
  "two_opening = busy_mux\<lparr>um_pool := [(0, US_OPENING_SESSION), (1, US_OPENING_SESSION)],
     um_pending := [(6, pending_of 1 sample_pair 6 [])]\<rparr>"

theorem umux_fallback_loses_connection_witness:
  "6 \<in> live two_opening \<and>
   6 \<notin> live (child_upstream_handler sample_child 1 SERVER_EVENT_SESSION_OPENED two_opening)"
  using umux_fallback_loses_connection [of two_opening 0 "[(1, US_OPENING_SESSION)]" 1 6 "pending_of 1 sample_pair 6 []" sample_child]
  by (simp add: two_opening_def busy_mux_def umux_new_def live_def pending_of_def sample_child_def Let_def)

end
