(* ===== verification/TT_Connectors.thy ===== *)
theory TT_Connectors
  imports TT_Vpn_Client
begin

text \<open>
  The endpoint connectors of \<open>core/src/single_upstream_connector.cpp\<close> and
  \<open>core/src/fallbackable_upstream_connector.cpp\<close>. The first drives one upstream through the opening
  of its session with a state machine; the second runs two of them, the fallback after a delay or as
  soon as the main one fails, and reports the first success or the last failure. The upstreams are
  parameters: whether they can be initialized and start to open a session, and the events they raise.
  They raise no event before \<open>open_session\<close> and \<open>close_session\<close> return.
\<close>

section \<open>One upstream\<close>

definition SU_DISCONNECTED :: fsm_state where "SU_DISCONNECTED = 0"

definition SU_CONNECTING :: fsm_state where "SU_CONNECTING = 1"

definition SU_DISCONNECTING :: fsm_state where "SU_DISCONNECTING = 2"

definition SU_RUN_CONNECT :: fsm_event where "SU_RUN_CONNECT = 0"

definition SU_DISCONNECT :: fsm_event where "SU_DISCONNECT = 1"

definition SU_DEFERRED_DISCONNECT :: fsm_event where "SU_DEFERRED_DISCONNECT = 2"

definition SU_SESSION_OPENED :: fsm_event where "SU_SESSION_OPENED = 3"

definition SU_SESSION_CLOSED :: fsm_event where "SU_SESSION_CLOSED = 4"

definition SU_SESSION_ERROR :: fsm_event where "SU_SESSION_ERROR = 5"

definition SU_HEALTH_CHECK_ERROR :: fsm_event where "SU_HEALTH_CHECK_ERROR = 6"

lemmas su_names =
  SU_DISCONNECTED_def SU_CONNECTING_def SU_DISCONNECTING_def SU_RUN_CONNECT_def SU_DISCONNECT_def SU_DEFERRED_DISCONNECT_def
  SU_SESSION_OPENED_def SU_SESSION_CLOSED_def SU_SESSION_ERROR_def SU_HEALTH_CHECK_ERROR_def

datatype upstream_op =
    SuInit
  | SuOpenSession "millis option"
  | SuCloseSession
  | SuDeinit
  | SuHandleSleep
  | SuHandleWake

text \<open>
  \<open>su_upstream\<close>: the connector owns its upstream, which a successful connection hands over;
  \<open>su_raised\<close>: the results given to the handler of the connector.
\<close>

record single_connector =
  su_fsm :: fsm
  su_upstream :: bool
  su_pending_error :: "vpn_error option"
  su_deferred_task :: bool
  su_raised :: "connector_outcome list"
  su_calls :: "upstream_op list"
  su_faults :: "fault list"

record upstream_env =
  up_init_ok :: bool
  up_open_ok :: bool

definition su_call :: "upstream_op \<Rightarrow> single_connector \<Rightarrow> single_connector" where
  "su_call x c =
     (if su_upstream c then c\<lparr>su_calls := su_calls c @ [x]\<rparr>
      else c\<lparr>su_faults := su_faults c @ [NullDeref ''upstream'']\<rparr>)"

definition su_assert :: "string \<Rightarrow> bool \<Rightarrow> single_connector \<Rightarrow> single_connector" where
  "su_assert what b c = (if b then c else c\<lparr>su_faults := su_faults c @ [AssertFailed what]\<rparr>)"

definition su_do_connect :: "fsm_state \<Rightarrow> single_connector \<Rightarrow> upstream_env \<times> client_data \<Rightarrow> single_connector" where
  "su_do_connect st c ed =
     (let timeout = (case snd ed of CTimeout t \<Rightarrow> t | _ \<Rightarrow> None);
          c1 = su_call (SuOpenSession timeout) c
      in if up_open_ok (fst ed) then c1
         else c1\<lparr>su_pending_error := Some (VpnError VPN_EC_ERROR ''Failed to open session with endpoint'')\<rparr>)"

definition su_note_error :: "client_data \<Rightarrow> single_connector \<Rightarrow> single_connector" where
  "su_note_error d c =
     (case d of
        CError e \<Rightarrow> if su_pending_error c = None \<and> ec e \<noteq> VPN_EC_NOERROR then c\<lparr>su_pending_error := Some e\<rparr> else c
      | _ \<Rightarrow> c)"

definition su_do_disconnect :: "fsm_state \<Rightarrow> single_connector \<Rightarrow> upstream_env \<times> client_data \<Rightarrow> single_connector" where
  "su_do_disconnect st c ed = (su_call SuDeinit (su_call SuCloseSession (su_note_error (snd ed) c)))\<lparr>su_deferred_task := False\<rparr>"

definition su_submit_disconnect :: "fsm_state \<Rightarrow> single_connector \<Rightarrow> upstream_env \<times> client_data \<Rightarrow> single_connector" where
  "su_submit_disconnect st c ed = (su_note_error (snd ed) c)\<lparr>su_deferred_task := True\<rparr>"

definition su_raise_connected :: "fsm_state \<Rightarrow> single_connector \<Rightarrow> upstream_env \<times> client_data \<Rightarrow> single_connector" where
  "su_raise_connected st c ed = c\<lparr>su_upstream := False, su_raised := su_raised c @ [ConnectorUpstream]\<rparr>"

definition su_raise_disconnected :: "fsm_state \<Rightarrow> single_connector \<Rightarrow> upstream_env \<times> client_data \<Rightarrow> single_connector" where
  "su_raise_disconnected st c ed =
     (let e = (case su_pending_error c of
                 Some e \<Rightarrow> e
               | None \<Rightarrow> (case snd ed of CError e \<Rightarrow> e | _ \<Rightarrow> no_error))
      in c\<lparr>su_pending_error := None, su_raised := su_raised c @ [ConnectorError e]\<rparr>)"

definition su_row ::
  "fsm_state \<Rightarrow> fsm_event \<Rightarrow>
     (fsm_state \<Rightarrow> single_connector \<Rightarrow> upstream_env \<times> client_data \<Rightarrow> single_connector) option \<Rightarrow> fsm_state \<Rightarrow>
     (fsm_state \<Rightarrow> single_connector \<Rightarrow> upstream_env \<times> client_data \<Rightarrow> single_connector) option \<Rightarrow>
     (single_connector, upstream_env \<times> client_data) fsm_entry" where
  "su_row s e bef t after =
     \<lparr>src_state = s, event = e, condition = None, before_transition = bef, target_state = t, after_transition = after\<rparr>"

definition su_table :: "(single_connector, upstream_env \<times> client_data) fsm_entry list" where
  "su_table =
    [su_row SU_DISCONNECTED SU_RUN_CONNECT (Some su_do_connect) SU_CONNECTING None,
     su_row SU_DISCONNECTED SU_SESSION_CLOSED None SAME_TARGET_STATE None,
     su_row SU_DISCONNECTED SU_DISCONNECT None SAME_TARGET_STATE None,

     su_row SU_CONNECTING SU_SESSION_OPENED None SU_DISCONNECTED (Some su_raise_connected),
     su_row SU_CONNECTING SU_SESSION_CLOSED None SU_DISCONNECTED (Some su_raise_disconnected),
     su_row SU_CONNECTING SU_SESSION_ERROR (Some su_submit_disconnect) SU_DISCONNECTING None,

     su_row SU_DISCONNECTING SU_SESSION_CLOSED None SU_DISCONNECTED (Some su_raise_disconnected),
     su_row SU_DISCONNECTING SU_DEFERRED_DISCONNECT (Some su_do_disconnect) SU_DISCONNECTED (Some su_raise_disconnected),

     su_row ANY_SOURCE_STATE SU_DISCONNECT (Some su_do_disconnect) SU_DISCONNECTED None]"

definition su_params :: "(single_connector, upstream_env \<times> client_data) fsm_params" where
  "su_params = \<lparr>initial_state = SU_DISCONNECTED, table = su_table\<rparr>"

definition su_transition :: "fsm_event \<Rightarrow> upstream_env \<Rightarrow> client_data \<Rightarrow> single_connector \<Rightarrow> single_connector" where
  "su_transition ev env d c = (let (f, c') = perform_transition su_params ev (env, d) (su_fsm c, c) in c'\<lparr>su_fsm := f\<rparr>)"

definition su_new :: single_connector where
  "su_new = \<lparr>su_fsm = fsm_init su_params, su_upstream = True, su_pending_error = None, su_deferred_task = False,
     su_raised = [], su_calls = [], su_faults = []\<rparr>"

fun su_upstream_handler :: "server_event \<Rightarrow> upstream_env \<Rightarrow> single_connector \<Rightarrow> single_connector" where
  "su_upstream_handler SERVER_EVENT_SESSION_OPENED env c = su_transition SU_SESSION_OPENED env CNull c"
| "su_upstream_handler SERVER_EVENT_SESSION_CLOSED env c = su_transition SU_SESSION_CLOSED env CNull c"
| "su_upstream_handler (SERVER_EVENT_HEALTH_CHECK_ERROR e) env c = su_transition SU_HEALTH_CHECK_ERROR env (CError e) c"
| "su_upstream_handler (SERVER_EVENT_ERROR i e) env c =
     su_transition SU_SESSION_ERROR env (CError e) (su_assert ''event->id == NON_ID'' (i = NON_ID) c)"
| "su_upstream_handler _ env c = su_assert ''0'' False c"

definition su_disconnect :: "upstream_env \<Rightarrow> single_connector \<Rightarrow> single_connector" where
  "su_disconnect env c = su_transition SU_DISCONNECT env CNull c"

definition su_connect :: "upstream_env \<Rightarrow> millis option \<Rightarrow> single_connector \<Rightarrow> vpn_error \<times> single_connector" where
  "su_connect env timeout c =
     (if get_state (su_fsm c) \<noteq> SU_DISCONNECTED then (VpnError VPN_EC_ERROR ''Invalid state'', c)
      else
        (let c1 = su_call SuInit c in
         if \<not> up_init_ok env then (VpnError VPN_EC_ERROR ''Failed to initialize upstream'', c1)
         else
           (let c2 = su_transition SU_RUN_CONNECT env (CTimeout timeout) c1 in
            case su_pending_error c2 of
              Some e \<Rightarrow> (e, su_disconnect env (c2\<lparr>su_pending_error := None\<rparr>))
            | None \<Rightarrow> (no_error, c2))))"

definition su_run_deferred :: "upstream_env \<Rightarrow> single_connector \<Rightarrow> single_connector" where
  "su_run_deferred env c = su_transition SU_DEFERRED_DISCONNECT env CNull (c\<lparr>su_deferred_task := False\<rparr>)"

definition su_handle_sleep :: "single_connector \<Rightarrow> single_connector" where
  "su_handle_sleep c = (if get_state (su_fsm c) = SU_CONNECTING then su_call SuHandleSleep c else c)"

definition su_handle_wake :: "single_connector \<Rightarrow> single_connector" where
  "su_handle_wake c = (if get_state (su_fsm c) = SU_CONNECTING then su_call SuHandleWake c else c)"

section \<open>An upstream with a fallback\<close>

record main_info =
  mi_connector :: "single_connector option"
  mi_has_result :: bool
  mi_start_ts :: time_point
  mi_result_task :: "connector_outcome option"

text \<open>The delay of the task that starts the fallback is 0 when the task is submitted.\<close>

record fallback_info =
  fi_connector :: "single_connector option"
  fi_delay :: millis
  fi_tried :: bool
  fi_has_result :: bool
  fi_delay_task :: "millis option"
  fi_result_task :: "connector_outcome option"

record fb_connector =
  m_main :: main_info
  m_fallback :: fallback_info
  m_connect_timeout :: "millis option"
  fb_raised :: "connector_outcome list"
  fb_faults :: "fault list"

record connectors_env =
  main_env :: upstream_env
  fallback_env :: upstream_env
  fb_now :: time_point

definition main_info_empty :: main_info where
  "main_info_empty = \<lparr>mi_connector = None, mi_has_result = False, mi_start_ts = 0, mi_result_task = None\<rparr>"

definition fallback_info_empty :: fallback_info where
  "fallback_info_empty =
     \<lparr>fi_connector = None, fi_delay = 0, fi_tried = False, fi_has_result = False, fi_delay_task = None, fi_result_task = None\<rparr>"

definition fb_new :: "millis \<Rightarrow> fb_connector" where
  "fb_new fallback_delay =
     \<lparr>m_main = main_info_empty\<lparr>mi_connector := Some su_new\<rparr>,
      m_fallback = fallback_info_empty\<lparr>fi_connector := Some su_new, fi_delay := fallback_delay\<rparr>,
      m_connect_timeout = None, fb_raised = [], fb_faults = []\<rparr>"

definition fb_assert :: "string \<Rightarrow> bool \<Rightarrow> fb_connector \<Rightarrow> fb_connector" where
  "fb_assert what b m = (if b then m else m\<lparr>fb_faults := fb_faults m @ [AssertFailed what]\<rparr>)"

definition fb_null :: "string \<Rightarrow> fb_connector \<Rightarrow> fb_connector" where
  "fb_null what m = m\<lparr>fb_faults := fb_faults m @ [NullDeref what]\<rparr>"

definition set_main :: "single_connector \<Rightarrow> fb_connector \<Rightarrow> fb_connector" where
  "set_main c m = m\<lparr>m_main := (m_main m)\<lparr>mi_connector := Some c\<rparr>\<rparr>"

definition set_fallback :: "single_connector \<Rightarrow> fb_connector \<Rightarrow> fb_connector" where
  "set_fallback c m = m\<lparr>m_fallback := (m_fallback m)\<lparr>fi_connector := Some c\<rparr>\<rparr>"

text \<open>The connector that gave a result: the first argument is whether it is the main one.\<close>

definition fb_other_disconnect :: "bool \<Rightarrow> connectors_env \<Rightarrow> fb_connector \<Rightarrow> fb_connector" where
  "fb_other_disconnect main env m =
     (if main
      then (case fi_connector (m_fallback m) of Some c \<Rightarrow> set_fallback (su_disconnect (fallback_env env) c) m | None \<Rightarrow> m)
      else (case mi_connector (m_main m) of Some c \<Rightarrow> set_main (su_disconnect (main_env env) c) m | None \<Rightarrow> m))"

definition handle_connect_result :: "bool \<Rightarrow> connector_outcome \<Rightarrow> connectors_env \<Rightarrow> fb_connector \<Rightarrow> fb_connector" where
  "handle_connect_result main result env m =
     (let m1 = (if result = ConnectorUpstream then fb_other_disconnect main env m else m);
          m2 = (if main
                then m1\<lparr>m_main := (m_main m1)\<lparr>mi_connector := None, mi_has_result := True, mi_result_task := None\<rparr>\<rparr>
                else m1\<lparr>m_fallback := (m_fallback m1)\<lparr>fi_connector := None, fi_has_result := True, fi_result_task := None\<rparr>\<rparr>);
          need_raise = (result = ConnectorUpstream \<or> (mi_has_result (m_main m2) \<and> fi_has_result (m_fallback m2)))
      in if need_raise
         then m2\<lparr>fb_raised := fb_raised m2 @ [result], m_main := main_info_empty, m_fallback := fallback_info_empty\<rparr>
         else if \<not> fi_tried (m_fallback m2)
         then m2\<lparr>m_fallback := (m_fallback m2)\<lparr>fi_delay_task := Some 0\<rparr>\<rparr>
         else m2)"

text \<open>The handlers of the two connectors: the results that one of them raises are handled by a task.\<close>

definition main_connector_handler :: "connector_outcome \<Rightarrow> fb_connector \<Rightarrow> fb_connector" where
  "main_connector_handler result m =
     (fb_assert ''!self->m_main.result_task.has_value()'' (mi_result_task (m_main m) = None) m)
       \<lparr>m_main := (m_main m)\<lparr>mi_result_task := Some result\<rparr>\<rparr>"

definition fallback_connector_handler :: "connector_outcome \<Rightarrow> fb_connector \<Rightarrow> fb_connector" where
  "fallback_connector_handler result m =
     (fb_assert ''!self->m_fallback.result_task.has_value()'' (fi_result_task (m_fallback m) = None) m)
       \<lparr>m_fallback := (m_fallback m)\<lparr>fi_result_task := Some result\<rparr>\<rparr>"

text \<open>A step of one of the connectors, followed by its handler for what the step raises.\<close>

definition main_step :: "(single_connector \<Rightarrow> single_connector) \<Rightarrow> fb_connector \<Rightarrow> fb_connector" where
  "main_step f m =
     (case mi_connector (m_main m) of
        None \<Rightarrow> m
      | Some c \<Rightarrow> fold main_connector_handler (drop (length (su_raised c)) (su_raised (f c))) (set_main (f c) m))"

definition fallback_step :: "(single_connector \<Rightarrow> single_connector) \<Rightarrow> fb_connector \<Rightarrow> fb_connector" where
  "fallback_step f m =
     (case fi_connector (m_fallback m) of
        None \<Rightarrow> m
      | Some c \<Rightarrow> fold fallback_connector_handler (drop (length (su_raised c)) (su_raised (f c))) (set_fallback (f c) m))"

text \<open>The fallback gets what is left of the time of the connection, but at least a tenth of it.\<close>

definition fallback_timeout :: "connectors_env \<Rightarrow> fb_connector \<Rightarrow> millis option" where
  "fallback_timeout env m =
     map_option (\<lambda>t. max (t - duration_cast_millis (fb_now env - mi_start_ts (m_main m))) (trunc_div t 10)) (m_connect_timeout m)"

definition start_fallback_connection :: "connectors_env \<Rightarrow> fb_connector \<Rightarrow> fb_connector" where
  "start_fallback_connection env m =
     (let m1 = fb_assert ''!m_fallback.has_result'' (\<not> fi_has_result (m_fallback m))
                 (fb_assert ''!m_fallback.tried'' (\<not> fi_tried (m_fallback m)) m);
          m2 = m1\<lparr>m_fallback := (m_fallback m1)\<lparr>fi_tried := True\<rparr>\<rparr>
      in case fi_connector (m_fallback m2) of
           None \<Rightarrow> fb_null ''m_fallback.connector'' m2
         | Some c \<Rightarrow>
             (let (e, c1) = su_connect (fallback_env env) (fallback_timeout env m2) c; m3 = set_fallback c1 m2
              in if ec e \<noteq> VPN_EC_NOERROR then handle_connect_result False (ConnectorError e) env m3 else m3))"

definition fb_connect :: "connectors_env \<Rightarrow> millis option \<Rightarrow> fb_connector \<Rightarrow> fb_connector" where
  "fb_connect env timeout m =
     (let m1 = m\<lparr>m_connect_timeout := timeout, m_main := (m_main m)\<lparr>mi_start_ts := fb_now env\<rparr>\<rparr> in
      case mi_connector (m_main m1) of
        None \<Rightarrow> fb_null ''m_main.connector'' m1
      | Some c \<Rightarrow>
          (let (e, c1) = su_connect (main_env env) timeout c; m2 = set_main c1 m1
           in if ec e \<noteq> VPN_EC_NOERROR then handle_connect_result True (ConnectorError e) env m2
              else m2\<lparr>m_fallback := (m_fallback m2)\<lparr>fi_delay_task := Some (fi_delay (m_fallback m2))\<rparr>\<rparr>))"

definition fb_live_main :: "fb_connector \<Rightarrow> bool" where
  "fb_live_main m \<longleftrightarrow> \<not> mi_has_result (m_main m) \<and> mi_connector (m_main m) \<noteq> None"

definition fb_live_fallback :: "fb_connector \<Rightarrow> bool" where
  "fb_live_fallback m \<longleftrightarrow> fi_tried (m_fallback m) \<and> \<not> fi_has_result (m_fallback m) \<and> fi_connector (m_fallback m) \<noteq> None"

definition fb_disconnect :: "connectors_env \<Rightarrow> fb_connector \<Rightarrow> fb_connector" where
  "fb_disconnect env m =
     (let m1 = (if fb_live_main m then main_step (su_disconnect (main_env env)) m else m);
          m2 = m1\<lparr>m_main := (m_main m1)\<lparr>mi_result_task := None\<rparr>\<rparr>;
          m3 = (if fb_live_fallback m2 then fallback_step (su_disconnect (fallback_env env)) m2 else m2)
      in m3\<lparr>m_fallback := (m_fallback m3)\<lparr>fi_delay_task := None, fi_result_task := None\<rparr>\<rparr>)"

definition fb_handle_sleep :: "fb_connector \<Rightarrow> fb_connector" where
  "fb_handle_sleep m =
     (let m1 = (if fb_live_main m then main_step su_handle_sleep m else m)
      in if fb_live_fallback m1 then fallback_step su_handle_sleep m1 else m1)"

definition fb_handle_wake :: "fb_connector \<Rightarrow> fb_connector" where
  "fb_handle_wake m =
     (let m1 = (if fb_live_main m then main_step su_handle_wake m else m)
      in if fb_live_fallback m1 then fallback_step su_handle_wake m1 else m1)"

text \<open>The tasks of the event loop: an armed task is released and then run.\<close>

definition fb_run_delay_task :: "connectors_env \<Rightarrow> fb_connector \<Rightarrow> fb_connector" where
  "fb_run_delay_task env m =
     (if fi_delay_task (m_fallback m) = None then m
      else start_fallback_connection env (m\<lparr>m_fallback := (m_fallback m)\<lparr>fi_delay_task := None\<rparr>\<rparr>))"

definition fb_run_main_result :: "connectors_env \<Rightarrow> fb_connector \<Rightarrow> fb_connector" where
  "fb_run_main_result env m =
     (case mi_result_task (m_main m) of None \<Rightarrow> m | Some r \<Rightarrow> handle_connect_result True r env m)"

definition fb_run_fallback_result :: "connectors_env \<Rightarrow> fb_connector \<Rightarrow> fb_connector" where
  "fb_run_fallback_result env m =
     (case fi_result_task (m_fallback m) of None \<Rightarrow> m | Some r \<Rightarrow> handle_connect_result False r env m)"

section \<open>Transitions of one connector\<close>

lemma su_row_sel [simp]:
  "src_state (su_row s e b t a) = s" "event (su_row s e b t a) = e" "condition (su_row s e b t a) = None"
  "before_transition (su_row s e b t a) = b" "target_state (su_row s e b t a) = t" "after_transition (su_row s e b t a) = a"
  by (simp_all add: su_row_def)

lemma su_transition_find:
  assumes "su_fsm c = \<lparr>m_current_state = st, m_recursive = False\<rparr>"
  shows "su_transition ev env d c =
     (case rows st ev su_table of
        [] \<Rightarrow> c
      | e # _ \<Rightarrow> (snd (fire e (env, d) st c))\<lparr>su_fsm := \<lparr>m_current_state = fst (fire e (env, d) st c), m_recursive = False\<rparr>\<rparr>)"
proof -
  have "\<forall>e \<in> set su_table. condition e = None" by (simp add: su_table_def)
  then show ?thesis
    using assms by (simp add: su_transition_def perform_transition_find su_params_def find_rows_unconditional split: list.split)
qed

text \<open>
  A connector at work, before it reports: its session is being opened, or its failure is waiting for the
  deferred task. A connector that has reported: it is disconnected for good.
\<close>

definition su_state :: "single_connector \<Rightarrow> fsm_state" where
  "su_state c = get_state (su_fsm c)"

definition su_sound :: "single_connector \<Rightarrow> bool" where
  "su_sound c \<longleftrightarrow> \<not> m_recursive (su_fsm c) \<and> su_faults c = []"

definition su_working :: "single_connector \<Rightarrow> bool" where
  "su_working c \<longleftrightarrow> su_sound c \<and> su_upstream c \<and> su_raised c = [] \<and>
     (su_state c = SU_CONNECTING \<or> (su_state c = SU_DISCONNECTING \<and> su_deferred_task c))"

definition su_reported :: "connector_outcome \<Rightarrow> single_connector \<Rightarrow> bool" where
  "su_reported r c \<longleftrightarrow> su_sound c \<and> su_raised c = [r] \<and> su_state c = SU_DISCONNECTED \<and> (su_upstream c \<longleftrightarrow> r \<noteq> ConnectorUpstream)"

definition su_idle :: "single_connector \<Rightarrow> bool" where
  "su_idle c \<longleftrightarrow> su_sound c \<and> su_upstream c \<and> su_raised c = [] \<and> su_state c = SU_DISCONNECTED \<and> su_pending_error c = None"

definition session_event :: "server_event \<Rightarrow> bool" where
  "session_event e \<longleftrightarrow>
     (case e of
        SERVER_EVENT_SESSION_OPENED \<Rightarrow> True
      | SERVER_EVENT_SESSION_CLOSED \<Rightarrow> True
      | SERVER_EVENT_HEALTH_CHECK_ERROR _ \<Rightarrow> True
      | SERVER_EVENT_ERROR i _ \<Rightarrow> i = NON_ID
      | _ \<Rightarrow> False)"

lemma su_soundE:
  assumes "su_sound c"
  obtains st where "su_fsm c = \<lparr>m_current_state = st, m_recursive = False\<rparr>" "su_state c = st"
  using assms by (cases "su_fsm c") (auto simp: su_sound_def su_state_def get_state_def)

lemmas su_actions =
  su_do_connect_def su_do_disconnect_def su_submit_disconnect_def su_raise_connected_def su_raise_disconnected_def
  su_note_error_def su_call_def Let_def fire_def next_state_def SAME_TARGET_STATE_def ANY_SOURCE_STATE_def

lemma su_new_idle: "su_idle su_new"
  by (simp add: su_idle_def su_sound_def su_state_def su_new_def fsm_init_def su_params_def get_state_def)

lemma su_connect_idle:
  assumes "su_idle c"
  shows "ec (fst (su_connect env timeout c)) \<noteq> VPN_EC_NOERROR \<and> su_raised (snd (su_connect env timeout c)) = [] \<or>
    ec (fst (su_connect env timeout c)) = VPN_EC_NOERROR \<and> su_working (snd (su_connect env timeout c))"
proof -
  have "su_sound c" using assms by (simp add: su_idle_def)
  then obtain st where f: "su_fsm c = \<lparr>m_current_state = st, m_recursive = False\<rparr>" "su_state c = st" by (rule su_soundE)
  then have c: "st = SU_DISCONNECTED" "su_upstream c" "su_raised c = []" "su_pending_error c = None" "su_faults c = []"
    using assms by (simp_all add: su_idle_def su_sound_def)
  define c1 where "c1 = su_call SuInit c"
  have c1: "su_fsm c1 = \<lparr>m_current_state = SU_DISCONNECTED, m_recursive = False\<rparr>" "su_upstream c1" "su_raised c1 = []"
    "su_pending_error c1 = None" "su_faults c1 = []"
    using c f by (simp_all add: c1_def su_call_def)
  define c2 where "c2 = su_transition SU_RUN_CONNECT env (CTimeout timeout) c1"
  have c2: "c2 = (su_do_connect SU_DISCONNECTED c1 (env, CTimeout timeout))\<lparr>su_fsm := \<lparr>m_current_state = SU_CONNECTING, m_recursive = False\<rparr>\<rparr>"
    unfolding c2_def su_transition_find [OF c1(1)] by (simp add: su_table_def su_names su_actions)
  have f3: "su_fsm (c2\<lparr>su_pending_error := None\<rparr>) = \<lparr>m_current_state = SU_CONNECTING, m_recursive = False\<rparr>" by (simp add: c2)
  have r3: "su_raised (su_disconnect env (c2\<lparr>su_pending_error := None\<rparr>)) = []"
    unfolding su_disconnect_def su_transition_find [OF f3] using c1 by (simp add: c2 su_table_def su_names su_actions)
  have p2: "su_pending_error c2 = (if up_open_ok env then None else Some (VpnError VPN_EC_ERROR ''Failed to open session with endpoint''))"
    and w2: "su_working c2"
    using c1 by (simp_all add: c2 su_do_connect_def su_call_def Let_def su_working_def su_sound_def su_state_def get_state_def)
  have "su_connect env timeout c =
      (if \<not> up_init_ok env then (VpnError VPN_EC_ERROR ''Failed to initialize upstream'', c1)
       else case su_pending_error c2 of
              Some e \<Rightarrow> (e, su_disconnect env (c2\<lparr>su_pending_error := None\<rparr>))
            | None \<Rightarrow> (no_error, c2))"
    using f c(1) unfolding su_connect_def Let_def c1_def [symmetric] c2_def [symmetric] by (simp add: su_state_def)
  then show ?thesis
    using r3 w2 c1 by (simp add: p2 VPN_EC_ERROR_def VPN_EC_NOERROR_def no_error_def)
qed

lemma su_cases:
  assumes "su_working c \<or> su_reported r c"
  obtains st where "su_fsm c = \<lparr>m_current_state = st, m_recursive = False\<rparr>" "su_state c = st" "su_faults c = []"
  using assms su_soundE by (metis su_reported_def su_sound_def su_working_def)

lemma su_event_working:
  assumes c: "su_working c" and e: "session_event e"
  shows "su_working (su_upstream_handler e env c) \<or> (\<exists>r. su_reported r (su_upstream_handler e env c))"
proof -
  obtain st where f: "su_fsm c = \<lparr>m_current_state = st, m_recursive = False\<rparr>" "su_state c = st" "su_faults c = []"
    using su_cases c by metis
  then have w: "su_upstream c" "su_raised c = []" "st = 1 \<or> st = 2 \<and> su_deferred_task c"
    using c by (auto simp: su_working_def su_names)
  show ?thesis
    using e w f
    by (cases e) (auto simp: session_event_def su_transition_find [OF f(1)] su_table_def su_names su_actions su_assert_def su_working_def
        su_reported_def su_sound_def su_state_def get_state_def split: option.splits)
qed

lemma su_event_reported:
  assumes c: "su_reported r c" and e: "session_event e"
  shows "su_reported r (su_upstream_handler e env c)"
proof -
  obtain st where f: "su_fsm c = \<lparr>m_current_state = st, m_recursive = False\<rparr>" "su_state c = st" "su_faults c = []"
    using su_cases c by metis
  then have "st = 0" using c by (simp add: su_reported_def su_names)
  then show ?thesis
    using e c f
    by (cases e) (auto simp: session_event_def su_transition_find [OF f(1)] su_table_def su_names su_actions su_assert_def
        su_reported_def su_sound_def su_state_def get_state_def)
qed

definition su_deferred :: "upstream_env \<Rightarrow> single_connector \<Rightarrow> single_connector" where
  "su_deferred env c = (if su_deferred_task c then su_run_deferred env c else c)"

lemma su_deferred_working:
  assumes c: "su_working c"
  shows "su_working (su_deferred env c) \<or> (\<exists>r. su_reported r (su_deferred env c))"
proof -
  obtain st where f: "su_fsm c = \<lparr>m_current_state = st, m_recursive = False\<rparr>" "su_state c = st" "su_faults c = []"
    using su_cases c by metis
  then have w: "su_upstream c" "su_raised c = []" "st = 1 \<or> st = 2 \<and> su_deferred_task c"
    using c by (auto simp: su_working_def su_names)
  have f1: "su_fsm (c\<lparr>su_deferred_task := False\<rparr>) = \<lparr>m_current_state = st, m_recursive = False\<rparr>" using f by simp
  show ?thesis
    using w f c by (auto simp: su_deferred_def su_run_deferred_def su_transition_find [OF f1] su_table_def su_names su_actions su_working_def
        su_reported_def su_sound_def su_state_def get_state_def split: option.splits)
qed

lemma su_deferred_reported:
  assumes c: "su_reported r c"
  shows "su_reported r (su_deferred env c)"
proof -
  obtain st where f: "su_fsm c = \<lparr>m_current_state = st, m_recursive = False\<rparr>" "su_state c = st" "su_faults c = []"
    using su_cases c by metis
  then have w: "st = 0" using c by (simp add: su_reported_def su_names)
  have f1: "su_fsm (c\<lparr>su_deferred_task := False\<rparr>) = \<lparr>m_current_state = st, m_recursive = False\<rparr>" using f by simp
  show ?thesis
    using w f c by (auto simp: su_deferred_def su_run_deferred_def su_transition_find [OF f1] su_table_def su_names ANY_SOURCE_STATE_def
        su_reported_def su_sound_def su_state_def get_state_def)
qed

lemma su_sleep_wake:
  "su_working c \<Longrightarrow> su_working (su_handle_sleep c)" "su_working c \<Longrightarrow> su_working (su_handle_wake c)"
  "su_reported r c \<Longrightarrow> su_reported r (su_handle_sleep c)" "su_reported r c \<Longrightarrow> su_reported r (su_handle_wake c)"
  by (auto simp: su_handle_sleep_def su_handle_wake_def su_call_def su_working_def su_reported_def su_sound_def su_state_def su_names)

lemma su_disconnect_quiet:
  assumes "su_working c \<or> su_reported r c"
  shows "su_raised (su_disconnect env c) = su_raised c \<and> su_faults (su_disconnect env c) = [] \<and> su_state (su_disconnect env c) = SU_DISCONNECTED"
proof -
  obtain st where f: "su_fsm c = \<lparr>m_current_state = st, m_recursive = False\<rparr>" "su_state c = st" "su_faults c = []"
    using su_cases [OF assms] by metis
  then have "st = 0 \<or> (st = 1 \<or> st = 2) \<and> su_upstream c" using assms by (auto simp: su_working_def su_reported_def su_names)
  then show ?thesis
    using f by (auto simp: su_disconnect_def su_transition_find [OF f(1)] su_table_def su_names su_actions su_state_def get_state_def)
qed

section \<open>The two connectors\<close>

datatype fb_call =
    FbMainEvent server_event
  | FbFallbackEvent server_event
  | FbMainDeferred
  | FbFallbackDeferred
  | FbDelayTask
  | FbMainResult
  | FbFallbackResult
  | FbSleep
  | FbWake

fun fb_step :: "connectors_env \<Rightarrow> fb_call \<Rightarrow> fb_connector \<Rightarrow> fb_connector" where
  "fb_step env (FbMainEvent e) m = main_step (su_upstream_handler e (main_env env)) m"
| "fb_step env (FbFallbackEvent e) m = fallback_step (su_upstream_handler e (fallback_env env)) m"
| "fb_step env FbMainDeferred m = main_step (su_deferred (main_env env)) m"
| "fb_step env FbFallbackDeferred m = fallback_step (su_deferred (fallback_env env)) m"
| "fb_step env FbDelayTask m = fb_run_delay_task env m"
| "fb_step env FbMainResult m = fb_run_main_result env m"
| "fb_step env FbFallbackResult m = fb_run_fallback_result env m"
| "fb_step env FbSleep m = fb_handle_sleep m"
| "fb_step env FbWake m = fb_handle_wake m"

text \<open>The events of an upstream that has no connections: they are about its session. An upstream that was not tried raises none.\<close>

fun fb_call_ok :: "fb_call \<Rightarrow> fb_connector \<Rightarrow> bool" where
  "fb_call_ok (FbMainEvent e) m = session_event e"
| "fb_call_ok (FbFallbackEvent e) m = (session_event e \<and> fi_tried (m_fallback m))"
| "fb_call_ok FbFallbackDeferred m = fi_tried (m_fallback m)"
| "fb_call_ok _ m = True"

inductive fb_reachable :: "fb_connector \<Rightarrow> bool" where
  fb_started: "fb_reachable (fb_connect env timeout (fb_new delay))"
| fb_called: "fb_reachable m \<Longrightarrow> fb_call_ok call m \<Longrightarrow> fb_reachable (fb_step env call m)"

text \<open>A connector together with the task for its result: at work, or with its result waiting.\<close>

definition in_progress :: "single_connector option \<Rightarrow> connector_outcome option \<Rightarrow> bool" where
  "in_progress co task \<longleftrightarrow>
     (\<exists>c. co = Some c \<and> (task = None \<and> su_working c \<or> (\<exists>r. task = Some r \<and> su_reported r c)))"

definition main_running :: "main_info \<Rightarrow> bool" where
  "main_running i \<longleftrightarrow> \<not> mi_has_result i \<and> in_progress (mi_connector i) (mi_result_task i)"

definition main_failed :: "main_info \<Rightarrow> bool" where
  "main_failed i \<longleftrightarrow> mi_has_result i \<and> mi_connector i = None \<and> mi_result_task i = None"

definition fallback_waiting :: "fallback_info \<Rightarrow> bool" where
  "fallback_waiting i \<longleftrightarrow> \<not> fi_tried i \<and> \<not> fi_has_result i \<and> fi_connector i = Some su_new \<and> fi_delay_task i \<noteq> None \<and> fi_result_task i = None"

definition fallback_running :: "fallback_info \<Rightarrow> bool" where
  "fallback_running i \<longleftrightarrow> fi_tried i \<and> \<not> fi_has_result i \<and> fi_delay_task i = None \<and> in_progress (fi_connector i) (fi_result_task i)"

definition fallback_failed :: "fallback_info \<Rightarrow> bool" where
  "fallback_failed i \<longleftrightarrow> fi_tried i \<and> fi_has_result i \<and> fi_delay_task i = None \<and> fi_connector i = None \<and> fi_result_task i = None"

definition fb_settled :: "fb_connector \<Rightarrow> bool" where
  "fb_settled m \<longleftrightarrow> (\<exists>r. fb_raised m = [r]) \<and> m_main m = main_info_empty \<and> m_fallback m = fallback_info_empty"

definition fb_busy :: "fb_connector \<Rightarrow> bool" where
  "fb_busy m \<longleftrightarrow> fb_raised m = [] \<and>
     (main_running (m_main m) \<and> (fallback_waiting (m_fallback m) \<or> fallback_running (m_fallback m) \<or> fallback_failed (m_fallback m)) \<or>
      main_failed (m_main m) \<and> (fallback_waiting (m_fallback m) \<or> fallback_running (m_fallback m)))"

definition fb_inv :: "fb_connector \<Rightarrow> bool" where
  "fb_inv m \<longleftrightarrow> fb_faults m = [] \<and> (fb_settled m \<or> fb_busy m)"

lemma in_progress_None [simp]: "\<not> in_progress None task"
  by (simp add: in_progress_def)

text \<open>A step of a connector that is at work, or that has reported, is followed by at most one call of its handler.\<close>

definition su_keeps :: "(single_connector \<Rightarrow> single_connector) \<Rightarrow> bool" where
  "su_keeps f \<longleftrightarrow>
     (\<forall>c. su_working c \<longrightarrow> su_working (f c) \<or> (\<exists>r. su_reported r (f c))) \<and> (\<forall>c r. su_reported r c \<longrightarrow> su_reported r (f c))"

lemma su_keeps_steps:
  "session_event e \<Longrightarrow> su_keeps (su_upstream_handler e env)" "su_keeps (su_deferred env)"
  "su_keeps su_handle_sleep" "su_keeps su_handle_wake"
  by (simp_all add: su_keeps_def su_event_working su_event_reported su_deferred_working su_deferred_reported su_sleep_wake)

lemma main_step_keeps:
  assumes f: "su_keeps f" and m: "main_running (m_main m)"
  shows "main_running (m_main (main_step f m)) \<and> m_fallback (main_step f m) = m_fallback m \<and>
    fb_raised (main_step f m) = fb_raised m \<and> fb_faults (main_step f m) = fb_faults m"
proof -
  obtain c where c: "mi_connector (m_main m) = Some c" "\<not> mi_has_result (m_main m)"
    and p: "mi_result_task (m_main m) = None \<and> su_working c \<or> (\<exists>r. mi_result_task (m_main m) = Some r \<and> su_reported r c)"
    using m by (auto simp: main_running_def in_progress_def)
  consider "mi_result_task (m_main m) = None" "su_raised c = []" "su_working (f c)" "su_raised (f c) = []"
    | r where "mi_result_task (m_main m) = None" "su_raised c = []" "su_reported r (f c)" "su_raised (f c) = [r]"
    | r where "mi_result_task (m_main m) = Some r" "su_raised c = [r]" "su_reported r (f c)" "su_raised (f c) = [r]"
    using p f unfolding su_keeps_def by (metis su_reported_def su_working_def)
  then show ?thesis
    by cases (use c in \<open>auto simp: main_step_def set_main_def main_connector_handler_def fb_assert_def main_running_def in_progress_def\<close>)
qed

lemma fallback_step_keeps:
  assumes f: "su_keeps f" and m: "fallback_running (m_fallback m)"
  shows "fallback_running (m_fallback (fallback_step f m)) \<and> m_main (fallback_step f m) = m_main m \<and>
    fb_raised (fallback_step f m) = fb_raised m \<and> fb_faults (fallback_step f m) = fb_faults m"
proof -
  obtain c where c: "fi_connector (m_fallback m) = Some c" "\<not> fi_has_result (m_fallback m)" "fi_tried (m_fallback m)" "fi_delay_task (m_fallback m) = None"
    and p: "fi_result_task (m_fallback m) = None \<and> su_working c \<or> (\<exists>r. fi_result_task (m_fallback m) = Some r \<and> su_reported r c)"
    using m by (auto simp: fallback_running_def in_progress_def)
  consider "fi_result_task (m_fallback m) = None" "su_raised c = []" "su_working (f c)" "su_raised (f c) = []"
    | r where "fi_result_task (m_fallback m) = None" "su_raised c = []" "su_reported r (f c)" "su_raised (f c) = [r]"
    | r where "fi_result_task (m_fallback m) = Some r" "su_raised c = [r]" "su_reported r (f c)" "su_raised (f c) = [r]"
    using p f unfolding su_keeps_def by (metis su_reported_def su_working_def)
  then show ?thesis
    by cases (use c in \<open>auto simp: fallback_step_def set_fallback_def fallback_connector_handler_def fb_assert_def fallback_running_def in_progress_def\<close>)
qed

lemma steps_without_connector:
  "mi_connector (m_main m) = None \<Longrightarrow> main_step f m = m"
  "fi_connector (m_fallback m) = None \<Longrightarrow> fallback_step f m = m"
  by (simp_all add: main_step_def fallback_step_def)

lemma other_disconnect_frame:
  "fb_raised (fb_other_disconnect b env m) = fb_raised m" "fb_faults (fb_other_disconnect b env m) = fb_faults m"
  by (simp_all add: fb_other_disconnect_def set_main_def set_fallback_def split: option.splits)

lemma handle_main_result:
  assumes "fb_busy m" and "main_running (m_main m)" and "fb_faults m = []"
  shows "fb_inv (handle_connect_result True r env m)"
proof (cases "r = ConnectorUpstream")
  case True
  then show ?thesis
    using assms by (simp add: handle_connect_result_def Let_def other_disconnect_frame fb_inv_def fb_settled_def fb_busy_def)
next
  case False
  define m2 where "m2 = m\<lparr>m_main := (m_main m)\<lparr>mi_connector := None, mi_has_result := True, mi_result_task := None\<rparr>\<rparr>"
  have eq: "handle_connect_result True r env m =
      (if fi_has_result (m_fallback m) then m2\<lparr>fb_raised := fb_raised m @ [r], m_main := main_info_empty, m_fallback := fallback_info_empty\<rparr>
       else if \<not> fi_tried (m_fallback m) then m2\<lparr>m_fallback := (m_fallback m)\<lparr>fi_delay_task := Some 0\<rparr>\<rparr>
       else m2)"
    using False by (simp add: handle_connect_result_def Let_def m2_def)
  have m2: "main_failed (m_main m2)" "m_fallback m2 = m_fallback m" "fb_raised m2 = []" "fb_faults m2 = []"
    using assms by (simp_all add: m2_def main_failed_def fb_busy_def)
  have "\<not> main_failed (m_main m)" using assms(2) by (simp add: main_running_def main_failed_def)
  then consider "fallback_waiting (m_fallback m)" | "fallback_running (m_fallback m)" | "fallback_failed (m_fallback m)"
    using assms(1) by (auto simp: fb_busy_def)
  then show ?thesis
  proof cases
    case 1
    then have "fallback_waiting ((m_fallback m)\<lparr>fi_delay_task := Some 0\<rparr>)" "\<not> fi_has_result (m_fallback m)" "\<not> fi_tried (m_fallback m)"
      by (simp_all add: fallback_waiting_def)
    then show ?thesis unfolding eq fb_inv_def fb_busy_def using m2 by simp
  next
    case 2
    then have "\<not> fi_has_result (m_fallback m)" "fi_tried (m_fallback m)" by (simp_all add: fallback_running_def)
    then show ?thesis unfolding eq fb_inv_def fb_busy_def using m2 2 by simp
  next
    case 3
    then have "fi_has_result (m_fallback m)" by (simp add: fallback_failed_def)
    then show ?thesis unfolding eq fb_inv_def fb_settled_def using m2 assms(1) by (simp add: fb_busy_def)
  qed
qed

lemma handle_fallback_result:
  assumes m: "main_running (m_main m) \<or> main_failed (m_main m)" and t: "fi_tried (m_fallback m)" "fi_delay_task (m_fallback m) = None"
    and n: "fb_raised m = []" "fb_faults m = []"
  shows "fb_inv (handle_connect_result False r env m)"
proof (cases "r = ConnectorUpstream")
  case True
  then show ?thesis using n by (simp add: handle_connect_result_def Let_def other_disconnect_frame fb_inv_def fb_settled_def)
next
  case False
  define m2 where "m2 = m\<lparr>m_fallback := (m_fallback m)\<lparr>fi_connector := None, fi_has_result := True, fi_result_task := None\<rparr>\<rparr>"
  have eq: "handle_connect_result False r env m =
      (if mi_has_result (m_main m) then m2\<lparr>fb_raised := fb_raised m @ [r], m_main := main_info_empty, m_fallback := fallback_info_empty\<rparr> else m2)"
    using False t by (simp add: handle_connect_result_def Let_def m2_def)
  have "fallback_failed (m_fallback m2)" "m_main m2 = m_main m" "fb_raised m2 = []" "fb_faults m2 = []"
    using t n by (simp_all add: m2_def fallback_failed_def)
  then show ?thesis
    unfolding eq fb_inv_def fb_settled_def fb_busy_def using m n by (auto simp: main_running_def main_failed_def)
qed

lemma fb_inv_connect: "fb_inv (fb_connect env timeout (fb_new delay))"
proof -
  obtain e c where con: "su_connect (main_env env) timeout su_new = (e, c)" by fastforce
  then have c: "ec e \<noteq> VPN_EC_NOERROR \<or> su_working c" using su_connect_idle [OF su_new_idle, of "main_env env" timeout] by auto
  show ?thesis
    using c by (cases "ec e = VPN_EC_NOERROR") (simp_all add: fb_connect_def Let_def con fb_new_def set_main_def main_info_empty_def fallback_info_empty_def handle_connect_result_def
        fb_inv_def fb_busy_def main_running_def main_failed_def in_progress_def fallback_waiting_def)
qed

lemma fb_inv_start_fallback:
  assumes m: "main_running (m_main m) \<or> main_failed (m_main m)" and w: "fallback_waiting (m_fallback m)" and n: "fb_raised m = []" "fb_faults m = []"
  shows "fb_inv (fb_run_delay_task env m)"
proof -
  define m1 where "m1 = m\<lparr>m_fallback := (m_fallback m)\<lparr>fi_delay_task := None, fi_tried := True\<rparr>\<rparr>"
  define timeout where "timeout = fallback_timeout env m"
  obtain e c where con: "su_connect (fallback_env env) timeout su_new = (e, c)" by fastforce
  then have c: "ec e \<noteq> VPN_EC_NOERROR \<or> su_working c" using su_connect_idle [OF su_new_idle, of "fallback_env env" timeout] by auto
  have eq: "fb_run_delay_task env m =
      (if ec e \<noteq> VPN_EC_NOERROR then handle_connect_result False (ConnectorError e) env (set_fallback c m1) else set_fallback c m1)"
    using w con by (auto simp: fb_run_delay_task_def start_fallback_connection_def Let_def fb_assert_def fallback_waiting_def m1_def timeout_def fallback_timeout_def)
  have "fb_inv (handle_connect_result False (ConnectorError e) env (set_fallback c m1))"
    by (rule handle_fallback_result) (use m n in \<open>simp_all add: set_fallback_def m1_def\<close>)
  moreover have "fb_inv (set_fallback c m1)" if "su_working c"
    using that m n w by (auto simp: fb_inv_def fb_busy_def fallback_running_def fallback_waiting_def in_progress_def set_fallback_def m1_def)
  ultimately show ?thesis unfolding eq using c by simp
qed

lemma fb_inv_main_step:
  assumes f: "su_keeps f" and m: "fb_inv m"
  shows "fb_inv (main_step f m)"
proof (cases "main_running (m_main m)")
  case True
  then show ?thesis using main_step_keeps [OF f True] m by (auto simp: fb_inv_def fb_busy_def fb_settled_def main_running_def main_failed_def main_info_empty_def)
next
  case False
  then have "mi_connector (m_main m) = None" using m by (auto simp: fb_inv_def fb_busy_def fb_settled_def main_failed_def main_info_empty_def)
  then show ?thesis using m by (simp add: steps_without_connector)
qed

lemma fb_inv_fallback_step:
  assumes f: "su_keeps f" and m: "fb_inv m" and t: "fi_tried (m_fallback m)"
  shows "fb_inv (fallback_step f m)"
proof (cases "fallback_running (m_fallback m)")
  case True
  then show ?thesis
    using fallback_step_keeps [OF f True] m by (auto simp: fb_inv_def fb_busy_def fb_settled_def fallback_running_def fallback_info_empty_def)
next
  case False
  then have "fi_connector (m_fallback m) = None"
    using m t by (auto simp: fb_inv_def fb_busy_def fb_settled_def fallback_waiting_def fallback_failed_def fallback_info_empty_def)
  then show ?thesis using m by (simp add: steps_without_connector)
qed

lemma fb_inv_results:
  assumes m: "fb_inv m"
  shows "fb_inv (fb_run_main_result env m)" "fb_inv (fb_run_fallback_result env m)"
proof -
  have "main_running (m_main m) \<and> fb_busy m" if "mi_result_task (m_main m) \<noteq> None"
    using m that by (auto simp: fb_inv_def fb_busy_def fb_settled_def main_failed_def main_info_empty_def)
  then show "fb_inv (fb_run_main_result env m)"
    using m handle_main_result by (auto simp: fb_run_main_result_def fb_inv_def split: option.splits)
  have "fallback_running (m_fallback m) \<and> fb_busy m" if "fi_result_task (m_fallback m) \<noteq> None"
    using m that by (auto simp: fb_inv_def fb_busy_def fb_settled_def fallback_waiting_def fallback_failed_def fallback_info_empty_def)
  then show "fb_inv (fb_run_fallback_result env m)"
    using m handle_fallback_result [of m] by (auto simp: fb_run_fallback_result_def fb_inv_def fb_busy_def fallback_running_def split: option.splits)
qed

lemma fb_inv_step:
  assumes m: "fb_inv m" and ok: "fb_call_ok call m"
  shows "fb_inv (fb_step env call m)"
proof (cases call)
  case FbDelayTask
  have "fallback_waiting (m_fallback m) \<and> fb_busy m" if "fi_delay_task (m_fallback m) \<noteq> None"
    using m that by (auto simp: fb_inv_def fb_busy_def fb_settled_def fallback_running_def fallback_failed_def fallback_info_empty_def)
  then have "fb_inv (fb_run_delay_task env m)" if "fi_delay_task (m_fallback m) \<noteq> None"
    using that m by (intro fb_inv_start_fallback) (auto simp: fb_inv_def fb_busy_def)
  then show ?thesis using m FbDelayTask by (cases "fi_delay_task (m_fallback m)") (simp_all add: fb_run_delay_task_def)
next
  case FbSleep
  have "fb_inv (main_step su_handle_sleep m)" by (rule fb_inv_main_step [OF su_keeps_steps(3) m])
  then show ?thesis
    using FbSleep m fb_inv_fallback_step [OF su_keeps_steps(3)] by (simp add: fb_handle_sleep_def Let_def fb_live_fallback_def)
next
  case FbWake
  have "fb_inv (main_step su_handle_wake m)" by (rule fb_inv_main_step [OF su_keeps_steps(4) m])
  then show ?thesis
    using FbWake m fb_inv_fallback_step [OF su_keeps_steps(4)] by (simp add: fb_handle_wake_def Let_def fb_live_fallback_def)
qed (use assms in \<open>simp_all add: fb_inv_main_step fb_inv_fallback_step su_keeps_steps fb_inv_results\<close>)

lemma fb_reachable_inv: "fb_reachable m \<Longrightarrow> fb_inv m"
  by (induction rule: fb_reachable.induct) (simp_all add: fb_inv_connect fb_inv_step)

lemma step_raised:
  "fb_raised (main_step f m) = fb_raised m" "fb_raised (fallback_step f m) = fb_raised m"
  "fb_raised (fb_handle_sleep m) = fb_raised m" "fb_raised (fb_handle_wake m) = fb_raised m"
proof -
  have main: "fb_raised (fold main_connector_handler rs m) = fb_raised m" for rs m
    by (induction rs arbitrary: m) (simp_all add: main_connector_handler_def fb_assert_def)
  have fallback: "fb_raised (fold fallback_connector_handler rs m) = fb_raised m" for rs m
    by (induction rs arbitrary: m) (simp_all add: fallback_connector_handler_def fb_assert_def)
  show m: "fb_raised (main_step f m) = fb_raised m" for f m by (simp add: main_step_def main set_main_def split: option.splits)
  show f: "fb_raised (fallback_step f m) = fb_raised m" for f m by (simp add: fallback_step_def fallback set_fallback_def split: option.splits)
  show "fb_raised (fb_handle_sleep m) = fb_raised m" "fb_raised (fb_handle_wake m) = fb_raised m"
    by (simp_all add: fb_handle_sleep_def fb_handle_wake_def Let_def m f)
qed

section \<open>The client\<close>

lemma dns_listener_defers: "deferred_tasks (snd (start_dns_proxy_listener env c)) = deferred_tasks c"
  by (simp add: start_dns_proxy_listener_def Let_def c_emit_def c_fault_def)

lemma handler_defers: "deferred_tasks (endpoint_connector_handler r env c) = deferred_tasks c @ [ConnectorFinalizer]"
proof -
  have "deferred_tasks (case start_dns_proxy_listener env c' of (e, c'') \<Rightarrow>
      if ec e \<noteq> VPN_EC_NOERROR then c''\<lparr>client_pending_error := Some e\<rparr> else c'') = deferred_tasks c'" for c'
    using dns_listener_defers [of env c'] by (cases "start_dns_proxy_listener env c'") simp
  then show ?thesis by (simp add: endpoint_connector_handler_def Let_def c_defer_def split: connector_outcome.splits)
qed

section \<open>The contract of a connector\<close>

text \<open>
  What \<open>VpnClient\<close> relies on, whichever connector it uses: while nothing is reported the connector has
  something left to do, and it reports one outcome, after which it does nothing more.
\<close>

locale connector_contract =
  fixes reach :: "'s \<Rightarrow> bool"
    and outcomes :: "'s \<Rightarrow> connector_outcome list"
    and pending :: "'s \<Rightarrow> bool"
  assumes settles: "reach s \<Longrightarrow> (\<exists>r. outcomes s = [r]) \<and> \<not> pending s \<or> outcomes s = [] \<and> pending s"
begin

lemma not_stuck: "reach s \<Longrightarrow> outcomes s = [] \<Longrightarrow> pending s"
  using settles by fastforce

lemma at_most_once: "reach s \<Longrightarrow> length (outcomes s) \<le> 1"
  using settles by fastforce

lemma one_finalizer:
  assumes "reach s" and "ConnectorFinalizer \<notin> set (deferred_tasks c)"
  shows "count_list (deferred_tasks (fold (\<lambda>r. endpoint_connector_handler r env) (outcomes s) c)) ConnectorFinalizer =
    (if pending s then 0 else 1)"
proof -
  have "count_list (deferred_tasks (endpoint_connector_handler r env c)) ConnectorFinalizer = 1" for r
    using assms(2) by (simp add: handler_defers)
  then show ?thesis using settles [OF assms(1)] assms(2) by auto
qed

end

text \<open>One connector after it was started.\<close>

inductive su_reachable :: "single_connector \<Rightarrow> bool" where
  su_started: "ec (fst (su_connect env timeout su_new)) = VPN_EC_NOERROR \<Longrightarrow> su_reachable (snd (su_connect env timeout su_new))"
| su_event: "su_reachable c \<Longrightarrow> session_event e \<Longrightarrow> su_reachable (su_upstream_handler e env c)"
| su_task: "su_reachable c \<Longrightarrow> su_reachable (su_deferred env c)"
| su_sleep: "su_reachable c \<Longrightarrow> su_reachable (su_handle_sleep c)"
| su_wake: "su_reachable c \<Longrightarrow> su_reachable (su_handle_wake c)"

lemma su_keepsD:
  "su_keeps f \<Longrightarrow> su_working c \<or> (\<exists>r. su_reported r c) \<Longrightarrow> su_working (f c) \<or> (\<exists>r. su_reported r (f c))"
  unfolding su_keeps_def by blast

lemma su_reachable_inv: "su_reachable c \<Longrightarrow> su_working c \<or> (\<exists>r. su_reported r c)"
proof (induction rule: su_reachable.induct)
  case (su_started env timeout)
  then show ?case using su_connect_idle [OF su_new_idle, of env timeout] by simp
qed (simp_all add: su_keepsD [OF su_keeps_steps(1)] su_keepsD [OF su_keeps_steps(2)] su_keepsD [OF su_keeps_steps(3)] su_keepsD [OF su_keeps_steps(4)])

definition su_pending :: "single_connector \<Rightarrow> bool" where
  "su_pending c \<longleftrightarrow> su_state c = SU_CONNECTING \<or> su_state c = SU_DISCONNECTING \<and> su_deferred_task c"

definition fb_pending :: "fb_connector \<Rightarrow> bool" where
  "fb_pending m \<longleftrightarrow>
     fi_delay_task (m_fallback m) \<noteq> None \<or> mi_result_task (m_main m) \<noteq> None \<or> fi_result_task (m_fallback m) \<noteq> None \<or>
     (\<exists>c. mi_connector (m_main m) = Some c \<and> su_pending c) \<or> (\<exists>c. fi_connector (m_fallback m) = Some c \<and> su_pending c)"

lemma in_progress_pending: "in_progress co task \<Longrightarrow> task \<noteq> None \<or> (\<exists>c. co = Some c \<and> su_pending c)"
  by (auto simp: in_progress_def su_working_def su_pending_def)

lemma fb_busy_pending: "fb_busy m \<Longrightarrow> fb_pending m"
  using in_progress_pending
  by (fastforce simp: fb_busy_def fb_pending_def main_running_def fallback_waiting_def fallback_running_def)

interpretation single: connector_contract su_reachable su_raised su_pending
proof unfold_locales
  fix c assume "su_reachable c"
  then have "su_working c \<or> (\<exists>r. su_reported r c)" by (rule su_reachable_inv)
  then show "(\<exists>r. su_raised c = [r]) \<and> \<not> su_pending c \<or> su_raised c = [] \<and> su_pending c"
    by (auto simp: su_working_def su_reported_def su_pending_def su_names)
qed

interpretation fallbackable: connector_contract fb_reachable fb_raised fb_pending
proof unfold_locales
  fix m assume "fb_reachable m"
  then have "fb_settled m \<or> fb_busy m" using fb_reachable_inv by (simp add: fb_inv_def)
  then show "(\<exists>r. fb_raised m = [r]) \<and> \<not> fb_pending m \<or> fb_raised m = [] \<and> fb_pending m"
  proof
    assume "fb_settled m"
    then show ?thesis by (auto simp: fb_settled_def fb_pending_def main_info_empty_def fallback_info_empty_def)
  next
    assume b: "fb_busy m"
    then show ?thesis using fb_busy_pending [OF b] by (simp add: fb_busy_def)
  qed
qed

section \<open>Properties\<close>

text \<open>
  C9: A connector with a fallback that was started always has something left to do, a session that is being
  opened, a task that is armed or a result that waits to be handled, until it reports; it reports one
  outcome, then both upstreams are released and every task is cancelled; and none of its assertions fails.
\<close>

theorem fallback_connector_settles:
  assumes "fb_reachable m"
  shows "fb_faults m = [] \<and>
    (fb_raised m = [] \<and> fb_pending m \<or>
     length (fb_raised m) = 1 \<and> \<not> fb_pending m \<and> mi_connector (m_main m) = None \<and> fi_connector (m_fallback m) = None)"
proof -
  have inv: "fb_inv m" by (rule fb_reachable_inv [OF assms])
  have "mi_connector (m_main m) = None \<and> fi_connector (m_fallback m) = None" if "fb_raised m \<noteq> []"
    using inv that by (auto simp: fb_inv_def fb_settled_def fb_busy_def main_info_empty_def fallback_info_empty_def)
  then show ?thesis using inv fallbackable.settles [OF assms] by (auto simp: fb_inv_def)
qed

text \<open>The main upstream fails, and the fallback, which is then started at once, opens its session.\<close>

definition sample_connectors :: connectors_env where
  "sample_connectors = \<lparr>main_env = \<lparr>up_init_ok = True, up_open_ok = True\<rparr>, fallback_env = \<lparr>up_init_ok = True, up_open_ok = True\<rparr>, fb_now = 0\<rparr>"

definition fallback_calls :: "fb_call list" where
  "fallback_calls = [FbMainEvent (SERVER_EVENT_ERROR NON_ID (VpnError 1 [])), FbMainDeferred, FbMainResult, FbDelayTask,
     FbFallbackEvent SERVER_EVENT_SESSION_OPENED, FbFallbackResult]"

fun fb_run :: "fb_call list \<Rightarrow> fb_connector \<Rightarrow> fb_connector" where
  "fb_run [] m = m"
| "fb_run (call # calls) m = fb_run calls (fb_step sample_connectors call m)"

fun fb_run_ok :: "fb_call list \<Rightarrow> fb_connector \<Rightarrow> bool" where
  "fb_run_ok [] m = True"
| "fb_run_ok (call # calls) m = (fb_call_ok call m \<and> fb_run_ok calls (fb_step sample_connectors call m))"

lemma fb_run_reachable: "fb_reachable m \<Longrightarrow> fb_run_ok calls m \<Longrightarrow> fb_reachable (fb_run calls m)"
  by (induction calls m rule: fb_run_ok.induct) (simp_all add: fb_called)

definition fallback_sample :: "nat \<Rightarrow> fb_connector" where
  "fallback_sample n = fb_run (take n fallback_calls) (fb_connect sample_connectors (Some 1000) (fb_new 100))"

lemma fallback_sample_reachable: "fb_reachable (fallback_sample 6)" "fb_reachable (fallback_sample 2)"
proof -
  have "fb_run_ok (take 6 fallback_calls) (fb_connect sample_connectors (Some 1000) (fb_new 100))"
    "fb_run_ok (take 2 fallback_calls) (fb_connect sample_connectors (Some 1000) (fb_new 100))" by code_simp+
  then show "fb_reachable (fallback_sample 6)" "fb_reachable (fallback_sample 2)"
    unfolding fallback_sample_def by (simp_all only: fb_run_reachable [OF fb_started])
qed

lemma fallback_sample_raised: "fb_raised (fallback_sample 6) = [ConnectorUpstream]" "fb_raised (fallback_sample 2) = []"
  by code_simp+

theorem fallback_connector_settles_witness:
  "fb_reachable (fallback_sample 2) \<and> fb_reachable (fallback_sample 6) \<and> fb_raised (fallback_sample 6) = [ConnectorUpstream] \<and>
   fb_pending (fallback_sample 2) \<and> \<not> fb_pending (fallback_sample 6)"
  using fallback_connector_settles [OF fallback_sample_reachable(1)] fallback_connector_settles [OF fallback_sample_reachable(2)]
    fallback_sample_reachable fallback_sample_raised by simp

text \<open>
  C40: A connector with a fallback reports an error only when both upstreams have failed: the result that is
  handled is the failure of one of them, and the other one had failed before. A success of either is
  reported as soon as it is handled.
\<close>

theorem fallback_error_after_both:
  assumes "fb_reachable m" and "fb_raised m = []"
  shows "(\<forall>e. fb_raised (fb_step env call m) = [ConnectorError e] \<longrightarrow>
      (call = FbMainResult \<and> mi_result_task (m_main m) = Some (ConnectorError e) \<and> fi_has_result (m_fallback m)) \<or>
      (call = FbFallbackResult \<and> fi_result_task (m_fallback m) = Some (ConnectorError e) \<and> mi_has_result (m_main m)) \<or>
      (call = FbDelayTask \<and> mi_has_result (m_main m))) \<and>
    (mi_result_task (m_main m) = Some ConnectorUpstream \<longrightarrow> fb_raised (fb_step env FbMainResult m) = [ConnectorUpstream]) \<and>
    (fi_result_task (m_fallback m) = Some ConnectorUpstream \<longrightarrow> fb_raised (fb_step env FbFallbackResult m) = [ConnectorUpstream])"
proof -
  have err: "fb_raised (handle_connect_result b (ConnectorError x) env m') = fb_raised m' @ [ConnectorError x] \<and>
      (if b then fi_has_result (m_fallback m') else mi_has_result (m_main m')) \<or>
    fb_raised (handle_connect_result b (ConnectorError x) env m') = fb_raised m'" for b x m'
    by (simp add: handle_connect_result_def Let_def)
  have ok: "fb_raised (handle_connect_result b ConnectorUpstream env m) = [ConnectorUpstream]" for b
    using assms(2) by (simp add: handle_connect_result_def Let_def other_disconnect_frame)
  have delay: "mi_has_result (m_main m)" if "fb_raised (fb_run_delay_task env m) \<noteq> []"
  proof (rule ccontr)
    assume none: "\<not> mi_has_result (m_main m)"
    have "fb_raised (start_fallback_connection env m') = []" if "fb_raised m' = []" "\<not> mi_has_result (m_main m')" for m'
      using that err [where b = False] unfolding start_fallback_connection_def Let_def
      by (auto simp: fb_assert_def fb_null_def set_fallback_def handle_connect_result_def Let_def split: option.splits prod.splits)
    then show False using that none assms(2) by (simp add: fb_run_delay_task_def split: if_splits)
  qed
  have "(\<forall>e. fb_raised (fb_step env call m) = [ConnectorError e] \<longrightarrow>
      (call = FbMainResult \<and> mi_result_task (m_main m) = Some (ConnectorError e) \<and> fi_has_result (m_fallback m)) \<or>
      (call = FbFallbackResult \<and> fi_result_task (m_fallback m) = Some (ConnectorError e) \<and> mi_has_result (m_main m)) \<or>
      (call = FbDelayTask \<and> mi_has_result (m_main m)))"
  proof (cases call)
    case FbDelayTask
    then show ?thesis using delay by auto
  next
    case FbMainResult
    then show ?thesis
      using assms(2) ok [of True] err [of True _ m] by (auto simp: fb_run_main_result_def split: option.splits connector_outcome.splits)
        (metis connector_outcome.exhaust connector_outcome.inject connector_outcome.simps(3) list.inject append_Nil not_Cons_self2)+
  next
    case FbFallbackResult
    then show ?thesis
      using assms(2) ok [of False] err [of False _ m] by (auto simp: fb_run_fallback_result_def split: option.splits connector_outcome.splits)
        (metis connector_outcome.exhaust connector_outcome.inject connector_outcome.simps(3) list.inject append_Nil not_Cons_self2)+
  qed (use assms(2) in \<open>simp_all add: step_raised\<close>)
  then show ?thesis using ok by (simp add: fb_run_main_result_def fb_run_fallback_result_def)
qed

definition failing_calls :: "fb_call list" where
  "failing_calls = [FbMainEvent (SERVER_EVENT_ERROR NON_ID (VpnError 1 [])), FbMainDeferred, FbMainResult, FbDelayTask,
     FbFallbackEvent (SERVER_EVENT_ERROR NON_ID (VpnError 2 [])), FbFallbackDeferred]"

definition failing_sample :: fb_connector where
  "failing_sample = fb_run failing_calls (fb_connect sample_connectors (Some 1000) (fb_new 100))"

lemma failing_sample_facts:
  "fb_raised failing_sample = []" "fb_raised (fb_step sample_connectors FbFallbackResult failing_sample) = [ConnectorError (VpnError 2 [])]"
  by code_simp+

lemma failing_sample_reachable: "fb_reachable failing_sample"
proof -
  have "fb_run_ok failing_calls (fb_connect sample_connectors (Some 1000) (fb_new 100))" by code_simp
  then show ?thesis unfolding failing_sample_def by (rule fb_run_reachable [OF fb_started])
qed

theorem fallback_error_after_both_witness:
  "fb_reachable failing_sample \<and> fb_raised failing_sample = [] \<and>
   fb_raised (fb_step sample_connectors FbFallbackResult failing_sample) = [ConnectorError (VpnError 2 [])] \<and>
   mi_has_result (m_main failing_sample)"
  using fallback_error_after_both [OF failing_sample_reachable failing_sample_facts(1), of sample_connectors FbFallbackResult]
    failing_sample_reachable failing_sample_facts by auto

lemma fallback_timeout_within:
  assumes "m_connect_timeout m = Some t" and "0 \<le> t" and "mi_start_ts (m_main m) \<le> fb_now env"
  shows "\<exists>t'. fallback_timeout env m = Some t' \<and> trunc_div t 10 \<le> t' \<and> t' \<le> t"
proof -
  have "0 \<le> duration_cast_millis (fb_now env - mi_start_ts (m_main m))" using assms(3) by (simp add: duration_cast_millis_nonneg)
  moreover have "trunc_div t 10 \<le> t"
    using assms(2) zdiv_mono2 [of t 1 10] by (cases "t = 0") (simp_all add: trunc_div_def)
  ultimately show ?thesis using assms(1) by (simp add: fallback_timeout_def)
qed

text \<open>A connector that is interrupted does nothing more and reports nothing.\<close>

lemma su_stopped: "su_working c \<or> su_reported r c \<Longrightarrow> \<not> su_pending (su_disconnect env c)"
  using su_disconnect_quiet [of c r env] by (simp add: su_pending_def su_names)

lemma main_step_disconnect:
  "su_working c \<or> su_reported r c \<Longrightarrow> mi_connector (m_main m) = Some c \<Longrightarrow> main_step (su_disconnect env) m = set_main (su_disconnect env c) m"
  using su_disconnect_quiet [of c r env] by (simp add: main_step_def)

lemma fallback_step_disconnect:
  "su_working c \<or> su_reported r c \<Longrightarrow> fi_connector (m_fallback m) = Some c \<Longrightarrow>
     fallback_step (su_disconnect env) m = set_fallback (su_disconnect env c) m"
  using su_disconnect_quiet [of c r env] by (simp add: fallback_step_def)

lemma fb_disconnect_stops:
  assumes "fb_reachable m"
  shows "\<not> fb_pending (fb_disconnect env m) \<and> fb_raised (fb_disconnect env m) = fb_raised m \<and> fb_faults (fb_disconnect env m) = []"
proof -
  have inv: "fb_inv m" by (rule fb_reachable_inv [OF assms])
  define m1 where "m1 = (if fb_live_main m then main_step (su_disconnect (main_env env)) m else m)"
  define m2 where "m2 = m1\<lparr>m_main := (m_main m1)\<lparr>mi_result_task := None\<rparr>\<rparr>"
  define m3 where "m3 = (if fb_live_fallback m2 then fallback_step (su_disconnect (fallback_env env)) m2 else m2)"
  have new: "\<not> su_pending su_new" using su_new_idle by (simp add: su_idle_def su_pending_def su_names)
  consider "mi_connector (m_main m) = None"
    | c r where "mi_connector (m_main m) = Some c" "\<not> mi_has_result (m_main m)" "su_working c \<or> su_reported r c"
    using inv by (auto simp: fb_inv_def fb_busy_def fb_settled_def main_running_def main_failed_def main_info_empty_def in_progress_def)
  then have m1: "m_fallback m1 = m_fallback m \<and> fb_raised m1 = fb_raised m \<and> fb_faults m1 = fb_faults m \<and>
      (\<forall>c. mi_connector (m_main m1) = Some c \<longrightarrow> \<not> su_pending c)"
  proof cases
    case (2 c r)
    then show ?thesis by (simp add: m1_def fb_live_main_def main_step_disconnect [OF 2(3)] set_main_def su_stopped [OF 2(3)])
  qed (simp add: m1_def fb_live_main_def)
  consider "fi_connector (m_fallback m) = None" | "fi_connector (m_fallback m) = Some su_new" "\<not> fi_tried (m_fallback m)"
    | c r where "fi_connector (m_fallback m) = Some c" "fi_tried (m_fallback m)" "\<not> fi_has_result (m_fallback m)" "su_working c \<or> su_reported r c"
    using inv by (auto simp: fb_inv_def fb_busy_def fb_settled_def fallback_waiting_def fallback_running_def fallback_failed_def
        fallback_info_empty_def in_progress_def)
  then have m3: "m_main m3 = m_main m2 \<and> fb_raised m3 = fb_raised m2 \<and> fb_faults m3 = fb_faults m2 \<and>
      (\<forall>c. fi_connector (m_fallback m3) = Some c \<longrightarrow> \<not> su_pending c)"
  proof cases
    case (3 c r)
    then show ?thesis
      using m1 by (simp add: m3_def m2_def fb_live_fallback_def fallback_step_disconnect [OF 3(4)] set_fallback_def su_stopped [OF 3(4)])
  qed (use m1 new in \<open>simp_all add: m3_def m2_def fb_live_fallback_def\<close>)
  have "fb_disconnect env m = m3\<lparr>m_fallback := (m_fallback m3)\<lparr>fi_delay_task := None, fi_result_task := None\<rparr>\<rparr>"
    unfolding fb_disconnect_def Let_def m3_def m2_def m1_def by (rule refl)
  then show ?thesis using m1 m3 inv by (simp add: fb_pending_def m2_def fb_inv_def)
qed

end
