(* ===== verification/Spec2Isabelle.thy ===== *)
theory Spec2Isabelle
  imports TT_Vpn_System TT_Udp_Multiplexer TT_Tunnel_Behaviour TT_Upstream_Multiplexer TT_Connectors
begin

text \<open>
  Verification library of the TrustTunnel client (\<open>src/core\<close>, \<open>src/common\<close>, \<open>src/net\<close>): a VPN client
  that takes connections from a SOCKS or TUN listener and carries them through an endpoint, or past it.

  \<^bold>\<open>The program and its parts.\<close> The application calls \<open>vpn_manager.cpp\<close>, whose session machine
  (\<open>vpn_fsm.cpp\<close>) pings the endpoints, connects, recovers and postpones requests. The session drives the
  client (\<open>vpn_client.cpp\<close>), a second machine over the same engine (\<open>common/src/fsm.cpp\<close>); the client
  gets an upstream from an endpoint connector (\<open>single_upstream_connector.cpp\<close>,
  \<open>fallbackable_upstream_connector.cpp\<close>) and gives it to the tunnel. The tunnel (\<open>tunnel.cpp\<close>) has
  the connections: it asks the domain filter (\<open>domain_filter.cpp\<close>) where each one goes, opens it on an
  upstream and moves the data. An upstream is a pool of sessions (\<open>upstream_multiplexer.cpp\<close>) that packs
  datagrams (\<open>http_udp_multiplexer.cpp\<close>) and echo requests (\<open>http_icmp_multiplexer.cpp\<close>,
  \<open>icmp_manager.cpp\<close>) into streams.

  \<^bold>\<open>Theories and sources.\<close>
  \<^item> \<open>TT_Prelude\<close>: widths, time, addresses, lemmas on lists and words, the locale \<open>request_tracker\<close>
    (every request that is accepted is answered once) and its run lemmas.
  \<^item> \<open>TT_Fsm\<close>: the table-driven machine and its validation; the locales \<open>fsm_invariant\<close> and
    \<open>fsm_frame\<close> turn a fact of every row of a table into a fact of every transition.
  \<^item> \<open>TT_Vpn_Types\<close>: structures, enumerations, defaults and validation of \<open>vpn.h\<close> and \<open>utils.h\<close>.
  \<^item> \<open>TT_Vpn_Client\<close>: \<open>VpnClient\<close>, its transition table (\<open>client_table\<close>), \<open>listen\<close>, the handlers
    and the deferred tasks. Calls into the tunnel and into the upstream are recorded as effects.
  \<^item> \<open>TT_Vpn_Fsm\<close>: the session: transition table (\<open>vpn_table\<close>), conditions and actions, recovery
    times, postponed and bypassed requests.
  \<^item> \<open>TT_Vpn_Invariant\<close>, \<open>TT_Vpn_Manager\<close>, \<open>TT_Vpn_System\<close>: the invariants of a transition; the
    operations of the application and the callbacks of pinger, client, timers and event loop; the
    states that any interleaving of them reaches (\<open>vpn_reachable\<close>).
  \<^item> \<open>TT_Connectors\<close>: the two endpoint connectors, the second over the first; the locale
    \<open>connector_contract\<close> is what the client relies on, interpreted for both.
  \<^item> \<open>TT_Tunnel\<close>: \<open>Tunnel\<close> and \<open>VpnConnection\<close>: all operations and both event handlers, over a store
    of connections with addresses, as the code shares pointers between two tables. Use of a deleted
    connection is recorded in \<open>tn_dangling\<close>, a failed assertion in \<open>tn_faults\<close>, a call of a listener,
    an upstream or the resolver in \<open>tn_out\<close>. \<open>tunnel_env\<close> has the answers of these parts, and the
    events that they raise before a call returns.
  \<^item> \<open>TT_Tunnel_Safety\<close>, \<open>TT_Tunnel_Reachable\<close>, \<open>TT_Tunnel_Behaviour\<close>: the invariant of the store, one
    lemma per operation; the states that any sequence of events, tasks and calls reaches
    (\<open>tunnel_reachable\<close>); order of the data, end of a session, migration, unhandled failures.
  \<^item> \<open>TT_Port_Ranges\<close>: the ports scanned for domain names (\<open>core/src/utils.cpp\<close>).
  \<^item> \<open>TT_Domain_Filter\<close>: exclusion lists, domain and address matching, against a policy over the
    entries of the list.
  \<^item> \<open>TT_Wire_Utils\<close>, \<open>TT_Udp_Multiplexer\<close>, \<open>TT_Icmp\<close>: readers and writers, datagrams and echo messages
    in a stream; the locale \<open>chunked_reader\<close> makes a reader independent of how the stream is cut.
  \<^item> \<open>TT_Upstream_Multiplexer\<close>: the pool of upstreams, over any child upstream.
  \<^item> this theory: the properties of the session, which span manager, session and client.

  \<^bold>\<open>Correspondence.\<close> A structure is a record with the fields of the source, an enumeration a datatype (or
  numbers where the machine stores them), a method a function on the record that returns the new one. A
  callback that is raised, a call of a part outside the model and a log-relevant effect are appended to a
  list in the record. A failed assertion or a null pointer is a \<open>fault\<close> and the function goes on as the
  release build does. A task of the event loop is a flag or a list entry, and running it is a step of its
  own. \<open>std::unordered_map\<close> is an association list: its iteration order is the order of the list. Integers
  that may wrap (\<open>size_t\<close>, \<open>uint32_t\<close>, identifiers, ports, lengths on the wire) are words.

  \<^bold>\<open>What the lemmas show.\<close> The session never loses its next step, agrees with its client, keeps its kill
  switch and its bounds, settles its requests, and reports as documented, apart from the cases that are
  stated as such. A connector reports once and always has a next step before. The tunnel has no dangling
  pointer and no leak in any state, keeps the bytes of a client in order, drops exactly the clients of a
  session that ended, moves the client of a migrated connection. The filter follows the policy of the
  list. The multiplexers deliver what was sent however the stream is cut, stay consistent, answer each
  request once. Every property with hypotheses has a witness on a concrete state, most of them reached
  by a run that is evaluated.

  \<^bold>\<open>Bounds and fuel.\<close> No definition uses fuel: every loop is a recursion that is structural or has a
  termination proof, the readers of the streams by the bytes that are left, the matching of a domain by
  the length of its name, the loop of the upstream multiplexer that closes its children by the size of the
  pool. Time is an integer in nanoseconds, as \<open>steady_clock\<close>; its range of 64 bits, about 292 years, is
  not modelled. The numbers of attempts are words, since one of them does wrap.

  \<^bold>\<open>Assumptions.\<close> All code of a component runs on one thread, the event loop's. Parts outside the model are
  arguments: their answers are arbitrary unless a definition says otherwise, and the named conditions
  \<open>rejects_marks\<close>, \<open>sends_within\<close>, \<open>fresh_server_ids\<close>, \<open>fresh_client_id\<close>, \<open>source_attached\<close>,
  \<open>awaits_action\<close>, \<open>session_event\<close> and \<open>child_lists_match\<close> say what is relied on where. Memory
  allocation does not fail.

  \<^bold>\<open>Not modelled.\<close> The HTTP/2 and HTTP/3 upstreams, TLS and QUIC, which are code over nghttp2, nghttp3,
  quiche and BoringSSL, none of them in the sources; the direct and fake upstreams, sockets, listeners and
  operating-system tunnels, which are input and output; the TCP/IP glue and lwIP; DNS handling, which calls
  an external library for every message; the domain extractor, whose parsers belong to the network layer;
  data buffers and counters; the pingers, whose results the session takes as events in any order; event
  loop and platform wrappers; the command-line client, the Windows service and the graphical client, which
  are separate programs over the library. Their effect on the modelled parts is an argument or an event.
\<close>


section \<open>Sample runs\<close>

text \<open>
  The witnesses of the properties about reachable states are states of one run: the application
  connects, a ping succeeds, the connector hands its upstream over, the session opens, and then the
  endpoint resets it.
\<close>

definition sample_env :: vpn_env where
  "sample_env =
     \<lparr>now = 1000000, cenv = \<lparr>connector_result = no_error, bypass_session_started = True,
        listener_init = INIT_SUCCESS, rand_bytes_ok = True, dns_listener_init_ok = True,
        dns_handler_params_ok = True, dns_resolve_started = True\<rparr>,
      should_complete_immediately = (\<lambda>_. False), finalize_connect_action = action,
      loop_created = True, loop_started = True\<rparr>"

definition sample_endpoint :: vpn_endpoint where
  "sample_endpoint = \<lparr>ep_address = SA_V4 [1, 2, 3, 4] 443, ep_name = Some ''a.example'', remote_id = None,
     ep_additional_data = [], ep_tls_client_random = [], ep_tls_client_random_mask = [], has_ipv6 = False,
     preferred_protocol = VPN_UP_HTTP2\<rparr>"

definition sample_config :: vpn_upstream_config where
  "sample_config = empty_config\<lparr>location := (location empty_config)\<lparr>endpoints := [sample_endpoint]\<rparr>,
     username := Some ''u'', password := Some ''p''\<rparr>"

definition sample_labels :: "vpn_label list" where
  "sample_labels =
     [ApiConnect sample_config (VPN_CRP_SEVERAL_ATTEMPTS 1), RunTask,
      PingResult \<lparr>ping_ms = 20, result_endpoint = sample_endpoint, result_relay = None, is_quic = False\<rparr>,
      ConnectorReport ConnectorUpstream, ClientTask ConnectorFinalizer,
      UpstreamEvent (SERVER_EVENT_ERROR NON_ID (VpnError VPN_EC_ERROR ''reset'')),
      ClientTask DeferredDisconnect]"

definition sample_vpn :: "nat \<Rightarrow> vpn" where
  "sample_vpn n = the (vpn_run (map (Pair sample_env) (take n sample_labels)) (vpn_open True VPN_MODE_GENERAL False))"

definition sample_facts :: "vpn \<Rightarrow> _" where
  "sample_facts v = (session_state v, rtask (recovery v), pinger v, endpoint_connector (client v),
     client_state_of (client v), client_state v, kill_switch_on (client v), m_recursive (vpn_fsm v), ev_loop v,
     pending_error v, connect_retry_info v)"

lemma sample_run_2:
  "map_option sample_facts (vpn_run (map (Pair sample_env) (take 2 sample_labels)) (vpn_open True VPN_MODE_GENERAL False)) =
     Some (VPN_SS_CONNECTING, False, PingerRunning, False, S_DISCONNECTED, CLIS_DISCONNECTED, True, False, LoopRunning,
       None, ConnectSeveralAttempts 0)"
  by code_simp

lemma sample_run_5:
  "map_option sample_facts (vpn_run (map (Pair sample_env) (take 5 sample_labels)) (vpn_open True VPN_MODE_GENERAL False)) =
     Some (VPN_SS_CONNECTED, False, PingerReported, False, S_CONNECTED, CLIS_CONNECTED, True, False, LoopRunning,
       None, ConnectSeveralAttempts 0)"
  by code_simp

lemma sample_run_7:
  "map_option sample_facts (vpn_run (map (Pair sample_env) (take 7 sample_labels)) (vpn_open True VPN_MODE_GENERAL False)) =
     Some (VPN_SS_WAITING_RECOVERY, True, PingerNone, False, S_DISCONNECTED, CLIS_DISCONNECTED, True, False, LoopRunning,
       None, ConnectSeveralAttempts 0)"
  by code_simp

lemma sample_vpnI:
  assumes "map_option sample_facts
      (vpn_run (map (Pair sample_env) (take n sample_labels)) (vpn_open True VPN_MODE_GENERAL False)) = Some x"
  shows "vpn_reachable (vpn_open True VPN_MODE_GENERAL False) (sample_vpn n)" and "sample_facts (sample_vpn n) = x"
  using assms vpn_run_reachable [OF vpn_reachable.start] by (auto simp: sample_vpn_def)

lemmas sample_states = sample_vpnI [OF sample_run_2] sample_vpnI [OF sample_run_5] sample_vpnI [OF sample_run_7]

section \<open>Properties of the VPN session\<close>

lemma sys_invD:
  assumes "sys_inv v"
  shows "session_state v = VPN_SS_CONNECTED \<Longrightarrow> client_state v = CLIS_CONNECTED"
    and "client_state v = CLIS_DISCONNECTED \<longleftrightarrow> client_state_of (client v) = S_DISCONNECTED"
    and "session_state v = VPN_SS_DISCONNECTED \<Longrightarrow> rattempts (recovery v) = 0"
    and "rattempts (recovery v) \<le> rs_attempts (recovery_cfg (upstream_config v))"
    and "length (connect_tasks v) \<le> 1"
    and "connect_tasks v \<noteq> [] \<Longrightarrow> session_state v = VPN_SS_DISCONNECTED"
    and "session_state v \<in> vpn_states"
    and "session_state v = VPN_SS_CONNECTED \<Longrightarrow> client_state_of (client v) \<noteq> S_DISCONNECTED"
  using assms by (auto simp: sys_inv_def vpn_inv_def vpn_core_def)

text \<open>
  C1: a session is never stranded. In every state that the application, the event loop, the timers,
  the pinger, the connector and the upstreams can drive the VPN object into, a session that waits for
  recovery has its recovery timer armed or the closure queued that gives the recovery up, and a
  session that connects or recovers has a ping running, a connector at work, an open client session,
  or a task queued that will report the client's end or retry.
\<close>

theorem session_never_stranded:
  assumes "vpn_reachable (vpn_open k m tmp) v"
  shows "(session_state v = VPN_SS_WAITING_RECOVERY \<longrightarrow>
            rtask (recovery v) \<or> TaskFailedRecovery \<in> set (tasks v)) \<and>
         (session_state v \<in> {VPN_SS_CONNECTING, VPN_SS_RECOVERING} \<longrightarrow>
            pinger v = PingerRunning \<or> endpoint_connector (client v) \<or> client_state_of (client v) = S_CONNECTED \<or>
            DeferredDisconnect \<in> set (deferred_tasks (client v)) \<or>
            TaskClientDisconnected \<in> set (tasks v) \<or> TaskRetryConnect \<in> set (tasks v))"
proof -
  have vi: "vpn_inv (session_state v) (v\<lparr>ev_loop := LoopRunning\<rparr>)"
    using reachable_inv [OF assms] by (simp add: sys_inv_def)
  then have ci: "client_inv (client v)" and
    cs: "client_state v = CLIS_DISCONNECTED \<longleftrightarrow> client_state_of (client v) = S_DISCONNECTED"
    by (simp_all add: vpn_inv_def vpn_core_def)
  have "client_state_of (client v) \<noteq> S_DISCONNECTED \<Longrightarrow>
      endpoint_connector (client v) \<or> client_state_of (client v) = S_CONNECTED \<or>
      DeferredDisconnect \<in> set (deferred_tasks (client v))"
    using ci by (auto simp: client_inv_def client_states_def)
  then show ?thesis
    using vi cs unfolding vpn_inv_def recovery_armed_def wake_pending_def by auto
qed

theorem session_never_stranded_witness:
  "session_state (sample_vpn 7) = VPN_SS_WAITING_RECOVERY \<and>
   (rtask (recovery (sample_vpn 7)) \<or> TaskFailedRecovery \<in> set (tasks (sample_vpn 7)))"
  using session_never_stranded [OF sample_states(5)] sample_states(6) by (simp add: sample_facts_def)

text \<open>
  C2: what the application is told agrees with the client. In every reachable state a connected
  session has a connected client object, an endpoint session that exists is always backed by an
  upstream, the endpoint connector exists exactly while the client connects, and the closure that
  starts a connection is queued at most once and only while the session is disconnected.
\<close>

theorem session_agrees_with_client:
  assumes "vpn_reachable (vpn_open k m tmp) v"
  shows "(session_state v = VPN_SS_CONNECTED \<longrightarrow>
            client_state v = CLIS_CONNECTED \<and> client_state_of (client v) \<noteq> S_DISCONNECTED) \<and>
         (client_state_of (client v) = S_CONNECTED \<longrightarrow> endpoint_upstream (client v)) \<and>
         (endpoint_connector (client v) \<longleftrightarrow> client_state_of (client v) = S_CONNECTING) \<and>
         length (connect_tasks v) \<le> 1 \<and>
         (connect_tasks v \<noteq> [] \<longrightarrow> session_state v = VPN_SS_DISCONNECTED)"
  using sys_invD [OF reachable_inv [OF assms]] sys_inv_coreD(1) [OF reachable_inv [OF assms]]
  by (simp add: client_inv_def)

theorem session_agrees_with_client_witness:
  "session_state (sample_vpn 5) = VPN_SS_CONNECTED \<and> client_state (sample_vpn 5) = CLIS_CONNECTED \<and>
   endpoint_upstream (client (sample_vpn 5))"
  using session_agrees_with_client [OF sample_states(3)] sample_states(4) by (simp add: sample_facts_def)



text \<open>
  C4: recovery attempts are bounded. In every reachable state the number of recovery attempts made is
  at most the configured one, and it is zero in a disconnected session.
\<close>

theorem recovery_attempts_bounded:
  assumes "vpn_reachable (vpn_open k m tmp) v"
  shows "rattempts (recovery v) \<le> rs_attempts (recovery_cfg (upstream_config v)) \<and>
         (session_state v = VPN_SS_DISCONNECTED \<longrightarrow> rattempts (recovery v) = 0)"
  using sys_invD [OF reachable_inv [OF assms]] by simp

theorem recovery_attempts_bounded_witness:
  "rattempts (recovery (sample_vpn 7)) \<le> rs_attempts (recovery_cfg (upstream_config (sample_vpn 7)))"
  using recovery_attempts_bounded [OF sample_states(5)] by simp

text \<open>
  C10: a request that the application has completed goes, by the state of the session, to exactly one
  of four ends. It is completed with its own action if that is a forced bypass, if the session is
  connected, connecting, disconnected or without network, or if the tunnel asks for it; otherwise
  it is postponed while the postponement window is open, rejected if the kill switch is on, and
  else bypassed and remembered for a reset when the session is back.
\<close>

theorem complete_request_routing:
  assumes "\<not> m_recursive (vpn_fsm v)"
  shows "vpn_transition CE_COMPLETE_REQUEST env (VReq r) v =
    (if action r = Some VPN_CA_FORCE_BYPASS \<or>
        session_state v \<in> {VPN_SS_CONNECTED, VPN_SS_CONNECTING, VPN_SS_DISCONNECTED, VPN_SS_WAITING_FOR_NETWORK} \<or>
        should_complete_immediately env (req_id r)
     then v_client (client_complete_connect_request (req_id r) (action r)) v
     else if postponement_window_timer v then v\<lparr>postponed_requests := postponed_requests v @ [r]\<rparr>
     else if kill_switch_on (client v) then v_client (client_reject_connect_request (req_id r)) v
     else v_client (client_complete_connect_request (req_id r) (Some VPN_CA_FORCE_BYPASS))
            (v\<lparr>bypassed_connection_ids := bypassed_connection_ids v @ [req_id r]\<rparr>))"
proof -
  have f: "w\<lparr>vpn_fsm := \<lparr>m_current_state = session_state v, m_recursive = False\<rparr>\<rparr> = w"
    if "vpn_fsm w = vpn_fsm v" for w :: vpn
    using assms that by (cases "vpn_fsm v") (simp add: session_state_def get_state_def)
  show ?thesis
    unfolding vpn_transition_find [OF assms] rows_CE_COMPLETE_REQUEST
    by (auto simp: can_complete_def should_postpone_def is_kill_switch_on_def request_defs f)
qed

theorem complete_request_routing_witness:
  "vpn_transition CE_COMPLETE_REQUEST sample_env (VReq \<lparr>req_id = 7, action = Some VPN_CA_FORCE_REDIRECT, appname = [], uid = 0\<rparr>)
     (vpn_open True VPN_MODE_GENERAL False) =
   v_client (client_complete_connect_request 7 (Some VPN_CA_FORCE_REDIRECT)) (vpn_open True VPN_MODE_GENERAL False)"
  by (subst complete_request_routing)
     (simp_all add: vpn_open_def session_state_def get_state_def vpn_params_def fsm_init_def)

lemma expire_all_rejected:
  assumes "kill_switch_on (client v)"
  shows "fold expire_postponed rs v = v_client (fold (\<lambda>r. client_reject_connect_request (req_id r)) rs) v"
  using assms
proof (induction rs arbitrary: v)
  case (Cons r rs)
  have "kill_switch_on (client (expire_postponed r v))"
    using Cons.prems session_neutralD(4) [OF session_neutral_calls(3)] by (simp add: expire_postponed_def)
  from Cons.IH [OF this] show ?case
    using Cons.prems by (simp add: expire_postponed_def v_client_def)
qed (simp add: v_client_def)

lemma expire_all_bypassed:
  assumes "\<not> kill_switch_on (client v)"
  shows "fold expire_postponed rs v =
     (v_client (fold (\<lambda>r. client_complete_connect_request (req_id r) (Some VPN_CA_FORCE_BYPASS)) rs) v)
       \<lparr>bypassed_connection_ids := bypassed_connection_ids v @ map req_id rs\<rparr>"
  using assms
proof (induction rs arbitrary: v)
  case (Cons r rs)
  have "\<not> kill_switch_on (client (expire_postponed r v))"
    using Cons.prems session_neutralD(4) [OF session_neutral_calls(1)] by (simp add: expire_postponed_def)
  from Cons.IH [OF this] show ?case
    using Cons.prems by (simp add: expire_postponed_def v_client_def)
qed (simp add: v_client_def)


text \<open>
  C12: a successful recovery settles everything that was put off. The session becomes connected, every
  postponed request is completed with its own action, every connection bypassed in the meantime is
  reset, the recovery starts from nothing next time, and the application is told the endpoint.
\<close>

theorem recovery_settles_requests:
  assumes "\<not> m_recursive (vpn_fsm v)" and "session_state v = VPN_SS_RECOVERING"
  shows "let v' = vpn_transition CE_CLIENT_READY env VNull v in
     session_state v' = VPN_SS_CONNECTED \<and> postponed_requests v' = [] \<and> bypassed_connection_ids v' = [] \<and>
     \<not> postponement_window_timer v' \<and> recovery v' = fresh_recovery \<and> pinger v' = PingerNone \<and>
     client v' = fold client_reset_connection (bypassed_connection_ids v)
       (fold (\<lambda>r. client_complete_connect_request (req_id r) (action r)) (postponed_requests v)
         (client_update_bypass_ip_availability (client v))) \<and>
     last (out v') = StateChanged (location_id (location (upstream_config v))) VPN_SS_CONNECTED
       (ConnectedInfo (selected_endpoint v))"
  unfolding vpn_transition_find [OF assms(1)] rows_CE_CLIENT_READY assms(2)
  by (simp add: Let_def finalize_recovery_def raise_state_def complete_postponed_requests_def
      reset_bypassed_connections_def v_emit_def v_fault_def v_client_def stop_pinging_def)

theorem recovery_settles_requests_witness:
  "let v = (vpn_open False VPN_MODE_GENERAL False)
       \<lparr>vpn_fsm := \<lparr>m_current_state = VPN_SS_RECOVERING, m_recursive = False\<rparr>, bypassed_connection_ids := [3, 4]\<rparr>
   in client (vpn_transition CE_CLIENT_READY sample_env VNull v) =
      client_reset_connection 4 (client_reset_connection 3 (client_update_bypass_ip_availability (client v)))"
  using recovery_settles_requests [of "(vpn_open False VPN_MODE_GENERAL False)
       \<lparr>vpn_fsm := \<lparr>m_current_state = VPN_SS_RECOVERING, m_recursive = False\<rparr>, bypassed_connection_ids := [3, 4]\<rparr>" sample_env]
  by (simp add: Let_def vpn_open_def session_state_def get_state_def)

definition lost_fatally :: "vpn \<Rightarrow> vpn_error \<Rightarrow> bool" where
  "lost_fatally v e \<longleftrightarrow> is_fatal_error_code (ec e) \<or> is_fatal_error_code (error_code_of (pending_error v))"

lemma disconnected_row:
  assumes "\<not> m_recursive (vpn_fsm v)"
    and "session_state v \<in> {VPN_SS_CONNECTED, VPN_SS_RECOVERING, VPN_SS_WAITING_FOR_NETWORK}"
  shows "vpn_transition CE_CLIENT_DISCONNECTED env (VErr e) v =
    (if lost_fatally v e
     then (raise_state VPN_SS_DISCONNECTED (do_disconnect (session_state v) v (env, VErr e)) (env, VErr e))
       \<lparr>vpn_fsm := \<lparr>m_current_state = VPN_SS_DISCONNECTED, m_recursive = False\<rparr>\<rparr>
     else (raise_state VPN_SS_WAITING_RECOVERY (prepare_for_recovery (session_state v) v (env, VErr e)) (env, VErr e))
       \<lparr>vpn_fsm := \<lparr>m_current_state = VPN_SS_WAITING_RECOVERY, m_recursive = False\<rparr>\<rparr>)"
  unfolding vpn_transition_find [OF assms(1)] rows_CE_CLIENT_DISCONNECTED
  using assms(2) by (auto simp: is_fatal_error_def lost_fatally_def as_error_def)

text \<open>
  C13: losing the endpoint, as \<open>vpn.h\<close> documents it. A connected, recovering or networkless session
  that loses the client's session disconnects if the error is fatal; otherwise it waits for
  recovery with the recovery armed, the client disconnected and no ping running, and the
  application is told the error that caused it.
\<close>

theorem endpoint_lost:
  assumes "\<not> m_recursive (vpn_fsm v)" and "ev_loop v = LoopRunning" and "pending_error v = None"
    and "session_state v \<in> {VPN_SS_CONNECTED, VPN_SS_RECOVERING, VPN_SS_WAITING_FOR_NETWORK}"
    and "ec e \<noteq> VPN_EC_NOERROR"
  shows "let v' = vpn_transition CE_CLIENT_DISCONNECTED env (VErr e) v in
    client_state v' = CLIS_DISCONNECTED \<and> pinger v' = PingerNone \<and> pending_error v' = None \<and>
    (if is_fatal_error_code (ec e)
     then session_state v' = VPN_SS_DISCONNECTED \<and> recovery v' = fresh_recovery
     else session_state v' = VPN_SS_WAITING_RECOVERY \<and> recovery_armed v' \<and>
          last (out v') = StateChanged (location_id (location (upstream_config v))) VPN_SS_WAITING_RECOVERY
            (WaitingRecoveryInfo e (word_of_int (to_next (rtime (recovery v'))))))"
proof -
  have nf: "lost_fatally v e \<longleftrightarrow> is_fatal_error_code (ec e)"
    using assms(3) by (simp add: lost_fatally_def error_code_of_def is_fatal_error_code_def ec_defs)
  have t: "take_error (VErr e) (initiate_recovery env (disconnect env v)) = Some e"
    using assms(3,5) by (simp add: take_error_def as_error_def)
  have armed: "recovery_armed (initiate_recovery env (disconnect env v))"
    using assms(2) by (intro initiate_recovery_armed) simp
  show ?thesis
    unfolding disconnected_row [OF assms(1,4)] Let_def nf
    using assms(3) t armed
    by (simp add: do_disconnect_def prepare_for_recovery_def Let_def raise_state_def recovery_armed_def v_emit_def)
qed

theorem endpoint_lost_witness:
  "session_state (vpn_transition CE_CLIENT_DISCONNECTED sample_env (VErr (VpnError VPN_EC_AUTH_REQUIRED []))
     ((vpn_open False VPN_MODE_GENERAL False)
        \<lparr>vpn_fsm := \<lparr>m_current_state = VPN_SS_CONNECTED, m_recursive = False\<rparr>, ev_loop := LoopRunning\<rparr>)) =
   VPN_SS_DISCONNECTED"
  using endpoint_lost [of "(vpn_open False VPN_MODE_GENERAL False)
        \<lparr>vpn_fsm := \<lparr>m_current_state = VPN_SS_CONNECTED, m_recursive = False\<rparr>, ev_loop := LoopRunning\<rparr>"
      "VpnError VPN_EC_AUTH_REQUIRED []" sample_env]
  by (simp add: Let_def vpn_open_def session_state_def get_state_def is_fatal_error_code_def ec_defs)

text \<open>
  C14: the error of a fatal loss does not reach the application. When a connected, recovering or
  networkless session is disconnected by a fatal error that the client reports, the event about the
  state carries no error.
\<close>

theorem fatal_loss_unreported:
  assumes "\<not> m_recursive (vpn_fsm v)" and "pending_error v = None"
    and "session_state v \<in> {VPN_SS_CONNECTED, VPN_SS_RECOVERING, VPN_SS_WAITING_FOR_NETWORK}"
    and "is_fatal_error_code (ec e)"
  shows "last (out (vpn_transition CE_CLIENT_DISCONNECTED env (VErr e) v)) =
    StateChanged (location_id (location (upstream_config v))) VPN_SS_DISCONNECTED (ErrorInfo no_error)"
  unfolding disconnected_row [OF assms(1,3)] using assms(2,4)
  by (simp add: do_disconnect_def Let_def raise_state_def v_emit_def lost_fatally_def)

theorem fatal_loss_unreported_witness:
  "last (out (vpn_transition CE_CLIENT_DISCONNECTED sample_env (VErr (VpnError VPN_EC_AUTH_REQUIRED []))
     ((vpn_open False VPN_MODE_GENERAL False)\<lparr>vpn_fsm := \<lparr>m_current_state = VPN_SS_CONNECTED, m_recursive = False\<rparr>\<rparr>))) =
   StateChanged None VPN_SS_DISCONNECTED (ErrorInfo no_error)"
  by (subst fatal_loss_unreported)
     (simp_all add: vpn_open_def session_state_def get_state_def is_fatal_error_code_def empty_config_def)

text \<open>
  C15: the attempts of the initial connection. A connecting session whose ping or client fails with an
  error that is not fatal uses up one of the attempts that are left, disconnects the client and
  queues a retry; when none is left, it disconnects and tells the application that the number of
  attempts was exceeded.
\<close>

theorem connect_attempt_failed:
  assumes "\<not> m_recursive (vpn_fsm v)" and "ev_loop v = LoopRunning" and "pending_error v = None"
    and "session_state v = VPN_SS_CONNECTING" and "connect_retry_info v = ConnectSeveralAttempts n"
    and "ec e \<noteq> VPN_EC_NOERROR" and "\<not> is_fatal_error_code (ec e)"
    and "ev \<in> {CE_PING_FAIL, CE_CLIENT_DISCONNECTED}"
  shows "let v' = vpn_transition ev env (VErr e) v in
    client_state v' = CLIS_DISCONNECTED \<and> pinger v' = PingerNone \<and>
    (if n = 0
     then session_state v' = VPN_SS_DISCONNECTED \<and> recovery v' = fresh_recovery \<and>
          last (out v') = StateChanged (location_id (location (upstream_config v))) VPN_SS_DISCONNECTED
            (ErrorInfo (VpnError VPN_EC_INITIAL_CONNECT_FAILED ''Number of connection attempts exceeded''))
     else session_state v' = VPN_SS_CONNECTING \<and> connect_retry_info v' = ConnectSeveralAttempts (n - 1) \<and>
          tasks v' = tasks v @ [TaskRetryConnect])"
proof -
  have nf: "\<not> is_fatal_error st w (env, VErr e)" if "pending_error w = None \<or> pending_error w = Some e" for st w
    using assms(7) that
    by (auto simp: is_fatal_error_def as_error_def error_code_of_def is_fatal_error_code_def ec_defs)
  have row: "vpn_transition ev env (VErr e) v =
    (if n = 0
     then (raise_state VPN_SS_DISCONNECTED (complete_connect VPN_SS_CONNECTING v (env, VErr e)) (env, VErr e))
       \<lparr>vpn_fsm := \<lparr>m_current_state = VPN_SS_DISCONNECTED, m_recursive = False\<rparr>\<rparr>
     else (retry_connect VPN_SS_CONNECTING v (env, VErr e))
       \<lparr>vpn_fsm := \<lparr>m_current_state = VPN_SS_CONNECTING, m_recursive = False\<rparr>\<rparr>)"
    unfolding vpn_transition_find [OF assms(1)] assms(4)
    using assms(8,3,5) by (elim insertE emptyE)
      (simp_all add: rows_CE_PING_FAIL rows_CE_CLIENT_DISCONNECTED nf fall_into_recovery_def no_connect_attempts_def)
  have t: "take_error (VErr e) v = Some e" using assms(3,6) by (simp add: take_error_def as_error_def)
  show ?thesis
    unfolding row Let_def using assms(2,5) t nf
    by (simp add: complete_connect_def retry_connect_def raise_state_def v_emit_def no_connect_attempts_def)
qed

theorem connect_attempt_failed_witness:
  "session_state (vpn_transition CE_PING_FAIL sample_env (VErr (VpnError VPN_EC_ERROR []))
     ((vpn_open False VPN_MODE_GENERAL False)
        \<lparr>vpn_fsm := \<lparr>m_current_state = VPN_SS_CONNECTING, m_recursive = False\<rparr>, ev_loop := LoopRunning,
         connect_retry_info := ConnectSeveralAttempts 0\<rparr>)) =
   VPN_SS_DISCONNECTED"
  using connect_attempt_failed [of "(vpn_open False VPN_MODE_GENERAL False)
        \<lparr>vpn_fsm := \<lparr>m_current_state = VPN_SS_CONNECTING, m_recursive = False\<rparr>, ev_loop := LoopRunning,
         connect_retry_info := ConnectSeveralAttempts 0\<rparr>" 0 "VpnError VPN_EC_ERROR []" CE_PING_FAIL sample_env]
  by (simp add: Let_def vpn_open_def session_state_def get_state_def is_fatal_error_code_def ec_defs)

text \<open>
  C16: shutting down. In every reachable state with the loop running, the shutdown event leaves a
  disconnected session, a disconnected client, no ping and no recovery.
\<close>

theorem shutdown_disconnects:
  assumes "vpn_reachable (vpn_open k m tmp) v" and "ev_loop v = LoopRunning"
  shows "let v' = vpn_transition CE_SHUTDOWN env VNull v in
    session_state v' = VPN_SS_DISCONNECTED \<and> client_state v' = CLIS_DISCONNECTED \<and>
    client_state_of (client v') = S_DISCONNECTED \<and> pinger v' = PingerNone \<and> recovery v' = fresh_recovery"
proof -
  note c = sys_inv_coreD [OF reachable_inv [OF assms(1)]]
  have "client_state_of (client_disconnect (cenv env) (client v)) = S_DISCONNECTED"
    using client_disconnect_state(1) client_inv_ready [OF c(1)] .
  then show ?thesis
    using sys_invD(2) [OF reachable_inv [OF assms(1)]]
    unfolding vpn_transition_find [OF c(3)] rows_CE_SHUTDOWN
    by (auto simp: Let_def do_disconnect_def raise_state_def v_emit_def)
qed

theorem shutdown_disconnects_witness:
  "session_state (sample_vpn 5) = VPN_SS_CONNECTED \<and>
   session_state (vpn_transition CE_SHUTDOWN sample_env VNull (sample_vpn 5)) = VPN_SS_DISCONNECTED"
  using shutdown_disconnects [OF sample_states(3), of sample_env] sample_states(4) by (simp add: sample_facts_def Let_def)



lemma validate_endpoints_ok:
  "ec (validate_endpoints n eps) = VPN_EC_NOERROR \<longleftrightarrow>
     (\<forall>ep \<in> set eps. ep_name ep \<noteq> None \<and> (1 < n \<longrightarrow> ep_address ep \<noteq> SA_Unspec) \<and>
        (ep_address ep \<noteq> SA_Unspec \<longrightarrow> 0 < sa_port (ep_address ep)))"
proof (induction eps)
  case (Cons ep eps)
  have f: "sa_family (ep_address ep) = AF_UNSPEC \<longleftrightarrow> ep_address ep = SA_Unspec" by (cases "ep_address ep") auto
  show ?case using Cons f by (auto simp: check_address_def ec_defs)
qed (simp add: no_error_def)

lemma validate_endpoints_codes: "ec (validate_endpoints n eps) \<in> {VPN_EC_NOERROR, VPN_EC_INVALID_SETTINGS}"
  by (induction eps) (simp_all add: no_error_def)



text \<open>
  the two transition tables are well formed: in the order of the table no row stands behind a
  row for the same state and event that has no condition, and no row names a state it must not.
\<close>

theorem transition_tables_valid:
  "validate_transition_table vpn_table \<and> validate_transition_table client_table"
  by code_simp

text \<open>
  the timing of recovery. For settings as \<open>update_upstream_config\<close> makes them, an attempt is
  scheduled after at most the current interval; the interval of the attempt after it is never
  shorter, unless the recovery has lasted for the location update period, in which case the times
  start afresh; and the start of the recovery is not moved.
\<close>

theorem recovery_interval_grows:
  assumes "config_ok cfg" and "1 \<le> between_attempts rt" and "between_attempts rt \<le> 2 ^ 24"
  shows "let rt' = next_recovery_time t (recovery_cfg cfg) rt in
    0 \<le> to_next rt' \<and> to_next rt' \<le> between_attempts rt \<and>
    (rt'\<lparr>to_next := 0\<rparr> = fresh_time \<or>
     between_attempts rt \<le> between_attempts rt' \<and>
     start_ts rt' = (if start_ts rt \<noteq> 0 then start_ts rt else t) \<and> attempt_start_ts rt' = attempt_start_ts rt)"
proof -
  have "between_attempts rt \<le> scale_millis (between_attempts rt) (backoff_rate (recovery_cfg cfg))"
    using assms by (intro scale_millis_ge) (simp_all add: config_ok_def)
  moreover have "0 \<le> recovery_elapsed t rt" by (simp add: recovery_elapsed_def)
  ultimately show ?thesis
    using assms(2) by (simp add: next_recovery_time_def recovery_time_to_next_def Let_def fresh_time_def)
qed

theorem recovery_interval_grows_witness:
  "to_next (next_recovery_time 5 (recovery_cfg (update_upstream_config empty_config)) fresh_time) \<le> 1000"
  using recovery_interval_grows [OF config_ok_update, of fresh_time 5 empty_config]
  by (simp add: fresh_time_def Let_def VPN_DEFAULT_INITIAL_RECOVERY_INTERVAL_MS_def)

lemma config_ok_update_id: "config_ok cfg \<Longrightarrow> update_upstream_config cfg = cfg"
  by (simp add: config_ok_def update_upstream_config_def Let_def min_absorb1)

lemma update_upstream_config_credentials:
  "username (update_upstream_config cfg) = username cfg" "password (update_upstream_config cfg) = password cfg"
  by (simp_all add: update_upstream_config_def Let_def)

text \<open>
  configuration defaults. Whatever the application passes, the configuration in use has non-zero
  timeouts, a health check that is not longer than the endpoint timeout, a backoff rate of at least
  one, a location update period and at least one recovery attempt; the location and the
  credentials are the application's, and using it again changes nothing.
\<close>

theorem update_upstream_config_normalises:
  "config_ok (update_upstream_config cfg) \<and>
   update_upstream_config (update_upstream_config cfg) = update_upstream_config cfg \<and>
   location (update_upstream_config cfg) = location cfg \<and>
   username (update_upstream_config cfg) = username cfg \<and> password (update_upstream_config cfg) = password cfg"
  using config_ok_update [of cfg] config_ok_update_id [OF config_ok_update] update_upstream_config_credentials [of cfg]
  by simp

interpretation settings: fsm_frame vpn_params "\<lambda>v :: vpn. upstream_config v = cfg" for cfg
proof
  fix e f st x and v :: vpn
  assume "e \<in> set (table vpn_params)" "before_transition e = Some f" "upstream_config v = cfg"
  with vpn_table_actions(1) [of e] show "upstream_config (f st v x) = cfg"
    by (auto simp: vpn_params_def request_defs split: vpn_data.split)
next
  fix e f st x and v :: vpn
  assume "e \<in> set (table vpn_params)" "after_transition e = Some f" "upstream_config v = cfg"
  with vpn_table_actions(2) [of e] show "upstream_config (f st v x) = cfg"
    by (auto simp: vpn_params_def)
qed

definition remaining_endpoints :: "vpn_endpoint \<Rightarrow> vpn \<Rightarrow> vpn_endpoint list" where
  "remaining_endpoints ep v = filter (\<lambda>x. vpn_endpoint_equals ep x = Some False) (endpoints (location (upstream_config v)))"

lemma swap_remove_endpoints:
  assumes "\<forall>x \<in> set (endpoints (location (upstream_config v))). vpn_endpoint_equals ep x \<noteq> None"
    and "swap_remove_if (endpoint_matches ep) (endpoints (location (upstream_config v))) = (n, eps)"
  shows "take n eps = remaining_endpoints ep v"
proof -
  have "x \<in> set (endpoints (location (upstream_config v))) \<Longrightarrow>
      (\<not> endpoint_matches ep x) = (vpn_endpoint_equals ep x = Some False)" for x
    using assms(1) by (cases "vpn_endpoint_equals ep x") (auto simp: endpoint_matches_def)
  then show ?thesis
    unfolding swap_remove_if_spec(1) [OF assms(2)] remaining_endpoints_def by (rule filter_cong [OF refl])
qed

lemma abandon_endpoint_eq:
  assumes "\<forall>x \<in> set (endpoints (location (upstream_config v))). vpn_endpoint_equals ep x \<noteq> None"
    and "case selected_endpoint v of Some (s, r) \<Rightarrow> vpn_endpoint_equals s ep = Some used | None \<Rightarrow> \<not> used"
  shows "abandon_endpoint env ep v =
    (let v1 = (if used then v\<lparr>selected_endpoint := None\<rparr> else v); rest = remaining_endpoints ep v in
     if \<forall>x \<in> set rest. sa_family (ep_address x) \<noteq> sa_family (ep_address ep)
     then vpn_transition CE_ABANDON_ENDPOINT env VNull
       (set_endpoints [] ((set_endpoints rest v1)\<lparr>pending_error := Some (exhausted_error (sa_family (ep_address ep)) rest)\<rparr>))
     else if \<not> used then set_endpoints rest v1
     else vpn_transition CE_ABANDON_ENDPOINT env VNull
       ((set_endpoints rest v1)\<lparr>pending_error := Some (VpnError VPN_EC_ERROR ''Current endpoint is abandoned''),
          ping_failure_induces_location_unavailable := True\<rparr>))"
proof -
  obtain n eps where sw: "swap_remove_if (endpoint_matches ep) (endpoints (location (upstream_config v))) = (n, eps)"
    by force
  have sel: "(case selected_endpoint v of None \<Rightarrow> False | Some (s, r) \<Rightarrow> vpn_endpoint_equals s ep = Some True) = used"
    "\<not> (case selected_endpoint v of Some (s, _) \<Rightarrow> vpn_endpoint_equals s ep = None | None \<Rightarrow> False)"
    using assms(2) by (auto split: option.splits)
  have up: "upstream_config (if used then v\<lparr>selected_endpoint := None\<rparr> else v) = upstream_config v" by simp
  have ok: "((case selected_endpoint v of Some (s, _) \<Rightarrow> vpn_endpoint_equals s ep = None | None \<Rightarrow> False) \<or>
      (\<exists>x \<in> set (endpoints (location (upstream_config v))). vpn_endpoint_equals ep x = None)) = False"
    using sel(2) assms(1) by blast
  show ?thesis
    unfolding abandon_endpoint_def ok if_False sel(1) Let_def up sw prod.case swap_remove_endpoints [OF assms(1) sw] ..
qed



text \<open>
  a session that is given up while it connects. Abandoning the endpoint in use with none of its
  family left disconnects a connecting session, but neither the client nor the pinger is stopped:
  what they do afterwards goes on in a disconnected session.
\<close>

theorem abandoned_while_connecting:
  assumes "\<not> m_recursive (vpn_fsm v)" and "session_state v = VPN_SS_CONNECTING"
    and "pending_error v = Some e" and "is_fatal_error_code (ec e)"
  shows "let v' = vpn_transition CE_ABANDON_ENDPOINT env VNull v in
    session_state v' = VPN_SS_DISCONNECTED \<and> client v' = client v \<and> client_state v' = client_state v \<and>
    pinger v' = pinger v"
proof -
  have "is_fatal_error st v x" for st x using assms(3,4) by (simp add: is_fatal_error_def error_code_of_def)
  then show ?thesis
    unfolding vpn_transition_find [OF assms(1)] rows_CE_ABANDON_ENDPOINT assms(2)
    using assms(3) by (simp add: Let_def complete_connect_def take_error_def as_error_def raise_state_def v_emit_def)
qed

theorem abandoned_while_connecting_witness:
  "pinger (vpn_transition CE_ABANDON_ENDPOINT sample_env VNull ((vpn_open False VPN_MODE_GENERAL False)
     \<lparr>vpn_fsm := \<lparr>m_current_state = VPN_SS_CONNECTING, m_recursive = False\<rparr>, pinger := PingerRunning,
      pending_error := Some (exhausted_error AF_INET [])\<rparr>)) = PingerRunning"
  using abandoned_while_connecting [of "(vpn_open False VPN_MODE_GENERAL False)
     \<lparr>vpn_fsm := \<lparr>m_current_state = VPN_SS_CONNECTING, m_recursive = False\<rparr>, pinger := PingerRunning,
      pending_error := Some (exhausted_error AF_INET [])\<rparr>" "exhausted_error AF_INET []" sample_env]
  by (simp add: Let_def vpn_open_def session_state_def get_state_def exhausted_error_def is_fatal_error_code_def)

text \<open>
  the number of connection attempts wraps around. A connecting session whose current endpoint is
  abandoned retries without asking whether an attempt is left: after the last one the counter of the
  attempts left becomes the largest 64-bit number.
\<close>

theorem abandoned_attempts_wrap:
  assumes "\<not> m_recursive (vpn_fsm v)" and "session_state v = VPN_SS_CONNECTING" and "ev_loop v = LoopRunning"
    and "pending_error v = Some e" and "\<not> is_fatal_error_code (ec e)"
    and "connect_retry_info v = ConnectSeveralAttempts 0"
  shows "let v' = vpn_transition CE_ABANDON_ENDPOINT env VNull v in
    session_state v' = VPN_SS_CONNECTING \<and> tasks v' = tasks v @ [TaskRetryConnect] \<and>
    connect_retry_info v' = ConnectSeveralAttempts 18446744073709551615"
proof -
  have "\<not> is_fatal_error st v (env, VNull)" for st
    using assms(4,5) by (simp add: is_fatal_error_def error_code_of_def as_error_def)
  then show ?thesis
    unfolding vpn_transition_find [OF assms(1)] rows_CE_ABANDON_ENDPOINT assms(2)
    using assms(3,6) by (simp add: Let_def retry_connect_def)
qed

theorem abandoned_attempts_wrap_witness:
  "connect_retry_info (vpn_transition CE_ABANDON_ENDPOINT sample_env VNull
     ((vpn_open False VPN_MODE_GENERAL False)
       \<lparr>vpn_fsm := \<lparr>m_current_state = VPN_SS_CONNECTING, m_recursive = False\<rparr>, ev_loop := LoopRunning,
        pending_error := Some (VpnError VPN_EC_ERROR []), connect_retry_info := ConnectSeveralAttempts 0\<rparr>)) =
   ConnectSeveralAttempts 18446744073709551615"
  using abandoned_attempts_wrap [of "(vpn_open False VPN_MODE_GENERAL False)
       \<lparr>vpn_fsm := \<lparr>m_current_state = VPN_SS_CONNECTING, m_recursive = False\<rparr>, ev_loop := LoopRunning,
        pending_error := Some (VpnError VPN_EC_ERROR []), connect_retry_info := ConnectSeveralAttempts 0\<rparr>"
      "VpnError VPN_EC_ERROR []" sample_env]
  by (simp add: Let_def vpn_open_def session_state_def get_state_def is_fatal_error_code_def ec_defs)

text \<open>
  a listener whose DNS health check cannot be started. The client leaves the connected state, but
  \<open>listen\<close> returns an error with the code of success, so that its caller takes it for a success.
\<close>

theorem listen_health_check_unreported:
  assumes "client_ready c" and "client_state_of c = S_CONNECTED" and "\<not> dns_proxy_listener c"
    and "dns_upstreams cfg \<noteq> []" and "listener_init env = INIT_SUCCESS" and "rand_bytes_ok env"
    and "dns_listener_init_ok env" and "dns_handler_params_ok env" and "\<not> dns_resolve_started env"
  shows "let (e, c') = client_listen cfg env c in
    ec e = VPN_EC_NOERROR \<and> client_state_of c' = S_DISCONNECTING \<and> DeferredDisconnect \<in> set (deferred_tasks c')"
proof -
  let ?cfg = "if lc_timeout_ms cfg = 0 then cfg\<lparr>lc_timeout_ms := VPN_DEFAULT_TCP_TIMEOUT_MS\<rparr> else cfg"
  define c1 where "c1 = c\<lparr>client_listener := True, listener_cfg := ?cfg\<rparr>"
  define c3 where "c3 = c_tunnel TunnelExclusionsUpdated
      (if tmp_files_base_path c1 then c_emit CleanUpBufferFiles c1 else c1)"
  define c4 where "c4 = c3\<lparr>dns_proxy_listener := True, dns_health_check_id := False\<rparr>"
  have c4: "client_ready c4" "client_state_of c4 = S_CONNECTED"
    using assms(1,2) by (simp_all add: c4_def c3_def c1_def client_ready_def client_state_of_def)
  have up: "dns_upstreams ?cfg \<noteq> []" using assms(4) by simp
  have c3: "client_state_of c3 = S_CONNECTED" "\<not> dns_proxy_listener c3" "dns_upstreams (listener_cfg c3) \<noteq> []"
    using assms(2,3) up by (simp_all add: c3_def c1_def client_state_of_def)
  have "client_listen cfg env c = listen_dns env c3"
    using assms(2,5) unfolding client_listen_def Let_def c3_def c1_def [symmetric]
    by (simp add: client_state_of_def c1_def)
  also have "... = listen_fail (VpnError VPN_EC_NOERROR ''Failed to start DNS upstream health check'') env c4"
    using c3 assms(6-9)
    by (simp add: listen_dns_def start_dns_proxy_listener_def do_dns_upstream_health_check_def no_error_def c4_def)
  finally have "client_listen cfg env c =
      listen_fail (VpnError VPN_EC_NOERROR ''Failed to start DNS upstream health check'') env c4" .
  then show ?thesis
    using client_transition_session_failed [OF c4(1), of E_RUN_PREPARATION_FAIL env CNull] c4(2)
    by (simp add: listen_fail_def submit_disconnect_def client_state_of_def get_state_def)
qed

theorem listen_health_check_unreported_witness:
  "ec (fst (client_listen \<lparr>lc_timeout_ms = 0, dns_upstreams = [''1.1.1.1'']\<rparr>
     ((cenv sample_env)\<lparr>dns_resolve_started := False\<rparr>)
     ((opened_client False VPN_MODE_GENERAL False)\<lparr>client_fsm := \<lparr>m_current_state = S_CONNECTED, m_recursive = False\<rparr>\<rparr>))) =
   VPN_EC_NOERROR"
  using listen_health_check_unreported [of
      "(opened_client False VPN_MODE_GENERAL False)\<lparr>client_fsm := \<lparr>m_current_state = S_CONNECTED, m_recursive = False\<rparr>\<rparr>"
      "\<lparr>lc_timeout_ms = 0, dns_upstreams = [''1.1.1.1'']\<rparr>" "(cenv sample_env)\<lparr>dns_resolve_started := False\<rparr>"]
  by (simp add: client_ready_def client_state_of_def get_state_def opened_client_def sample_env_def case_prod_beta)


end
